theory Spec2Isabelle
  imports Complex_Main "HOL-Library.Word"
begin

text \<open>
  Conventions of the embedding. A Go \<^verbatim>\<open>error\<close> is its message, \<open>None\<close> for
  \<^verbatim>\<open>nil\<close>. A Go \<^verbatim>\<open>int\<close> or \<^verbatim>\<open>int64\<close> is an \<open>int\<close> in the range of
  \<open>wrap64\<close>, or a \<open>64 word\<close> read with \<open>sint\<close>, and arithmetic that may leave the
  range is wrapped. A \<^verbatim>\<open>float64\<close> is the \<open>real\<close> number it stands for (the
  infinities and NaN have no model); a \<^verbatim>\<open>float64\<close> conversion or division gives
  the exact result rounded by \<open>float64_round\<close>. A panic is the \<open>Inl\<close> of a sum. Calls into libraries outside the repository (the random
  source, the clock, the Prometheus registry, the template renderer, the HTTP round
  trip) are arguments of the function that makes them.
\<close>

type_synonym error = string

datatype panic =
  IndexOutOfRange
  | NilDereference
  | DivideByZero
  | RandPanic error
  | RandMaxNotPositive
  | Unreachable

definition wrap64 :: "int \<Rightarrow> int" where
  "wrap64 x = (x + 2 ^ 63) mod 2 ^ 64 - 2 ^ 63"

section \<open>Name cache (request/cache.go: Cache)\<close>

text \<open>
  \<^verbatim>\<open>Cache\<close> wraps a \<^verbatim>\<open>container/list\<close> doubly linked list of strings behind a
  mutex. Every method holds the mutex for its whole body, so each call is one atomic
  step on the sequence of stored names: the model is that sequence, front first, and
  every method returns the new sequence next to its results.
\<close>

type_synonym Cache = "string list"

definition InitCache :: "Cache" where
  "InitCache = []"

text \<open>\<^verbatim>\<open>Pop\<close>: results are (name, ok) and the cache afterwards.\<close>

definition Pop :: "Cache \<Rightarrow> (string \<times> bool) \<times> Cache" where
  "Pop c =
     (if length c = 0 then (([], False), c)
      else (case c of front # rest \<Rightarrow> ((front, True), rest)))"

definition Push :: "Cache \<Rightarrow> string \<Rightarrow> Cache" where
  "Push c name = c @ [name]"

definition Len :: "Cache \<Rightarrow> int" where
  "Len c = int (length c)"

text \<open>A single-threaded run of pushes, and of pops collecting the names returned.\<close>

fun push_all :: "Cache \<Rightarrow> string list \<Rightarrow> Cache" where
  "push_all c [] = c"
| "push_all c (n # ns) = push_all (Push c n) ns"

fun pop_many :: "nat \<Rightarrow> Cache \<Rightarrow> (string \<times> bool) list \<times> Cache" where
  "pop_many 0 c = ([], c)"
| "pop_many (Suc k) c =
     (case Pop c of (r, c') \<Rightarrow> (case pop_many k c' of (rs, c'') \<Rightarrow> (r # rs, c'')))"

section \<open>Response metric sink (metrics/request.go)\<close>

text \<open>
  \<^verbatim>\<open>responseMetricImpl\<close>. The Prometheus summary is a library object, safe for
  concurrent use: the model keeps the samples it has been given, in order. The
  functions \<open>ObserveLatency\<close>, \<open>ObserveFailure\<close> and \<open>Gather\<close> are the bodies of
  the methods run by one caller from start to end; \<open>observe_step\<close> below takes
  \<^verbatim>\<open>ObserveFailure\<close> apart for callers that run at the same time.
\<close>

record responseMetricImpl =
  latencySeconds :: "real list"
  failureCount :: "64 word"
  failureList :: "error list"

definition NewResponseMetric :: "responseMetricImpl" where
  "NewResponseMetric = \<lparr>latencySeconds = [], failureCount = 0, failureList = []\<rparr>"

definition ObserveLatency :: "responseMetricImpl \<Rightarrow> real \<Rightarrow> responseMetricImpl" where
  "ObserveLatency m seconds = m\<lparr>latencySeconds := latencySeconds m @ [seconds]\<rparr>"

text \<open>\<^verbatim>\<open>ObserveFailure\<close>: the append, then the atomic add (the two prints are left out).\<close>

definition ObserveFailure :: "responseMetricImpl \<Rightarrow> error \<Rightarrow> responseMetricImpl" where
  "ObserveFailure m err =
     (let m1 = m\<lparr>failureList := failureList m @ [err]\<rparr>
      in m1\<lparr>failureCount := failureCount m1 + 1\<rparr>)"

text \<open>
  The steps of \<^verbatim>\<open>ObserveFailure\<close>. No lock is held in the method, so the steps of
  two calls can alternate. The statement \<^verbatim>\<open>m.failureList = append(m.failureList, err)\<close>
  reads the slice and then stores the slice that is one longer; \<^verbatim>\<open>atomic.AddInt64\<close>
  is one step. A call is at one of four points; between the read and the store it
  holds the slice it is going to store. (Two calls that read the same slice of a full
  backing array, as the empty slice of \<^verbatim>\<open>NewResponseMetric\<close> is, each store an
  array of their own. When the array has room, both write the same slot of it, and
  the stored slice has the same length.)
\<close>

datatype observe_pc =
  AtAppendRead
  | AtAppendStore "error list"
  | AtAtomicAdd
  | Returned

fun observe_step ::
  "responseMetricImpl \<Rightarrow> error \<Rightarrow> observe_pc \<Rightarrow> responseMetricImpl \<times> observe_pc" where
  "observe_step m err AtAppendRead = (m, AtAppendStore (failureList m @ [err]))"
| "observe_step m err (AtAppendStore l) = (m\<lparr>failureList := l\<rparr>, AtAtomicAdd)"
| "observe_step m err AtAtomicAdd = (m\<lparr>failureCount := failureCount m + 1\<rparr>, Returned)"
| "observe_step m err Returned = (m, Returned)"

text \<open>
  Calls of \<^verbatim>\<open>ObserveFailure\<close> that run at the same time, call \<open>i\<close> with the error
  \<open>errs ! i\<close>. The schedule lists the callers in the order in which they take their
  steps; an entry that names no caller is skipped.
\<close>

fun observe_run ::
  "nat list \<Rightarrow> error list \<Rightarrow> responseMetricImpl \<times> observe_pc list \<Rightarrow>
     responseMetricImpl \<times> observe_pc list" where
  "observe_run [] errs st = st"
| "observe_run (t # ts) errs (m, pcs) =
     (if t < length pcs \<and> t < length errs then
        (case observe_step m (errs ! t) (pcs ! t) of
           (m', pc') \<Rightarrow> observe_run ts errs (m', pcs[t := pc']))
      else observe_run ts errs (m, pcs))"

definition observe_concurrently ::
  "responseMetricImpl \<Rightarrow> error list \<Rightarrow> nat list \<Rightarrow> responseMetricImpl \<times> observe_pc list" where
  "observe_concurrently m errs schedule =
     observe_run schedule errs (m, replicate (length errs) AtAppendRead)"

text \<open>
  What \<^verbatim>\<open>reg.Gather()\<close> hands back: an error, or the metric families; a family is
  the list of its metrics and a metric is the (quantile, value) pairs of its summary.
  The registry is a function of the samples the summary holds.
\<close>

type_synonym metric = "(real \<times> real) list"
type_synonym metricFamily = "metric list"
type_synonym registry = "real list \<Rightarrow> error + metricFamily list"

text \<open>
  \<^verbatim>\<open>Gather\<close>: results are (latencies, failure, error, failureList). The \<^verbatim>\<open>nil\<close> map
  of the error return is the empty map. \<^verbatim>\<open>metricFamilies[0]\<close> and
  \<^verbatim>\<open>GetMetric()[0]\<close> panic on an empty slice.
\<close>

definition Gather ::
  "responseMetricImpl \<Rightarrow> registry \<Rightarrow>
     panic + ((real \<rightharpoonup> real) \<times> int \<times> error option \<times> error list)" where
  "Gather m reg =
     (let failureList = failureList m
      in case reg (latencySeconds m) of
           Inl err \<Rightarrow>
             Inr (Map.empty, 0,
                  Some (''failed to gather from local registry: '' @ err), failureList)
         | Inr metricFamilies \<Rightarrow>
             (case metricFamilies of
                [] \<Rightarrow> Inl IndexOutOfRange
              | family # _ \<Rightarrow>
                  (case family of
                     [] \<Rightarrow> Inl IndexOutOfRange
                   | quantiles # _ \<Rightarrow>
                       Inr (foldl (\<lambda>latencies (q, v). latencies(q \<mapsto> v)) Map.empty quantiles,
                            sint (failureCount m), None, failureList))))"

text \<open>
  The registry \<^verbatim>\<open>Gather\<close> makes: \<^verbatim>\<open>prometheus.NewRegistry()\<close> with the summary
  vector of the sink as its only collector. This is the behaviour of the library
  (client_golang), not code of the repository. A vector holds one metric for each
  combination of label values it has been asked for, and \<^verbatim>\<open>WithLabelValues()\<close> in
  \<^verbatim>\<open>ObserveLatency\<close> is the only such request: before the first observation the
  vector collects nothing and \<^verbatim>\<open>reg.Gather()\<close> returns no family and no error;
  from then on it returns one family with one metric. A single collector with one
  metric gives the registry no inconsistency to report, so it returns no error.
  \<open>summary\<close> stands for the quantile estimator.
\<close>

definition local_registry :: "(real list \<Rightarrow> metric) \<Rightarrow> registry" where
  "local_registry summary samples =
     (if samples = [] then Inr [] else Inr [[summary samples]])"

section \<open>Request builders (request/cache.go)\<close>

subsection \<open>Types of the packages the builders use\<close>

text \<open>
  The declarations of \<^verbatim>\<open>api/types\<close> are not among the sources: each record has the
  fields the builders read. A pointer that may be \<^verbatim>\<open>nil\<close> is an option.
\<close>

record GroupVersion =
  Group :: string
  Version :: string

record RequestGet =
  get_Group :: string
  get_Version :: string
  get_Resource :: string
  get_Namespace :: string
  get_Name :: string

record RequestList =
  list_Group :: string
  list_Version :: string
  list_Resource :: string
  list_Namespace :: string
  list_Limit :: int
  list_Selector :: string
  list_FieldSelector :: string

record RequestWatchList =
  watch_Group :: string
  watch_Version :: string
  watch_Resource :: string
  watch_Namespace :: string
  watch_Selector :: string
  watch_FieldSelector :: string

record RequestGetPodLog =
  log_Namespace :: string
  log_Name :: string
  log_Container :: string
  log_TailLines :: "int option"
  log_LimitBytes :: "int option"

record RequestPatch =
  patch_Group :: string
  patch_Version :: string
  patch_Resource :: string
  patch_Namespace :: string
  patch_Name :: string
  patch_KeySpaceSize :: int
  patch_PatchType :: string
  patch_Body :: string

record RequestPostDel =
  postdel_Group :: string
  postdel_Version :: string
  postdel_Resource :: string
  postdel_Namespace :: string
  postdel_DeleteRatio :: real

record WeightedRequest =
  Shares :: int
  StaleList :: "RequestList option"
  QuorumList :: "RequestList option"
  WatchList :: "RequestWatchList option"
  StaleGet :: "RequestGet option"
  QuorumGet :: "RequestGet option"
  GetPodLog :: "RequestGetPodLog option"
  Patch :: "RequestPatch option"
  PostDel :: "RequestPostDel option"

record LoadProfileSpec =
  Rate :: real
  Total :: int
  Client :: int
  MaxRetries :: int
  Requests :: "WeightedRequest list"

text \<open>
  A \<^verbatim>\<open>rest.Request\<close> of client-go is what the fluent calls put into it: the client
  it was made from, the verb, the path components, the options handed to
  \<^verbatim>\<open>SpecificallyVersionedParams\<close>, the body and the argument of \<^verbatim>\<open>MaxRetries\<close>.
\<close>

record ListOptions =
  LabelSelector :: string
  FieldSelector :: string
  ResourceVersion :: string
  Limit :: int
  Watch :: bool
  SendInitialEvents :: "bool option"
  ResourceVersionMatch :: string
  AllowWatchBookmarks :: bool

record PodLogOptions =
  Container :: string
  TailLines :: "int option"
  LimitBytes :: "int option"

datatype versioned_params =
  NoParams
  | GetOptions string
  | ListOptionsOf ListOptions
  | PodLogOptionsOf PodLogOptions

datatype http_verb = VerbGet | VerbPost | VerbDelete | VerbPatch string

record Request =
  req_client :: nat
  req_verb :: http_verb
  req_absPath :: "string list"
  req_params :: versioned_params
  req_body :: "string option"
  req_maxRetries :: int

definition ResourceVersionMatchNotOlderThan :: string where
  "ResourceVersionMatchNotOlderThan = ''NotOlderThan''"

text \<open>The zero value of \<^verbatim>\<open>metav1.ListOptions\<close>, for the fields a literal leaves out.\<close>

definition ListOptions_zero :: ListOptions where
  "ListOptions_zero =
     \<lparr>LabelSelector = [], FieldSelector = [], ResourceVersion = [], Limit = 0,
      Watch = False, SendInitialEvents = None, ResourceVersionMatch = [],
      AllowWatchBookmarks = False\<rparr>"

subsection \<open>Requesters\<close>

text \<open>
  \<^verbatim>\<open>BaseRequester\<close>, \<^verbatim>\<open>DiscardRequester\<close> and \<^verbatim>\<open>WatchListRequester\<close> are declared
  outside the sources at hand; the builders fill in \<^verbatim>\<open>method\<close> and \<^verbatim>\<open>req\<close>. The
  \<^verbatim>\<open>builder\<close> field of a \<^verbatim>\<open>PostDelDiscardRequester\<close> points at the builder that
  made it: the model hands that builder's cache to \<^verbatim>\<open>Do\<close> instead of keeping the
  pointer.
\<close>

record BaseRequester =
  br_method :: string
  br_req :: Request

record PostDelDiscardRequester =
  pdr_name :: string
  pdr_operation :: string
  pdr_DiscardRequester :: BaseRequester

datatype Requester =
  DiscardRequester BaseRequester
  | WatchListRequester BaseRequester
  | PostDelRequester PostDelDiscardRequester

fun requester_req :: "Requester \<Rightarrow> Request" where
  "requester_req (DiscardRequester b) = br_req b"
| "requester_req (WatchListRequester b) = br_req b"
| "requester_req (PostDelRequester p) = br_req (pdr_DiscardRequester p)"

subsection \<open>Builders\<close>

record requestGetBuilder =
  gb_version :: GroupVersion
  gb_resource :: string
  gb_namespace :: string
  gb_name :: string
  gb_resourceVersion :: string
  gb_maxRetries :: int

record requestListBuilder =
  lb_version :: GroupVersion
  lb_resource :: string
  lb_namespace :: string
  lb_limit :: int
  lb_labelSelector :: string
  lb_fieldSelector :: string
  lb_resourceVersion :: string
  lb_maxRetries :: int

record requestWatchListBuilder =
  wb_version :: GroupVersion
  wb_resource :: string
  wb_namespace :: string
  wb_labelSelector :: string
  wb_fieldSelector :: string
  wb_maxRetries :: int

record requestGetPodLogBuilder =
  plb_namespace :: string
  plb_name :: string
  plb_container :: string
  plb_tailLines :: "int option"
  plb_limitBytes :: "int option"
  plb_maxRetries :: int

record requestPatchBuilder =
  pb_version :: GroupVersion
  pb_resource :: string
  pb_resourceVersion :: string
  pb_namespace :: string
  pb_name :: string
  pb_keySpaceSize :: int
  pb_patchType :: string
  pb_body :: string
  pb_maxRetries :: int

record requestPostDelBuilder =
  pdb_version :: GroupVersion
  pdb_resource :: string
  pdb_resourceVersion :: string
  pdb_namespace :: string
  pdb_deleteRatio :: real
  pdb_maxRetries :: int
  pdb_cache :: Cache
  pdb_resourceCounter :: "64 word"

datatype RESTRequestBuilder =
  GetBuilder requestGetBuilder
  | ListBuilder requestListBuilder
  | WatchListBuilder requestWatchListBuilder
  | GetPodLogBuilder requestGetPodLogBuilder
  | PatchBuilder requestPatchBuilder
  | PostDelBuilder requestPostDelBuilder

definition newRequestGetBuilder :: "RequestGet \<Rightarrow> string \<Rightarrow> int \<Rightarrow> requestGetBuilder" where
  "newRequestGetBuilder src resourceVersion maxRetries =
     \<lparr>gb_version = \<lparr>Group = get_Group src, Version = get_Version src\<rparr>,
      gb_resource = get_Resource src,
      gb_namespace = get_Namespace src,
      gb_name = get_Name src,
      gb_resourceVersion = resourceVersion,
      gb_maxRetries = maxRetries\<rparr>"

definition newRequestListBuilder :: "RequestList \<Rightarrow> string \<Rightarrow> int \<Rightarrow> requestListBuilder" where
  "newRequestListBuilder src resourceVersion maxRetries =
     \<lparr>lb_version = \<lparr>Group = list_Group src, Version = list_Version src\<rparr>,
      lb_resource = list_Resource src,
      lb_namespace = list_Namespace src,
      lb_limit = list_Limit src,
      lb_labelSelector = list_Selector src,
      lb_fieldSelector = list_FieldSelector src,
      lb_resourceVersion = resourceVersion,
      lb_maxRetries = maxRetries\<rparr>"

definition newRequestWatchListBuilder :: "RequestWatchList \<Rightarrow> int \<Rightarrow> requestWatchListBuilder" where
  "newRequestWatchListBuilder src maxRetries =
     \<lparr>wb_version = \<lparr>Group = watch_Group src, Version = watch_Version src\<rparr>,
      wb_resource = watch_Resource src,
      wb_namespace = watch_Namespace src,
      wb_labelSelector = watch_Selector src,
      wb_fieldSelector = watch_FieldSelector src,
      wb_maxRetries = maxRetries\<rparr>"

definition newRequestGetPodLogBuilder :: "RequestGetPodLog \<Rightarrow> int \<Rightarrow> requestGetPodLogBuilder" where
  "newRequestGetPodLogBuilder src maxRetries =
     \<lparr>plb_namespace = log_Namespace src,
      plb_name = log_Name src,
      plb_container = log_Container src,
      plb_tailLines = log_TailLines src,
      plb_limitBytes = log_LimitBytes src,
      plb_maxRetries = maxRetries\<rparr>"

text \<open>\<open>getPatchType\<close> is \<^verbatim>\<open>types.GetPatchType\<close>, which is not among the sources.\<close>

definition newRequestPatchBuilder ::
  "(string \<Rightarrow> string) \<Rightarrow> RequestPatch \<Rightarrow> string \<Rightarrow> int \<Rightarrow> requestPatchBuilder" where
  "newRequestPatchBuilder getPatchType src resourceVersion maxRetries =
     \<lparr>pb_version = \<lparr>Group = patch_Group src, Version = patch_Version src\<rparr>,
      pb_resource = patch_Resource src,
      pb_resourceVersion = resourceVersion,
      pb_namespace = patch_Namespace src,
      pb_name = patch_Name src,
      pb_keySpaceSize = patch_KeySpaceSize src,
      pb_patchType = getPatchType (patch_PatchType src),
      pb_body = patch_Body src,
      pb_maxRetries = maxRetries\<rparr>"

definition newRequestPostDelBuilder ::
  "RequestPostDel \<Rightarrow> string \<Rightarrow> int \<Rightarrow> requestPostDelBuilder" where
  "newRequestPostDelBuilder src resourceVersion maxRetries =
     \<lparr>pdb_version = \<lparr>Group = postdel_Group src, Version = postdel_Version src\<rparr>,
      pdb_resource = postdel_Resource src,
      pdb_resourceVersion = resourceVersion,
      pdb_namespace = postdel_Namespace src,
      pdb_deleteRatio = postdel_DeleteRatio src,
      pdb_maxRetries = maxRetries,
      pdb_cache = InitCache,
      pdb_resourceCounter = 0\<rparr>"

subsection \<open>float64 arithmetic\<close>

text \<open>
  IEEE 754 binary64 with the default rounding, round to nearest, ties to even, as Go's
  \<^verbatim>\<open>float64\<close> conversions and operators compute. \<open>float64_norm y ulp\<close> scales
  a positive \<open>y\<close> by powers of two into \<open>[2^52, 2^53)\<close>, the range where the
  floats are the integers, and scales \<open>ulp\<close> the other way, so that \<open>y * ulp\<close>
  stays the same; \<open>float64_round\<close> rounds there and scales back. The exponent is
  not bounded: overflow and subnormal numbers are not modelled. The only operands in
  the code are an integer in \<open>[0, 1000)\<close> and its quotient by 1000, which is 0 or
  at least 1/1000.
\<close>

definition round_half_even :: "real \<Rightarrow> int" where
  "round_half_even y =
     (let f = \<lfloor>y\<rfloor>; d = y - of_int f
      in if d < 1 / 2 then f else if 1 / 2 < d then f + 1 else if even f then f else f + 1)"

function float64_norm :: "real \<Rightarrow> real \<Rightarrow> real \<times> real" where
  "float64_norm y ulp =
     (if y \<le> 0 then (y, ulp)
      else if y < 2 ^ 52 then float64_norm (2 * y) (ulp / 2)
      else if 2 ^ 53 \<le> y then float64_norm (y / 2) (2 * ulp)
      else (y, ulp))"
  by pat_completeness auto
termination
proof (relation "measure (\<lambda>(y, ulp). nat \<bar>\<lfloor>log 2 y\<rfloor> - 52\<bar>)")
  show "wf (measure (\<lambda>(y, ulp). nat \<bar>\<lfloor>log 2 y\<rfloor> - 52\<bar>))" by simp
next
  fix y ulp :: real
  assume a: "\<not> y \<le> 0" "y < 2 ^ 52"
  have "(2::real) powr 52 = 2 ^ 52" using powr_realpow [of 2 52] by simp
  with a have "log 2 y < 52" by (subst log_less_iff) simp_all
  then have lt: "\<lfloor>log 2 y\<rfloor> < 52" by linarith
  have "log 2 (2 * y) = 1 + log 2 y" using a by (simp add: log_mult)
  then have "\<lfloor>log 2 (2 * y)\<rfloor> = 1 + \<lfloor>log 2 y\<rfloor>" by simp
  with lt show "((2 * y, ulp / 2), (y, ulp)) \<in> measure (\<lambda>(y, ulp). nat \<bar>\<lfloor>log 2 y\<rfloor> - 52\<bar>)"
    by simp
next
  fix y ulp :: real
  assume a: "\<not> y \<le> 0" "\<not> y < 2 ^ 52" "2 ^ 53 \<le> y"
  have "(2::real) powr 53 = 2 ^ 53" using powr_realpow [of 2 53] by simp
  with a have "53 \<le> log 2 y" by (subst le_log_iff) simp_all
  then have ge: "53 \<le> \<lfloor>log 2 y\<rfloor>" by linarith
  have "log 2 (y / 2) = log 2 y - 1" using a by (simp add: log_divide)
  then have "\<lfloor>log 2 (y / 2)\<rfloor> = \<lfloor>log 2 y\<rfloor> - 1" by simp
  with ge show "((y / 2, 2 * ulp), (y, ulp)) \<in> measure (\<lambda>(y, ulp). nat \<bar>\<lfloor>log 2 y\<rfloor> - 52\<bar>)"
    by simp
qed

declare float64_norm.simps [simp del]

definition float64_round :: "real \<Rightarrow> real" where
  "float64_round x =
     (if x = 0 then 0
      else case float64_norm \<bar>x\<bar> 1 of
             (y, ulp) \<Rightarrow> sgn x * of_int (round_half_even y) * ulp)"

text \<open>The conversion \<^verbatim>\<open>float64(k)\<close> of an integer and the operator \<^verbatim>\<open>/\<close>.\<close>

definition float64_of_int :: "int \<Rightarrow> real" where
  "float64_of_int k = float64_round (real_of_int k)"

definition float64_div :: "real \<Rightarrow> real \<Rightarrow> real" where
  "float64_div x y = float64_round (x / y)"

subsection \<open>Build\<close>

text \<open>\<^verbatim>\<open>%d\<close> of \<^verbatim>\<open>fmt.Sprintf\<close>: decimal digits, with a minus sign below zero.\<close>

definition digit_char :: "nat \<Rightarrow> char" where
  "digit_char d = ''0123456789'' ! d"

fun show_nat :: "nat \<Rightarrow> string" where
  "show_nat n = (if n < 10 then [digit_char n] else show_nat (n div 10) @ [digit_char (n mod 10)])"

declare show_nat.simps [simp del]

definition show_int :: "int \<Rightarrow> string" where
  "show_int i = (if i < 0 then CHR ''-'' # show_nat (nat (- i)) else show_nat (nat i))"

text \<open>
  What a call of \<^verbatim>\<open>Build\<close> takes from outside: the answer of the random source to
  \<^verbatim>\<open>rand.Int\<close> and the clock's \<^verbatim>\<open>UnixNano\<close>.
\<close>

record build_env =
  be_randomInt :: "error + int"
  be_unixNano :: int

text \<open>
  \<^verbatim>\<open>randomInt, _ := rand.Int(rand.Reader, big.NewInt(max))\<close> followed by
  \<^verbatim>\<open>randomInt.Int64()\<close>: \<^verbatim>\<open>rand.Int\<close> panics when the bound \<open>max\<close> is not positive, and
  after an error of the reader, which the code drops, \<^verbatim>\<open>randomInt\<close> is \<^verbatim>\<open>nil\<close>.
\<close>

definition rand_Int64 :: "int \<Rightarrow> error + int \<Rightarrow> panic + int" where
  "rand_Int64 bound answer =
     (if bound \<le> 0 then Inl RandMaxNotPositive
      else case answer of Inl err \<Rightarrow> Inl NilDereference | Inr n \<Rightarrow> Inr n)"

text \<open>The first components of the path, as every builder but the pod log one lays them.\<close>

definition api_comps :: "GroupVersion \<Rightarrow> string \<Rightarrow> string list" where
  "api_comps version namespace =
     (let comps = (if Group version = [] then [''api'', Version version]
                   else [''apis'', Group version, Version version])
      in if namespace \<noteq> [] then comps @ [''namespaces'', namespace] else comps)"

definition Build_Get :: "requestGetBuilder \<Rightarrow> nat \<Rightarrow> Requester" where
  "Build_Get b cli =
     (let comps = api_comps (gb_version b) (gb_namespace b) @ [gb_resource b, gb_name b]
      in DiscardRequester
           \<lparr>br_method = ''GET'',
            br_req = \<lparr>req_client = cli, req_verb = VerbGet, req_absPath = comps,
                      req_params = GetOptions (gb_resourceVersion b),
                      req_body = None, req_maxRetries = gb_maxRetries b\<rparr>\<rparr>)"

definition Build_List :: "requestListBuilder \<Rightarrow> nat \<Rightarrow> Requester" where
  "Build_List b cli =
     (let comps = api_comps (lb_version b) (lb_namespace b) @ [lb_resource b]
      in DiscardRequester
           \<lparr>br_method = ''LIST'',
            br_req = \<lparr>req_client = cli, req_verb = VerbGet, req_absPath = comps,
                      req_params = ListOptionsOf
                        (ListOptions_zero
                           \<lparr>LabelSelector := lb_labelSelector b,
                            FieldSelector := lb_fieldSelector b,
                            ResourceVersion := lb_resourceVersion b,
                            Limit := lb_limit b\<rparr>),
                      req_body = None, req_maxRetries = lb_maxRetries b\<rparr>\<rparr>)"

definition Build_WatchList :: "requestWatchListBuilder \<Rightarrow> nat \<Rightarrow> Requester" where
  "Build_WatchList b cli =
     (let comps = api_comps (wb_version b) (wb_namespace b) @ [wb_resource b]
      in WatchListRequester
           \<lparr>br_method = ''WATCHLIST'',
            br_req = \<lparr>req_client = cli, req_verb = VerbGet, req_absPath = comps,
                      req_params = ListOptionsOf
                        (ListOptions_zero
                           \<lparr>LabelSelector := wb_labelSelector b,
                            FieldSelector := wb_fieldSelector b,
                            ResourceVersion := [],
                            Watch := True,
                            SendInitialEvents := Some True,
                            ResourceVersionMatch := ResourceVersionMatchNotOlderThan,
                            AllowWatchBookmarks := True\<rparr>),
                      req_body = None, req_maxRetries = wb_maxRetries b\<rparr>\<rparr>)"

definition Build_GetPodLog :: "requestGetPodLogBuilder \<Rightarrow> nat \<Rightarrow> Requester" where
  "Build_GetPodLog b cli =
     (let comps = [''api'', ''v1''] @ [''namespaces'', plb_namespace b]
                   @ [''pods'', plb_name b, ''log'']
      in DiscardRequester
           \<lparr>br_method = ''POD_LOG'',
            br_req = \<lparr>req_client = cli, req_verb = VerbGet, req_absPath = comps,
                      req_params = PodLogOptionsOf
                        \<lparr>Container = plb_container b,
                         TailLines = plb_tailLines b,
                         LimitBytes = plb_limitBytes b\<rparr>,
                      req_body = None, req_maxRetries = plb_maxRetries b\<rparr>\<rparr>)"

definition Build_Patch :: "requestPatchBuilder \<Rightarrow> nat \<Rightarrow> build_env \<Rightarrow> panic + Requester" where
  "Build_Patch b cli env =
     (let comps = api_comps (pb_version b) (pb_namespace b)
      in case rand_Int64 (pb_keySpaceSize b) (be_randomInt env) of
           Inl p \<Rightarrow> Inl p
         | Inr suffix \<Rightarrow>
             (let finalName = pb_name b @ ''-'' @ show_int suffix
              in Inr (DiscardRequester
                   \<lparr>br_method = ''PATCH'',
                    br_req = \<lparr>req_client = cli, req_verb = VerbPatch (pb_patchType b),
                              req_absPath = comps @ [pb_resource b, finalName],
                              req_params = NoParams,
                              req_body = Some (pb_body b),
                              req_maxRetries = pb_maxRetries b\<rparr>\<rparr>)))"

text \<open>
  \<^verbatim>\<open>requestPostDelBuilder.Build\<close>. \<open>RenderTemplate\<close> is \<^verbatim>\<open>utils.RenderTemplate\<close>,
  which is not among the sources; the code drops its error and sends the bytes it
  returns. The builder comes back with its cache and its counter as the call left
  them. \<open>Build_PostDel_post\<close> is the part of the body from the comment
  \<^verbatim>\<open>POST logic\<close> on, which runs when no \<^verbatim>\<open>DELETE\<close> was returned. The
  comparison \<^verbatim>\<open>float64(randomInt.Int64())/1000.0 < b.deleteRatio\<close> is between
  \<^verbatim>\<open>float64\<close> values: the conversion and the quotient are rounded.
\<close>

definition Build_PostDel_post ::
  "(string \<Rightarrow> (string \<rightharpoonup> string) \<Rightarrow> string) \<Rightarrow> requestPostDelBuilder \<Rightarrow> nat \<Rightarrow> build_env \<Rightarrow>
     string list \<Rightarrow> Requester \<times> requestPostDelBuilder" where
  "Build_PostDel_post RenderTemplate b cli env comps =
     (let counter = pdb_resourceCounter b + 1;
          timestamp = be_unixNano env;
          generated = show_int timestamp @ ''-'' @ show_int (sint counter);
          body = RenderTemplate (pdb_resource b)
                   [''namePattern'' \<mapsto> generated, ''namespace'' \<mapsto> pdb_namespace b]
      in (PostDelRequester
            \<lparr>pdr_name = generated,
             pdr_operation = ''POST'',
             pdr_DiscardRequester =
               \<lparr>br_method = ''POST'',
                br_req = \<lparr>req_client = cli, req_verb = VerbPost,
                          req_absPath = comps @ [pdb_resource b],
                          req_params = NoParams, req_body = Some body,
                          req_maxRetries = pdb_maxRetries b\<rparr>\<rparr>\<rparr>,
          b\<lparr>pdb_resourceCounter := counter\<rparr>))"

definition Build_PostDel ::
  "(string \<Rightarrow> (string \<rightharpoonup> string) \<Rightarrow> string) \<Rightarrow> requestPostDelBuilder \<Rightarrow> nat \<Rightarrow> build_env \<Rightarrow>
     panic + Requester \<times> requestPostDelBuilder" where
  "Build_PostDel RenderTemplate b cli env =
     (let comps = api_comps (pdb_version b) (pdb_namespace b)
      in case rand_Int64 1000 (be_randomInt env) of
           Inl p \<Rightarrow> Inl p
         | Inr randomInt \<Rightarrow>
             (let shouldDelete = (float64_div (float64_of_int randomInt) 1000 < pdb_deleteRatio b)
              in if shouldDelete then
                   (case Pop (pdb_cache b) of
                      ((popped, ok), cache') \<Rightarrow>
                        if ok then
                          Inr (PostDelRequester
                                 \<lparr>pdr_name = popped,
                                  pdr_operation = ''DELETE'',
                                  pdr_DiscardRequester =
                                    \<lparr>br_method = ''DELETE'',
                                     br_req = \<lparr>req_client = cli, req_verb = VerbDelete,
                                               req_absPath = comps @ [pdb_resource b, popped],
                                               req_params = NoParams, req_body = None,
                                               req_maxRetries = pdb_maxRetries b\<rparr>\<rparr>\<rparr>,
                               b\<lparr>pdb_cache := cache'\<rparr>)
                        else Inr (Build_PostDel_post RenderTemplate (b\<lparr>pdb_cache := cache'\<rparr>)
                                    cli env comps))
                 else Inr (Build_PostDel_post RenderTemplate b cli env comps)))"

text \<open>\<^verbatim>\<open>Build\<close> of the interface \<^verbatim>\<open>RESTRequestBuilder\<close>, by the type of the builder.\<close>

fun Build ::
  "(string \<Rightarrow> (string \<rightharpoonup> string) \<Rightarrow> string) \<Rightarrow> RESTRequestBuilder \<Rightarrow> nat \<Rightarrow> build_env \<Rightarrow>
     panic + Requester \<times> RESTRequestBuilder" where
  "Build rt (GetBuilder b) cli env = Inr (Build_Get b cli, GetBuilder b)"
| "Build rt (ListBuilder b) cli env = Inr (Build_List b cli, ListBuilder b)"
| "Build rt (WatchListBuilder b) cli env = Inr (Build_WatchList b cli, WatchListBuilder b)"
| "Build rt (GetPodLogBuilder b) cli env = Inr (Build_GetPodLog b cli, GetPodLogBuilder b)"
| "Build rt (PatchBuilder b) cli env =
     (case Build_Patch b cli env of
        Inl p \<Rightarrow> Inl p
      | Inr requester \<Rightarrow> Inr (requester, PatchBuilder b))"
| "Build rt (PostDelBuilder b) cli env =
     (case Build_PostDel rt b cli env of
        Inl p \<Rightarrow> Inl p
      | Inr (requester, b') \<Rightarrow> Inr (requester, PostDelBuilder b'))"

text \<open>
  \<^verbatim>\<open>PostDelDiscardRequester.Do\<close>. \<open>result\<close> is what \<^verbatim>\<open>DiscardRequester.Do\<close> returns
  for the request (bytes read and the error), \<open>cache\<close> the cache of the owning
  builder when the round trip is over; the results are those of \<^verbatim>\<open>Do\<close> and the
  cache afterwards.
\<close>

definition PostDel_Do ::
  "PostDelDiscardRequester \<Rightarrow> Cache \<Rightarrow> int \<times> error option \<Rightarrow> (int \<times> error option) \<times> Cache" where
  "PostDel_Do reqr cache result =
     (let (bytes, err) = result;
          cache' =
            (if pdr_operation reqr = ''POST'' then
               (if err = None then Push cache (pdr_name reqr) else cache)
             else if pdr_operation reqr = ''DELETE'' then
               (if err \<noteq> None then Push cache (pdr_name reqr) else cache)
             else cache)
      in ((bytes, err), cache'))"

section \<open>Weighted random generator (request/cache.go: WeightedRandomRequests)\<close>

text \<open>
  Of the struct the model keeps \<^verbatim>\<open>shares\<close> and \<^verbatim>\<open>reqBuilders\<close>. The builders are
  held by pointer, so a builder travelling through the channel is named by its
  position in \<^verbatim>\<open>reqBuilders\<close>. The contexts, the channel, the \<^verbatim>\<open>sync.Once\<close> and the
  wait group are runtime objects: what they do at each step is an input of the loop.
\<close>

record 'b WeightedRandomRequests =
  shares :: "int list"
  reqBuilders :: "'b list"

text \<open>\<^verbatim>\<open>sum := 0; for _, s := range r.shares { sum += s }\<close> on Go's 64-bit \<^verbatim>\<open>int\<close>.\<close>

definition shares_sum :: "int list \<Rightarrow> int" where
  "shares_sum ss = foldl (\<lambda>sum s. wrap64 (sum + s)) 0 ss"

text \<open>
  The second loop of \<^verbatim>\<open>randomPick\<close>, at position \<open>i\<close> with the shares from \<open>i\<close> on
  still to visit; falling out of the loop is \<^verbatim>\<open>panic("unreachable")\<close>, and
  \<^verbatim>\<open>r.reqBuilders[i]\<close> panics beyond the slice.
\<close>

fun pick_loop :: "int list \<Rightarrow> nat \<Rightarrow> nat \<Rightarrow> int \<Rightarrow> panic + nat" where
  "pick_loop [] n i rnd = Inl Unreachable"
| "pick_loop (s # ss) n i rnd =
     (if rnd < s then (if i < n then Inr i else Inl IndexOutOfRange)
      else pick_loop ss n (Suc i) (wrap64 (rnd - s)))"

text \<open>
  \<^verbatim>\<open>randomPick\<close>. \<open>rndInt\<close> is what \<^verbatim>\<open>rand.Int(rand.Reader, max)\<close> answers when
  \<open>max\<close> is positive: an error of the reader or a number; \<^verbatim>\<open>rand.Int\<close> itself
  panics when \<open>max\<close> is not positive.
\<close>

definition randomPick :: "'b WeightedRandomRequests \<Rightarrow> error + int \<Rightarrow> panic + nat" where
  "randomPick r rndInt =
     (let sum = shares_sum (shares r)
      in if sum \<le> 0 then Inl RandMaxNotPositive
         else case rndInt of
                Inl err \<Rightarrow> Inl (RandPanic err)
              | Inr rnd \<Rightarrow> pick_loop (shares r) (length (reqBuilders r)) 0 rnd)"

text \<open>
  One turn of the loop of \<^verbatim>\<open>Run\<close> meets the random source once and the
  \<^verbatim>\<open>select\<close> once. \<open>gen_env\<close> gives, for the turn number, the answer of the random
  source and the case of the \<^verbatim>\<open>select\<close> that fires.
\<close>

datatype select_case = SendBuilder | GenCtxDone | CallerCtxDone

type_synonym gen_env = "nat \<Rightarrow> (error + int) \<times> select_case"

datatype run_exit = TotalReached | GenCtxCancelled | CallerCtxCancelled

text \<open>
  The loop of \<^verbatim>\<open>Run\<close>: \<open>tot\<close> and \<open>sm\<close> are the Go variables
  \<^verbatim>\<open>total\<close> and \<^verbatim>\<open>sum\<close>, \<open>turn\<close> counts the turns taken
  and \<open>sent\<close> lists the builders handed over so far. The result is \<open>None\<close> when the
  loop never ends, a panic of \<^verbatim>\<open>randomPick\<close>, or the way the loop was left with the
  builders sent.
\<close>

partial_function (option) Run_loop ::
  "'b WeightedRandomRequests \<Rightarrow> gen_env \<Rightarrow> int \<Rightarrow> int \<Rightarrow> nat \<Rightarrow> nat list \<Rightarrow>
     (panic + run_exit \<times> nat list) option" where
  "Run_loop r env tot sm turn sent =
     (if tot > 0 \<and> sm \<ge> tot then Some (Inr (TotalReached, sent))
      else case randomPick r (fst (env turn)) of
             Inl p \<Rightarrow> Some (Inl p)
           | Inr builder \<Rightarrow>
               (case snd (env turn) of
                  SendBuilder \<Rightarrow>
                    Run_loop r env tot (wrap64 (sm + 1)) (Suc turn) (sent @ [builder])
                | GenCtxDone \<Rightarrow> Some (Inr (GenCtxCancelled, sent))
                | CallerCtxDone \<Rightarrow> Some (Inr (CallerCtxCancelled, sent))))"

definition Run ::
  "'b WeightedRandomRequests \<Rightarrow> gen_env \<Rightarrow> int \<Rightarrow> (panic + run_exit \<times> nat list) option" where
  "Run r env tot = Run_loop r env tot 0 0 []"

text \<open>
  A generator as \<^verbatim>\<open>NewWeightedRandomRequests\<close> builds it from a validated profile:
  one builder per share, every share a non-negative Go \<^verbatim>\<open>int\<close>, a positive sum.
  The random source keeps its contract when every number it answers is in
  \<open>[0, max)\<close>.
\<close>

definition generator_ok :: "'b WeightedRandomRequests \<Rightarrow> bool" where
  "generator_ok r \<longleftrightarrow>
     length (reqBuilders r) = length (shares r)
     \<and> (\<forall>s \<in> set (shares r). 0 \<le> s \<and> s < 2 ^ 63)
     \<and> 0 < shares_sum (shares r)"

definition draws_ok :: "'b WeightedRandomRequests \<Rightarrow> gen_env \<Rightarrow> bool" where
  "draws_ok r env \<longleftrightarrow>
     (\<forall>turn. \<exists>rnd. fst (env turn) = Inr rnd \<and> 0 \<le> rnd \<and> rnd < shares_sum (shares r))"

text \<open>
  Names for what the \<^verbatim>\<open>select\<close> does over the turns: every turn before \<open>k\<close>
  hands a builder over; turn \<open>k\<close> is the first at which a \<^verbatim>\<open>Done\<close> case fires; and
  the way \<^verbatim>\<open>Run\<close> is left by a \<^verbatim>\<open>Done\<close> case.
\<close>

definition sends_until :: "gen_env \<Rightarrow> nat \<Rightarrow> bool" where
  "sends_until env k \<longleftrightarrow> (\<forall>j < k. snd (env j) = SendBuilder)"

definition cancelled_at :: "gen_env \<Rightarrow> nat \<Rightarrow> bool" where
  "cancelled_at env k \<longleftrightarrow> sends_until env k \<and> snd (env k) \<noteq> SendBuilder"

definition exit_of :: "select_case \<Rightarrow> run_exit" where
  "exit_of c = (case c of CallerCtxDone \<Rightarrow> CallerCtxCancelled | _ \<Rightarrow> GenCtxCancelled)"

section \<open>NewWeightedRandomRequests (request/cache.go)\<close>

text \<open>
  The \<^verbatim>\<open>switch\<close> of the constructor: the first tag of the entry that is set, in
  the order of the cases, decides the builder. \<open>getPatchType\<close> is as above.
\<close>

definition builder_for ::
  "(string \<Rightarrow> string) \<Rightarrow> int \<Rightarrow> WeightedRequest \<Rightarrow> error + RESTRequestBuilder" where
  "builder_for getPatchType maxRetries r =
     (case StaleList r of
        Some src \<Rightarrow> Inr (ListBuilder (newRequestListBuilder src ''0'' maxRetries))
      | None \<Rightarrow>
     (case QuorumList r of
        Some src \<Rightarrow> Inr (ListBuilder (newRequestListBuilder src [] maxRetries))
      | None \<Rightarrow>
     (case WatchList r of
        Some src \<Rightarrow> Inr (WatchListBuilder (newRequestWatchListBuilder src maxRetries))
      | None \<Rightarrow>
     (case StaleGet r of
        Some src \<Rightarrow> Inr (GetBuilder (newRequestGetBuilder src ''0'' maxRetries))
      | None \<Rightarrow>
     (case QuorumGet r of
        Some src \<Rightarrow> Inr (GetBuilder (newRequestGetBuilder src [] maxRetries))
      | None \<Rightarrow>
     (case GetPodLog r of
        Some src \<Rightarrow> Inr (GetPodLogBuilder (newRequestGetPodLogBuilder src maxRetries))
      | None \<Rightarrow>
     (case Patch r of
        Some src \<Rightarrow> Inr (PatchBuilder (newRequestPatchBuilder getPatchType src [] maxRetries))
      | None \<Rightarrow>
     (case PostDel r of
        Some src \<Rightarrow> Inr (PostDelBuilder (newRequestPostDelBuilder src [] maxRetries))
      | None \<Rightarrow> Inl ''not implement for PUT yet''))))))))"

text \<open>The loop over \<^verbatim>\<open>spec.Requests\<close>, with the two slices built so far.\<close>

fun builders_loop ::
  "(string \<Rightarrow> string) \<Rightarrow> int \<Rightarrow> WeightedRequest list \<Rightarrow> int list \<Rightarrow> RESTRequestBuilder list \<Rightarrow>
     error + int list \<times> RESTRequestBuilder list" where
  "builders_loop getPatchType maxRetries [] shs builders = Inr (shs, builders)"
| "builders_loop getPatchType maxRetries (r # rs) shs builders =
     (let shs' = shs @ [Shares r]
      in case builder_for getPatchType maxRetries r of
           Inl err \<Rightarrow> Inl err
         | Inr builder \<Rightarrow> builders_loop getPatchType maxRetries rs shs' (builders @ [builder]))"

text \<open>
  \<open>Validate\<close> is the method \<^verbatim>\<open>LoadProfileSpec.Validate\<close>, which is not among the
  sources: \<open>None\<close> when it accepts the profile.
\<close>

definition NewWeightedRandomRequests ::
  "(LoadProfileSpec \<Rightarrow> error option) \<Rightarrow> (string \<Rightarrow> string) \<Rightarrow> LoadProfileSpec \<Rightarrow>
     error + RESTRequestBuilder WeightedRandomRequests" where
  "NewWeightedRandomRequests Validate getPatchType spec =
     (case Validate spec of
        Some err \<Rightarrow> Inl (''invalid load profile spec: '' @ err)
      | None \<Rightarrow>
          (case builders_loop getPatchType (MaxRetries spec) (Requests spec) [] [] of
             Inl err \<Rightarrow> Inl err
           | Inr (shs, builders) \<Rightarrow> Inr \<lparr>shares = shs, reqBuilders = builders\<rparr>))"

section \<open>Scheduler (request/cache.go: Schedule)\<close>

text \<open>
  The sink as \<^verbatim>\<open>Schedule\<close> uses it. \<^verbatim>\<open>Schedule\<close> takes the sink from
  \<^verbatim>\<open>metrics.NewResponseMetric()\<close>, calls \<^verbatim>\<open>ObserveLatency\<close>,
  \<^verbatim>\<open>ObserveReceivedBytes\<close> and \<^verbatim>\<open>ObserveFailure\<close> on it, and at the end binds four
  results of \<^verbatim>\<open>Gather\<close>. The interface \<^verbatim>\<open>ResponseMetric\<close> of metrics/request.go has
  no \<^verbatim>\<open>ObserveReceivedBytes\<close>, and the four results of its \<^verbatim>\<open>Gather\<close> are not those
  the names in \<^verbatim>\<open>Schedule\<close> suggest: the two files are not of one version. So
  \<^verbatim>\<open>Schedule\<close> is modelled over any implementation of the five methods it uses, with
  the types of the results of \<^verbatim>\<open>Gather\<close> left open; \<open>'s\<close> is the state of the sink.
\<close>

record ('s, 'a, 'b, 'c, 'd) ResponseMetric =
  rm_New :: 's
  rm_ObserveLatency :: "'s \<Rightarrow> real \<Rightarrow> 's"
  rm_ObserveFailure :: "'s \<Rightarrow> error \<Rightarrow> 's"
  rm_ObserveReceivedBytes :: "'s \<Rightarrow> int \<Rightarrow> 's"
  rm_Gather :: "'s \<Rightarrow> panic + 'a \<times> 'b \<times> 'c \<times> 'd"

text \<open>
  The sink of metrics/request.go as an implementation: its \<^verbatim>\<open>Gather\<close> on the
  registry it makes, and for \<^verbatim>\<open>ObserveReceivedBytes\<close>, which it does not have, an
  argument.
\<close>

definition source_sink ::
  "(real list \<Rightarrow> metric) \<Rightarrow> (responseMetricImpl \<Rightarrow> int \<Rightarrow> responseMetricImpl) \<Rightarrow>
     (responseMetricImpl, real \<rightharpoonup> real, int, error option, error list) ResponseMetric" where
  "source_sink summary observeReceivedBytes =
     \<lparr>rm_New = NewResponseMetric,
      rm_ObserveLatency = ObserveLatency,
      rm_ObserveFailure = ObserveFailure,
      rm_ObserveReceivedBytes = observeReceivedBytes,
      rm_Gather = (\<lambda>m. Gather m (local_registry summary))\<rparr>"

text \<open>
  A call on the sink, and the sink after a sequence of calls made one after the
  other on a new sink.
\<close>

datatype sink_call =
  CallObserveLatency real
  | CallObserveFailure error
  | CallObserveReceivedBytes int

fun rm_call :: "('s, 'a, 'b, 'c, 'd) ResponseMetric \<Rightarrow> 's \<Rightarrow> sink_call \<Rightarrow> 's" where
  "rm_call I s (CallObserveLatency seconds) = rm_ObserveLatency I s seconds"
| "rm_call I s (CallObserveFailure err) = rm_ObserveFailure I s err"
| "rm_call I s (CallObserveReceivedBytes n) = rm_ObserveReceivedBytes I s n"

definition rm_run :: "('s, 'a, 'b, 'c, 'd) ResponseMetric \<Rightarrow> sink_call list \<Rightarrow> 's" where
  "rm_run I calls = foldl (rm_call I) (rm_New I) calls"

text \<open>
  \<^verbatim>\<open>types.ResponseStats\<close>, with the fields \<^verbatim>\<open>Schedule\<close> fills in; the declaration is
  not among the sources. The duration is in nanoseconds. The three fields that
  \<^verbatim>\<open>Schedule\<close> fills from the results of \<^verbatim>\<open>Gather\<close> have the types of those
  results.
\<close>

record ('f, 'b, 'p) ResponseStats =
  rs_Total :: int
  rs_FailureList :: 'f
  rs_Duration :: int
  rs_TotalReceivedBytes :: 'b
  rs_PercentileLatencies :: 'p

text \<open>
  The workers are goroutines. The model runs them one hand-over at a time: the
  builder sent at a turn of \<^verbatim>\<open>Run\<close> is received by one worker (the channel has no
  buffer), and what that worker does with it, up to the next receive, is one step.
  \<^verbatim>\<open>wg.Wait()\<close> lets \<^verbatim>\<open>Gather\<close> start only when every such step is over, so the calls
  made on the sink are those of the program; the model takes them in the order of
  the hand-overs, one call at a time (calls of \<^verbatim>\<open>ObserveFailure\<close> that overlap are
  the subject of \<open>observe_run\<close>). For the hand-over of a turn, \<open>handoff\<close> gives the
  worker that receives, what \<^verbatim>\<open>Build\<close> takes from outside, the result of
  \<^verbatim>\<open>limiter.Wait(ctx)\<close>, the result of the request (the error of \<^verbatim>\<open>req.Stream\<close>, or
  the bytes and the error of \<^verbatim>\<open>io.Copy\<close>) and the seconds the request took. A worker
  that has returned receives nothing more: the model does not check that the
  hand-overs respect this, so it has every run of the program and more.
\<close>

record handoff =
  ho_worker :: nat
  ho_build :: build_env
  ho_wait :: "error option"
  ho_stream :: "error + int \<times> error option"
  ho_seconds :: real

record sched_env =
  se_gen :: gen_env
  se_handoff :: "nat \<Rightarrow> handoff"
  se_duration :: int

text \<open>
  The state the workers share: the builders the generator points at, the calls made
  on the sink so far, and whether a worker has called \<^verbatim>\<open>cancel()\<close>.
\<close>

record sched_state =
  ss_builders :: "RESTRequestBuilder list"
  ss_calls :: "sink_call list"
  ss_cancelled :: bool

text \<open>
  The inner function of the worker: the calls on the sink that the request leads to,
  in order. The deferred \<^verbatim>\<open>ObserveLatency\<close> runs last, on every path.
\<close>

definition worker_request :: "handoff \<Rightarrow> sink_call list" where
  "worker_request h =
     (case ho_stream h of
        Inl err \<Rightarrow> [CallObserveFailure err]
      | Inr (bytes, err) \<Rightarrow>
          CallObserveReceivedBytes bytes
            # (case err of None \<Rightarrow> [] | Some e \<Rightarrow> [CallObserveFailure e]))
     @ [CallObserveLatency (ho_seconds h)]"

text \<open>
  The body of the worker's loop for the builder at position \<open>builder\<close>, received at
  turn \<open>turn\<close>: \<^verbatim>\<open>Build\<close> against the worker's client, the wait on the limiter (on an
  error the worker cancels and returns, and the builder is dropped), the request.
  Worker \<open>i\<close> was started with the client \<^verbatim>\<open>restCli[i%len(restCli)]\<close>. Two branches
  are there so that the model reads no list out of range, and no run of the program
  takes them: without a client no worker was started, and a builder in the channel
  is one of the generator's.
\<close>

definition worker_handle ::
  "(string \<Rightarrow> (string \<rightharpoonup> string) \<Rightarrow> string) \<Rightarrow> nat list \<Rightarrow> sched_env \<Rightarrow> sched_state \<Rightarrow>
     nat \<times> nat \<Rightarrow> panic + sched_state" where
  "worker_handle rt restCli env st tb =
     (let (turn, builder) = tb;
          h = se_handoff env turn;
          cli = (if length restCli = 0 then 0
                 else restCli ! (ho_worker h mod length restCli))
      in if \<not> builder < length (ss_builders st) then Inl IndexOutOfRange
         else case Build rt (ss_builders st ! builder) cli (ho_build h) of
                Inl p \<Rightarrow> Inl p
              | Inr (requester, b') \<Rightarrow>
                  (let st1 = st\<lparr>ss_builders := (ss_builders st)[builder := b']\<rparr>
                   in case ho_wait h of
                        Some err \<Rightarrow> Inr (st1\<lparr>ss_cancelled := True\<rparr>)
                      | None \<Rightarrow> Inr (st1\<lparr>ss_calls := ss_calls st1 @ worker_request h\<rparr>)))"

fun run_handoffs ::
  "(string \<Rightarrow> (string \<rightharpoonup> string) \<Rightarrow> string) \<Rightarrow> nat list \<Rightarrow> sched_env \<Rightarrow> sched_state \<Rightarrow>
     (nat \<times> nat) list \<Rightarrow> panic + sched_state" where
  "run_handoffs rt restCli env st [] = Inr st"
| "run_handoffs rt restCli env st (tb # tbs) =
     (case worker_handle rt restCli env st tb of
        Inl p \<Rightarrow> Inl p
      | Inr st' \<Rightarrow> run_handoffs rt restCli env st' tbs)"

text \<open>
  \<^verbatim>\<open>Schedule\<close> up to \<^verbatim>\<open>wg.Wait()\<close>: the generator is built (its error is returned),
  the workers are started (\<^verbatim>\<open>i % len(restCli)\<close> panics on an empty slice), \<^verbatim>\<open>Run\<close>
  hands builders over until it returns, and the workers finish. The rate limiter is
  a library object: only the results of its \<^verbatim>\<open>Wait\<close> enter the model. A panic of a
  worker is reported once \<^verbatim>\<open>Run\<close> has returned. The result is \<open>None\<close> when \<^verbatim>\<open>Run\<close>
  never returns, and otherwise a panic, the error of the generator, or the state the
  workers leave, with the calls they made on the sink.
\<close>

definition Schedule_calls ::
  "(LoadProfileSpec \<Rightarrow> error option) \<Rightarrow> (string \<Rightarrow> string) \<Rightarrow>
   (string \<Rightarrow> (string \<rightharpoonup> string) \<Rightarrow> string) \<Rightarrow> sched_env \<Rightarrow> LoadProfileSpec \<Rightarrow> nat list \<Rightarrow>
     (panic + error + sched_state) option" where
  "Schedule_calls Validate getPatchType rt env spec restCli =
     (case NewWeightedRandomRequests Validate getPatchType spec of
        Inl err \<Rightarrow> Some (Inr (Inl err))
      | Inr rndReqs \<Rightarrow>
          if 0 < Client spec \<and> length restCli = 0 then Some (Inl DivideByZero)
          else
            (case Run rndReqs (se_gen env) (Total spec) of
               None \<Rightarrow> None
             | Some (Inl p) \<Rightarrow> Some (Inl p)
             | Some (Inr (exit, sent)) \<Rightarrow>
                 (case run_handoffs rt restCli env
                         \<lparr>ss_builders = reqBuilders rndReqs, ss_calls = [],
                          ss_cancelled = False\<rparr>
                         (zip [0 ..< length sent] sent) of
                    Inl p \<Rightarrow> Some (Inl p)
                  | Inr st \<Rightarrow> Some (Inr (Inr st)))))"

text \<open>
  The end of \<^verbatim>\<open>Schedule\<close>, from \<^verbatim>\<open>respMetric.Gather()\<close> on, for the sink that has
  received \<open>calls\<close>. The four results of \<^verbatim>\<open>Gather\<close> are bound by position, as
  \<^verbatim>\<open>_, percentileLatencies, failureList, bytes\<close>, and the last three go into the
  stats under those names. The second component of the result is the error
  \<^verbatim>\<open>Schedule\<close> returns there: the literal \<^verbatim>\<open>nil\<close>.
\<close>

definition Schedule_tail ::
  "('s, 'a, 'b, 'c, 'd) ResponseMetric \<Rightarrow> sched_env \<Rightarrow> LoadProfileSpec \<Rightarrow> sink_call list \<Rightarrow>
     panic + ('c, 'd, 'b) ResponseStats option \<times> error option" where
  "Schedule_tail respMetric env spec calls =
     (case rm_Gather respMetric (rm_run respMetric calls) of
        Inl p \<Rightarrow> Inl p
      | Inr results \<Rightarrow>
          (let (uu, percentileLatencies, failureList, bytes) = results
           in Inr (Some \<lparr>rs_Total = Total spec,
                          rs_FailureList = failureList,
                          rs_Duration = se_duration env,
                          rs_TotalReceivedBytes = bytes,
                          rs_PercentileLatencies = percentileLatencies\<rparr>,
                   None)))"

text \<open>
  \<^verbatim>\<open>Schedule\<close>. The results are the two results of the Go function, the stats
  (\<open>None\<close> for \<^verbatim>\<open>nil\<close>) and the error; \<open>Inl\<close> is a panic, and the whole is \<open>None\<close>
  when \<^verbatim>\<open>Run\<close> never returns.
\<close>

definition Schedule ::
  "('s, 'a, 'b, 'c, 'd) ResponseMetric \<Rightarrow>
   (LoadProfileSpec \<Rightarrow> error option) \<Rightarrow> (string \<Rightarrow> string) \<Rightarrow>
   (string \<Rightarrow> (string \<rightharpoonup> string) \<Rightarrow> string) \<Rightarrow> sched_env \<Rightarrow> LoadProfileSpec \<Rightarrow> nat list \<Rightarrow>
     (panic + ('c, 'd, 'b) ResponseStats option \<times> error option) option" where
  "Schedule respMetric Validate getPatchType rt env spec restCli =
     (case Schedule_calls Validate getPatchType rt env spec restCli of
        None \<Rightarrow> None
      | Some (Inl p) \<Rightarrow> Some (Inl p)
      | Some (Inr (Inl err)) \<Rightarrow> Some (Inr (None, Some err))
      | Some (Inr (Inr st)) \<Rightarrow> Some (Schedule_tail respMetric env spec (ss_calls st)))"

text \<open>
  Conditions under which no worker panics: a patch builder has a positive key space
  (validation demands it), the random source answers every \<^verbatim>\<open>Build\<close>, and there is
  a client to bind the workers to.
\<close>

fun builder_ok :: "RESTRequestBuilder \<Rightarrow> bool" where
  "builder_ok (PatchBuilder b) = (0 < pb_keySpaceSize b)"
| "builder_ok _ = True"

definition builds_ok :: "sched_env \<Rightarrow> bool" where
  "builds_ok env \<longleftrightarrow> (\<forall>turn. \<exists>k. be_randomInt (ho_build (se_handoff env turn)) = Inr k)"

text \<open>The turns before \<open>k\<close> whose builder got its token, so that its request ran.\<close>

definition ran_requests :: "sched_env \<Rightarrow> nat \<Rightarrow> nat list" where
  "ran_requests env k = filter (\<lambda>turn. ho_wait (se_handoff env turn) = None) [0 ..< k]"

text \<open>The observations among the calls made on a sink: the calls of \<^verbatim>\<open>ObserveLatency\<close>.\<close>

fun is_observation :: "sink_call \<Rightarrow> bool" where
  "is_observation (CallObserveLatency seconds) = True"
| "is_observation _ = False"

definition observations :: "sink_call list \<Rightarrow> sink_call list" where
  "observations calls = filter is_observation calls"

section \<open>An example profile\<close>

text \<open>Concrete values, used to run the definitions above on an input.\<close>

definition example_list :: RequestList where
  "example_list =
     \<lparr>list_Group = [], list_Version = ''v1'', list_Resource = ''pods'',
      list_Namespace = ''default'', list_Limit = 100, list_Selector = [],
      list_FieldSelector = []\<rparr>"

definition example_get :: RequestGet where
  "example_get =
     \<lparr>get_Group = ''apps'', get_Version = ''v1'', get_Resource = ''deployments'',
      get_Namespace = ''default'', get_Name = ''web''\<rparr>"

definition example_watch :: RequestWatchList where
  "example_watch =
     \<lparr>watch_Group = [], watch_Version = ''v1'', watch_Resource = ''pods'',
      watch_Namespace = [], watch_Selector = ''app=web'', watch_FieldSelector = []\<rparr>"

definition example_postdel :: RequestPostDel where
  "example_postdel =
     \<lparr>postdel_Group = [], postdel_Version = ''v1'', postdel_Resource = ''pods'',
      postdel_Namespace = ''default'', postdel_DeleteRatio = 1 / 2\<rparr>"

definition example_request :: WeightedRequest where
  "example_request =
     \<lparr>Shares = 1, StaleList = None, QuorumList = None, WatchList = None, StaleGet = None,
      QuorumGet = None, GetPodLog = None, Patch = None, PostDel = None\<rparr>"

definition example_spec :: LoadProfileSpec where
  "example_spec =
     \<lparr>Rate = 0, Total = 3, Client = 2, MaxRetries = 3,
      Requests =
        [example_request\<lparr>StaleList := Some example_list\<rparr>,
         example_request\<lparr>QuorumList := Some example_list\<rparr>,
         example_request\<lparr>WatchList := Some example_watch\<rparr>,
         example_request\<lparr>StaleGet := Some example_get\<rparr>,
         example_request\<lparr>QuorumGet := Some example_get\<rparr>]\<rparr>"

definition example_render :: "string \<Rightarrow> (string \<rightharpoonup> string) \<Rightarrow> string" where
  "example_render kind params =
     kind @ '':'' @ (case params ''namePattern'' of None \<Rightarrow> [] | Some n \<Rightarrow> n)"

definition example_build_env :: build_env where
  "example_build_env = \<lparr>be_randomInt = Inr 250, be_unixNano = 1700\<rparr>"

text \<open>
  Four runs on the example profile: one in which every turn hands a builder over
  and every wait on the limiter succeeds; one in which the wait of turn 1 fails and
  the \<^verbatim>\<open>select\<close> of turn 2 finds the caller's context done; and two for a caller's
  context that is done from the start. In the first of these the first \<^verbatim>\<open>select\<close>
  hands a builder over, the wait on the limiter fails, and the second \<^verbatim>\<open>select\<close>
  finds the context done; in the second the first \<^verbatim>\<open>select\<close> finds it done.
\<close>

definition example_handoff :: "nat \<Rightarrow> handoff" where
  "example_handoff turn =
     \<lparr>ho_worker = turn mod 2, ho_build = example_build_env, ho_wait = None,
      ho_stream = (if turn = 1 then Inl ''connection refused'' else Inr (1024, None)),
      ho_seconds = 1 / 100\<rparr>"

definition example_sched_env :: sched_env where
  "example_sched_env =
     \<lparr>se_gen = (\<lambda>turn. (Inr 2, SendBuilder)),
      se_handoff = example_handoff,
      se_duration = 30\<rparr>"

definition example_cancel_env :: sched_env where
  "example_cancel_env =
     \<lparr>se_gen = (\<lambda>turn. (Inr 2, if turn = 2 then CallerCtxDone else SendBuilder)),
      se_handoff = (\<lambda>turn. if turn = 1
                      then (example_handoff turn)\<lparr>ho_wait := Some ''context canceled''\<rparr>
                      else example_handoff turn),
      se_duration = 30\<rparr>"

definition example_cancelled_env :: sched_env where
  "example_cancelled_env =
     \<lparr>se_gen = (\<lambda>turn. (Inr 2, if turn = 0 then SendBuilder else CallerCtxDone)),
      se_handoff = (\<lambda>turn. (example_handoff turn)\<lparr>ho_wait := Some ''context canceled''\<rparr>),
      se_duration = 30\<rparr>"

definition example_done_env :: sched_env where
  "example_done_env =
     \<lparr>se_gen = (\<lambda>turn. (Inr 2, CallerCtxDone)),
      se_handoff = (\<lambda>turn. (example_handoff turn)\<lparr>ho_wait := Some ''context canceled''\<rparr>),
      se_duration = 30\<rparr>"

text \<open>
  A quantile estimator that gives the largest sample only, and the sink of
  metrics/request.go with an \<^verbatim>\<open>ObserveReceivedBytes\<close> that leaves it as it is.
\<close>

definition example_summary :: "real list \<Rightarrow> metric" where
  "example_summary samples = [(1, foldl max 0 samples)]"

definition example_sink ::
  "(responseMetricImpl, real \<rightharpoonup> real, int, error option, error list) ResponseMetric" where
  "example_sink = source_sink example_summary (\<lambda>m n. m)"

text \<open>
  A sink whose \<^verbatim>\<open>Gather\<close> is that of metrics/request.go on a registry that fails.
  The registry that \<^verbatim>\<open>Gather\<close> makes does not fail; the sink is here to run
  \<^verbatim>\<open>Schedule\<close> on a \<^verbatim>\<open>Gather\<close> that returns an error.
\<close>

definition example_failing_sink ::
  "(responseMetricImpl, real \<rightharpoonup> real, int, error option, error list) ResponseMetric" where
  "example_failing_sink =
     example_sink\<lparr>rm_Gather := (\<lambda>m. Gather m (\<lambda>samples. Inl ''collect''))\<rparr>"

section \<open>Properties of the name cache\<close>

lemma Pop_empty: "Pop [] = (([], False), [])"
  by (simp add: Pop_def)

lemma Pop_Cons: "Pop (x # xs) = ((x, True), xs)"
  by (simp add: Pop_def)

lemma push_all_append: "push_all c ns = c @ ns"
  by (induction ns arbitrary: c) (simp_all add: Push_def)

lemma pop_many_take:
  "k \<le> length c \<Longrightarrow> pop_many k c = (map (\<lambda>n. (n, True)) (take k c), drop k c)"
proof (induction k arbitrary: c)
  case 0
  then show ?case by simp
next
  case (Suc k)
  then obtain x xs where c: "c = x # xs" by (cases c) auto
  with Suc.prems have "k \<le> length xs" by simp
  from Suc.IH [OF this] show ?case by (simp add: c Pop_Cons)
qed

text \<open>
  C7. \<^verbatim>\<open>Push\<close> appends at the tail; \<^verbatim>\<open>Pop\<close> takes from the head; \<^verbatim>\<open>Pop\<close> answers
  \<open>ok = False\<close> exactly on the empty cache and then leaves it as it was; a non-empty
  cache loses exactly its head; after \<^verbatim>\<open>Push(a)\<close>, \<^verbatim>\<open>Push(b)\<close> on a new cache
  \<^verbatim>\<open>Pop\<close> returns \<open>a\<close>; and in general popping after any run of pushes on a new
  cache returns the names in the order they were pushed.
\<close>

theorem C7_cache_fifo:
  "Push c n = c @ [n]
   \<and> Len (Push c n) = Len c + 1
   \<and> (snd (fst (Pop c)) = False \<longleftrightarrow> Len c = 0)
   \<and> (Len c = 0 \<longrightarrow> Pop c = (([], False), c))
   \<and> (Len c \<noteq> 0 \<longrightarrow> Pop c = ((hd c, True), tl c))
   \<and> Pop (Push (Push InitCache a) b) = ((a, True), [b])
   \<and> (k \<le> length ns \<longrightarrow>
        fst (pop_many k (push_all InitCache ns)) = map (\<lambda>n. (n, True)) (take k ns))"
proof -
  have 1: "snd (fst (Pop c)) = False \<longleftrightarrow> Len c = 0"
    by (cases c) (simp_all add: Pop_def Len_def)
  have 2: "Len c = 0 \<longrightarrow> Pop c = (([], False), c)"
    by (simp add: Pop_def Len_def)
  have 3: "Len c \<noteq> 0 \<longrightarrow> Pop c = ((hd c, True), tl c)"
    by (cases c) (simp_all add: Pop_def Len_def)
  have 4: "Pop (Push (Push InitCache a) b) = ((a, True), [b])"
    by (simp add: Pop_def Push_def InitCache_def)
  have 5: "k \<le> length ns \<longrightarrow>
        fst (pop_many k (push_all InitCache ns)) = map (\<lambda>n. (n, True)) (take k ns)"
    by (simp add: push_all_append InitCache_def pop_many_take)
  show ?thesis
    using 1 2 3 4 5 by (simp add: Push_def Len_def)
qed

theorem C7_cache_fifo_witness:
  "Push [''x''] ''y'' = [''x'', ''y'']
   \<and> Pop InitCache = (([], False), InitCache)
   \<and> Pop [''x'', ''y''] = ((''x'', True), [''y''])
   \<and> Pop (Push (Push InitCache ''a'') ''b'') = ((''a'', True), [''b''])
   \<and> fst (pop_many 2 (push_all InitCache [''p'', ''q'', ''r''])) = [(''p'', True), (''q'', True)]"
proof -
  have e: "Len InitCache = 0" by (simp add: Len_def InitCache_def)
  have n: "Len [''x'', ''y''] \<noteq> 0" by (simp add: Len_def)
  have k: "(2::nat) \<le> length [''p'', ''q'', ''r'']" by simp
  note t1 = C7_cache_fifo [of "[''x'']" "''y''" "''a''" "''b''" 2 "[''p'', ''q'', ''r'']"]
  note t2 = C7_cache_fifo [of InitCache "''y''" "''a''" "''b''" 2 "[''p'', ''q'', ''r'']"]
  note t3 = C7_cache_fifo [of "[''x'', ''y'']" "''y''" "''a''" "''b''" 2 "[''p'', ''q'', ''r'']"]
  have a: "Push [''x''] ''y'' = [''x'', ''y'']" using t1 by simp
  have b: "Pop InitCache = (([], False), InitCache)" using t2 e by blast
  have c: "Pop [''x'', ''y''] = ((''x'', True), [''y''])" using t3 n by simp
  have d: "Pop (Push (Push InitCache ''a'') ''b'') = ((''a'', True), [''b''])" using t1 by blast
  have f: "fst (pop_many 2 (push_all InitCache [''p'', ''q'', ''r''])) = [(''p'', True), (''q'', True)]"
    using t1 k by (simp add: numeral_2_eq_2)
  show ?thesis using a b c d f by blast
qed


section \<open>Properties of the response metric sink\<close>

lemma ObserveFailure_fields:
  "failureList (ObserveFailure m e) = failureList m @ [e]"
  "failureCount (ObserveFailure m e) = failureCount m + 1"
  "latencySeconds (ObserveFailure m e) = latencySeconds m"
  by (simp_all add: ObserveFailure_def Let_def)

lemma ObserveLatency_fields:
  "failureList (ObserveLatency m s) = failureList m"
  "failureCount (ObserveLatency m s) = failureCount m"
  "latencySeconds (ObserveLatency m s) = latencySeconds m @ [s]"
  by (simp_all add: ObserveLatency_def)

text \<open>The three steps of one call, taken without another call in between, are the method.\<close>

lemma observe_alone:
  "observe_concurrently m [err] [0, 0, 0] = (ObserveFailure m err, [Returned])"
  by (simp add: observe_concurrently_def ObserveFailure_def Let_def)

text \<open>Calls made one after the other keep the count equal to the length of the list.\<close>

lemma ObserveFailure_count:
  "failureCount m = of_nat (length (failureList m)) \<Longrightarrow>
   failureCount (foldl ObserveFailure m errs)
     = of_nat (length (failureList (foldl ObserveFailure m errs)))"
  by (induction errs arbitrary: m) (simp_all add: ObserveFailure_fields)

lemma sint_of_nat_small:
  "n < 2 ^ 63 \<Longrightarrow> sint (of_nat n :: 64 word) = int n"
  by (simp add: signed_of_nat signed_take_bit_int_eq_self)

lemma Gather_ok_count:
  assumes "Gather m reg = Inr (lat, n, None, fl)"
  shows "n = sint (failureCount m) \<and> fl = failureList m"
  using assms
  by (auto simp: Gather_def Let_def split: sum.splits list.splits)

lemma Gather_err_count:
  assumes "reg (latencySeconds m) = Inl e"
  shows "Gather m reg =
           Inr (Map.empty, 0, Some (''failed to gather from local registry: '' @ e), failureList m)"
  using assms by (simp add: Gather_def)

text \<open>
  \<^verbatim>\<open>Gather\<close> on the registry it makes: it panics when the sink has no latency
  sample, and otherwise returns the count and the list, never an error.
\<close>

lemma Gather_local_empty:
  "latencySeconds m = [] \<Longrightarrow> Gather m (local_registry summary) = Inl IndexOutOfRange"
  by (simp add: Gather_def local_registry_def)

lemma Gather_local_samples:
  "latencySeconds m \<noteq> [] \<Longrightarrow>
   Gather m (local_registry summary) =
     Inr (foldl (\<lambda>latencies (q, v). latencies(q \<mapsto> v)) Map.empty (summary (latencySeconds m)),
          sint (failureCount m), None, failureList m)"
  by (simp add: Gather_def local_registry_def)

text \<open>
  C10. The count and the list of the sink do not stay in step. Two workers whose
  requests fail call \<^verbatim>\<open>ObserveFailure\<close> on the new sink at the same time, with the
  errors \<open>e1\<close> and \<open>e2\<close>. When each reads the slice before the other has stored its
  own, the second store overwrites the first: the sink ends with the count 2 and a
  list of the one error \<open>e2\<close>, and \<^verbatim>\<open>Gather\<close>, after a latency observation, returns
  the count 2 next to a list of length 1. (When one call ends before the other
  starts, the list has both errors.) And \<^verbatim>\<open>Gather\<close> on a sink that has received
  a failure and no latency returns no count at all: it panics on
  \<^verbatim>\<open>metricFamilies[0]\<close>.
\<close>

theorem C10_failure_count_diverges:
  "observe_concurrently NewResponseMetric [''e1'', ''e2''] [0, 1, 0, 1, 0, 1]
     = (\<lparr>latencySeconds = [], failureCount = 2, failureList = [''e2'']\<rparr>, [Returned, Returned])
   \<and> observe_concurrently NewResponseMetric [''e1'', ''e2''] [0, 0, 0, 1, 1, 1]
     = (\<lparr>latencySeconds = [], failureCount = 2, failureList = [''e1'', ''e2'']\<rparr>,
        [Returned, Returned])
   \<and> (\<exists>latencies.
        Gather (ObserveLatency
                  (fst (observe_concurrently NewResponseMetric [''e1'', ''e2''] [0, 1, 0, 1, 0, 1]))
                  (1 / 100))
               (local_registry summary)
          = Inr (latencies, 2, None, [''e2'']))
   \<and> Gather (ObserveFailure NewResponseMetric ''e1'') (local_registry summary)
       = Inl IndexOutOfRange"
proof -
  have a: "observe_concurrently NewResponseMetric [''e1'', ''e2''] [0, 1, 0, 1, 0, 1]
     = (\<lparr>latencySeconds = [], failureCount = 2, failureList = [''e2'']\<rparr>, [Returned, Returned])"
    by (simp add: observe_concurrently_def NewResponseMetric_def numeral_2_eq_2)
  have b: "observe_concurrently NewResponseMetric [''e1'', ''e2''] [0, 0, 0, 1, 1, 1]
     = (\<lparr>latencySeconds = [], failureCount = 2, failureList = [''e1'', ''e2'']\<rparr>,
        [Returned, Returned])"
    by (simp add: observe_concurrently_def NewResponseMetric_def numeral_2_eq_2)
  have c: "\<exists>latencies.
        Gather (ObserveLatency
                  (fst (observe_concurrently NewResponseMetric [''e1'', ''e2''] [0, 1, 0, 1, 0, 1]))
                  (1 / 100))
               (local_registry summary)
          = Inr (latencies, 2, None, [''e2''])"
    by (simp only: a fst_conv) (simp add: Gather_local_samples ObserveLatency_def)
  have d: "Gather (ObserveFailure NewResponseMetric ''e1'') (local_registry summary)
       = Inl IndexOutOfRange"
    by (simp add: Gather_local_empty ObserveFailure_def NewResponseMetric_def)
  from a b c d show ?thesis by blast
qed

section \<open>Properties of the weighted random generator\<close>

lemma wrap64_id: "- (2 ^ 63) \<le> x \<Longrightarrow> x < 2 ^ 63 \<Longrightarrow> wrap64 x = x"
proof -
  assume a: "- (2 ^ 63) \<le> x" "x < 2 ^ 63"
  have "(x + 2 ^ 63) mod 2 ^ 64 = x + 2 ^ 63"
    using a by (intro mod_pos_pos_trivial) auto
  then show ?thesis unfolding wrap64_def by linarith
qed

lemma wrap64_wrap64_add: "wrap64 (wrap64 x + y) = wrap64 (x + y)"
proof -
  have "(wrap64 x + y + 2 ^ 63) mod 2 ^ 64 = (((x + 2 ^ 63) mod 2 ^ 64) + y) mod 2 ^ 64"
    unfolding wrap64_def by (rule arg_cong [where f = "\<lambda>z. z mod 2 ^ 64"]) linarith
  also have "\<dots> = ((x + 2 ^ 63) + y) mod 2 ^ 64"
    by (rule mod_add_left_eq)
  also have "\<dots> = (x + y + 2 ^ 63) mod 2 ^ 64"
    by (rule arg_cong [where f = "\<lambda>z. z mod 2 ^ 64"]) linarith
  finally show ?thesis unfolding wrap64_def by linarith
qed

lemma foldl_wrap64: "foldl (\<lambda>sum s. wrap64 (sum + s)) (wrap64 a) ss = wrap64 (a + sum_list ss)"
proof (induction ss arbitrary: a)
  case Nil
  then show ?case by simp
next
  case (Cons s ss)
  have "foldl (\<lambda>sum s. wrap64 (sum + s)) (wrap64 a) (s # ss)
      = foldl (\<lambda>sum s. wrap64 (sum + s)) (wrap64 (a + s)) ss"
    by (simp add: wrap64_wrap64_add)
  also have "\<dots> = wrap64 (a + s + sum_list ss)" by (rule Cons.IH)
  finally show ?case by (simp add: add.assoc)
qed

lemma shares_sum_wrap: "shares_sum ss = wrap64 (sum_list ss)"
proof -
  have "wrap64 0 = 0" by (rule wrap64_id) simp_all
  then show ?thesis
    unfolding shares_sum_def using foldl_wrap64 [of 0 ss] by simp
qed

lemma wrap64_le: "0 \<le> x \<Longrightarrow> wrap64 x \<le> x"
proof -
  assume "0 \<le> x"
  then have "(x + 2 ^ 63) mod 2 ^ 64 \<le> x + 2 ^ 63"
    by (intro zmod_le_nonneg_dividend) simp
  then show ?thesis unfolding wrap64_def by linarith
qed

lemma wrap64_lt: "wrap64 x < 2 ^ 63"
proof -
  have "(x + 2 ^ 63) mod 2 ^ 64 < (2 ^ 64 :: int)"
    by (rule pos_mod_bound) simp
  moreover have "(2::int) ^ 64 = 2 * 2 ^ 63" by simp
  ultimately show ?thesis unfolding wrap64_def by linarith
qed

lemma sum_list_nonneg_int: "\<forall>s \<in> set ss. (0::int) \<le> s \<Longrightarrow> 0 \<le> sum_list ss"
  by (induction ss) auto

lemma sum_list_take_mono:
  "\<forall>s \<in> set ss. (0::int) \<le> s \<Longrightarrow> a \<le> b \<Longrightarrow> sum_list (take a ss) \<le> sum_list (take b ss)"
proof (induction ss arbitrary: a b)
  case Nil
  then show ?case by simp
next
  case (Cons s ss)
  show ?case
  proof (cases a)
    case 0
    have "\<forall>x \<in> set (take b (s # ss)). 0 \<le> x"
      using Cons.prems(1) by (meson in_set_takeD)
    then show ?thesis using 0 by (simp add: sum_list_nonneg_int)
  next
    case (Suc a')
    then obtain b' where b: "b = Suc b'" using Cons.prems(2) by (cases b) auto
    with Suc Cons.prems have "sum_list (take a' ss) \<le> sum_list (take b' ss)"
      by (intro Cons.IH) auto
    then show ?thesis by (simp add: Suc b)
  qed
qed

lemma pick_loop_spec:
  "\<forall>s \<in> set ss. 0 \<le> s \<Longrightarrow> 0 \<le> rnd \<Longrightarrow> rnd < 2 ^ 63 \<Longrightarrow> rnd < sum_list ss \<Longrightarrow>
   i + length ss \<le> n \<Longrightarrow>
   \<exists>k < length ss. pick_loop ss n i rnd = Inr (i + k)
       \<and> sum_list (take k ss) \<le> rnd \<and> rnd < sum_list (take (Suc k) ss)"
proof (induction ss arbitrary: i rnd)
  case Nil
  then show ?case by simp
next
  case (Cons s ss)
  show ?case
  proof (cases "rnd < s")
    case True
    with Cons.prems show ?thesis by (intro exI [of _ 0]) simp
  next
    case False
    then have w: "wrap64 (rnd - s) = rnd - s"
      using Cons.prems by (intro wrap64_id) auto
    have "\<exists>k < length ss. pick_loop ss n (Suc i) (rnd - s) = Inr (Suc i + k)
       \<and> sum_list (take k ss) \<le> rnd - s \<and> rnd - s < sum_list (take (Suc k) ss)"
      using Cons.prems False by (intro Cons.IH) auto
    then obtain k where k: "k < length ss" "pick_loop ss n (Suc i) (rnd - s) = Inr (Suc i + k)"
      "sum_list (take k ss) \<le> rnd - s" "rnd - s < sum_list (take (Suc k) ss)"
      by blast
    show ?thesis
      using k False w by (intro exI [of _ "Suc k"]) simp
  qed
qed

lemma prefix_index_unique:
  assumes nn: "\<forall>s \<in> set ss. (0::int) \<le> s"
    and i: "sum_list (take i ss) \<le> r" "r < sum_list (take (Suc i) ss)"
    and j: "sum_list (take j ss) \<le> r" "r < sum_list (take (Suc j) ss)"
  shows "j = i"
proof (rule ccontr)
  assume "j \<noteq> i"
  then consider "Suc j \<le> i" | "Suc i \<le> j" by linarith
  then show False
  proof cases
    case 1
    from sum_list_take_mono [OF nn 1] i j show False by linarith
  next
    case 2
    from sum_list_take_mono [OF nn 2] i j show False by linarith
  qed
qed

lemma randomPick_spec:
  assumes ok: "generator_ok r"
    and rnd: "0 \<le> rnd" "rnd < shares_sum (shares r)"
  shows "\<exists>i < length (shares r). randomPick r (Inr rnd) = Inr i
           \<and> sum_list (take i (shares r)) \<le> rnd \<and> rnd < sum_list (take (Suc i) (shares r))"
proof -
  let ?ss = "shares r"
  have nn: "\<forall>s \<in> set ?ss. 0 \<le> s" using ok by (simp add: generator_ok_def)
  have pos: "0 < shares_sum ?ss" using ok by (simp add: generator_ok_def)
  have len: "0 + length ?ss \<le> length (reqBuilders r)" using ok by (simp add: generator_ok_def)
  have "shares_sum ?ss \<le> sum_list ?ss"
    using wrap64_le [OF sum_list_nonneg_int [OF nn]] by (simp add: shares_sum_wrap)
  then have lt: "rnd < sum_list ?ss" using rnd by linarith
  have small: "rnd < 2 ^ 63"
    using rnd wrap64_lt [of "sum_list ?ss"] by (simp add: shares_sum_wrap)
  from pick_loop_spec [OF nn rnd(1) small lt len]
  show ?thesis using pos by (simp add: randomPick_def Let_def)
qed

text \<open>
  C5. For a generator whose shares are non-negative Go integers with a positive sum
  \<open>S\<close>, and a drawn number \<open>rnd\<close> in \<open>[0, S)\<close>, \<^verbatim>\<open>randomPick\<close> returns the builder
  at position \<open>i\<close>, where \<open>i\<close> is the one position with
  \<open>sum(shares[0..i]) \<le> rnd < sum(shares[0..i+1])\<close>; it does not panic, so the
  \<^verbatim>\<open>unreachable\<close> branch is not taken. \<open>S\<close> is the sum of the shares whenever that
  sum fits a Go \<^verbatim>\<open>int\<close>.
\<close>

theorem C5_weighted_selection:
  assumes "generator_ok r" and "0 \<le> rnd" and "rnd < shares_sum (shares r)"
  shows "(sum_list (shares r) < 2 ^ 63 \<longrightarrow> shares_sum (shares r) = sum_list (shares r))
    \<and> (\<exists>i < length (shares r).
          randomPick r (Inr rnd) = Inr i
          \<and> sum_list (take i (shares r)) \<le> rnd \<and> rnd < sum_list (take (Suc i) (shares r))
          \<and> (\<forall>j < length (shares r).
                sum_list (take j (shares r)) \<le> rnd \<and> rnd < sum_list (take (Suc j) (shares r))
                \<longrightarrow> j = i))"
proof -
  let ?ss = "shares r"
  have nn: "\<forall>s \<in> set ?ss. 0 \<le> s" using assms(1) by (simp add: generator_ok_def)
  have "0 \<le> sum_list ?ss" by (rule sum_list_nonneg_int [OF nn])
  then have S: "sum_list ?ss < 2 ^ 63 \<longrightarrow> shares_sum ?ss = sum_list ?ss"
    by (auto simp: shares_sum_wrap intro!: wrap64_id)
  from randomPick_spec [OF assms]
  obtain i where i: "i < length ?ss" "randomPick r (Inr rnd) = Inr i"
    "sum_list (take i ?ss) \<le> rnd" "rnd < sum_list (take (Suc i) ?ss)"
    by blast
  have "\<forall>j < length ?ss.
          sum_list (take j ?ss) \<le> rnd \<and> rnd < sum_list (take (Suc j) ?ss) \<longrightarrow> j = i"
    using prefix_index_unique [OF nn i(3) i(4)] by blast
  with S i show ?thesis by blast
qed

theorem C5_weighted_selection_witness:
  "generator_ok \<lparr>shares = [2, 3], reqBuilders = [''list'', ''get'']\<rparr>
   \<and> shares_sum [2, 3] = 5
   \<and> randomPick \<lparr>shares = [2, 3], reqBuilders = [''list'', ''get'']\<rparr> (Inr 3) = Inr 1
   \<and> sum_list (take 1 [2, 3 :: int]) \<le> 3 \<and> (3 :: int) < sum_list (take 2 [2, 3])"
proof -
  let ?r = "\<lparr>shares = [2, 3], reqBuilders = [''list'', ''get'']\<rparr>"
  have w2: "wrap64 2 = 2" and w5: "wrap64 5 = 5" and w1: "wrap64 1 = 1"
    by (rule wrap64_id; simp)+
  have sum: "shares_sum [2, 3] = 5"
    by (simp add: shares_sum_def w2 w5)
  have ok: "generator_ok ?r"
    by (simp add: generator_ok_def sum)
  have lo: "(0::int) \<le> 3" by simp
  have hi: "3 < shares_sum (shares ?r)" by (simp add: sum)
  from C5_weighted_selection [OF ok lo hi]
  obtain i where i: "i < length (shares ?r)" "randomPick ?r (Inr 3) = Inr i"
    "sum_list (take i (shares ?r)) \<le> 3" "3 < sum_list (take (Suc i) (shares ?r))"
    by blast
  have "randomPick ?r (Inr 3) = Inr 1"
    by (simp add: randomPick_def sum w1)
  with i have "i = 1" by simp
  with i ok sum show ?thesis by (simp add: numeral_2_eq_2)
qed

lemma pick_ok:
  assumes "generator_ok r" "draws_ok r env"
  shows "\<exists>b. randomPick r (fst (env t)) = Inr b \<and> b < length (reqBuilders r)"
proof -
  from assms(2) obtain rnd where rnd: "fst (env t) = Inr rnd" "0 \<le> rnd"
    "rnd < shares_sum (shares r)"
    unfolding draws_ok_def by blast
  from randomPick_spec [OF assms(1) rnd(2) rnd(3)] assms(1) show ?thesis
    by (auto simp: rnd(1) generator_ok_def)
qed

lemma Run_loop_cancel:
  assumes ok: "generator_ok r" "draws_ok r env"
  shows "tot \<le> 0 \<or> (tot < 2 ^ 63 \<and> sm = int t \<and> int (t + k) < tot) \<Longrightarrow>
    \<forall>j < k. snd (env (t + j)) = SendBuilder \<Longrightarrow>
    snd (env (t + k)) \<noteq> SendBuilder \<Longrightarrow>
    \<exists>bs. length bs = k \<and> (\<forall>b \<in> set bs. b < length (reqBuilders r))
       \<and> Run_loop r env tot sm t sent = Some (Inr (exit_of (snd (env (t + k))), sent @ bs))"
proof (induction k arbitrary: t sm sent)
  case 0
  from pick_ok [OF ok] obtain b where b: "randomPick r (fst (env t)) = Inr b"
    and bl: "b < length (reqBuilders r)" by blast
  have guard: "\<not> (tot > 0 \<and> sm \<ge> tot)" using 0(1) by auto
  from 0(3) have "snd (env t) \<noteq> SendBuilder" by simp
  then show ?case
    by (subst Run_loop.simps) (cases "snd (env t)"; simp add: guard b exit_of_def)
next
  case (Suc k)
  from pick_ok [OF ok] obtain b where b: "randomPick r (fst (env t)) = Inr b"
    and bl: "b < length (reqBuilders r)" by blast
  have guard: "\<not> (tot > 0 \<and> sm \<ge> tot)" using Suc.prems(1) by auto
  have send: "snd (env t) = SendBuilder" using Suc.prems(2) [rule_format, of 0] by simp
  have c1: "tot \<le> 0 \<or> (tot < 2 ^ 63 \<and> wrap64 (sm + 1) = int (Suc t) \<and> int (Suc t + k) < tot)"
  proof (cases "tot \<le> 0")
    case True
    then show ?thesis by simp
  next
    case False
    with Suc.prems(1) have h: "tot < 2 ^ 63" "sm = int t" "int (t + Suc k) < tot" by auto
    then have "wrap64 (sm + 1) = sm + 1" by (intro wrap64_id) auto
    with h show ?thesis by simp
  qed
  have c2: "\<forall>j < k. snd (env (Suc t + j)) = SendBuilder"
    using Suc.prems(2) by (metis add_Suc_shift Suc_less_eq)
  have c3: "snd (env (Suc t + k)) \<noteq> SendBuilder" using Suc.prems(3) by simp
  from Suc.IH [OF c1 c2 c3, of "sent @ [b]"]
  obtain bs where bs: "length bs = k" "\<forall>b \<in> set bs. b < length (reqBuilders r)"
    "Run_loop r env tot (wrap64 (sm + 1)) (Suc t) (sent @ [b])
       = Some (Inr (exit_of (snd (env (Suc t + k))), (sent @ [b]) @ bs))"
    by blast
  have "Run_loop r env tot sm t sent
       = Run_loop r env tot (wrap64 (sm + 1)) (Suc t) (sent @ [b])"
    by (subst Run_loop.simps) (simp add: guard b send)
  with bs bl show ?case
    by (intro exI [of _ "b # bs"]) simp
qed

lemma Run_loop_total:
  assumes ok: "generator_ok r" "draws_ok r env"
  shows "0 < tot \<Longrightarrow> tot < 2 ^ 63 \<Longrightarrow> sm = int t \<Longrightarrow> int t + int d = tot \<Longrightarrow>
    \<forall>j. t \<le> j \<and> int j < tot \<longrightarrow> snd (env j) = SendBuilder \<Longrightarrow>
    \<exists>bs. length bs = d \<and> (\<forall>b \<in> set bs. b < length (reqBuilders r))
       \<and> Run_loop r env tot sm t sent = Some (Inr (TotalReached, sent @ bs))"
proof (induction d arbitrary: t sm sent)
  case 0
  then have "tot > 0 \<and> sm \<ge> tot" by simp
  then show ?case by (subst Run_loop.simps) simp
next
  case (Suc d)
  from pick_ok [OF ok] obtain b where b: "randomPick r (fst (env t)) = Inr b"
    and bl: "b < length (reqBuilders r)" by blast
  have guard: "\<not> (tot > 0 \<and> sm \<ge> tot)" using Suc.prems by auto
  have send: "snd (env t) = SendBuilder" using Suc.prems by auto
  have w: "wrap64 (sm + 1) = int (Suc t)"
  proof -
    have "wrap64 (sm + 1) = sm + 1" using Suc.prems by (intro wrap64_id) auto
    then show ?thesis using Suc.prems by simp
  qed
  have d: "int (Suc t) + int d = tot" using Suc.prems by simp
  have all: "\<forall>j. Suc t \<le> j \<and> int j < tot \<longrightarrow> snd (env j) = SendBuilder"
    using Suc.prems(5) by auto
  from Suc.IH [OF Suc.prems(1) Suc.prems(2) w d all, of "sent @ [b]"]
  obtain bs where bs: "length bs = d" "\<forall>b \<in> set bs. b < length (reqBuilders r)"
    "Run_loop r env tot (wrap64 (sm + 1)) (Suc t) (sent @ [b])
       = Some (Inr (TotalReached, (sent @ [b]) @ bs))"
    by blast
  have "Run_loop r env tot sm t sent
       = Run_loop r env tot (wrap64 (sm + 1)) (Suc t) (sent @ [b])"
    by (subst Run_loop.simps) (simp add: guard b send)
  with bs bl show ?case
    by (intro exI [of _ "b # bs"]) simp
qed

lemma Run_loop_forever_aux:
  assumes "Run_loop r env tot sm t sent = Some y"
  shows "\<not> (tot \<le> 0 \<and> (\<forall>j. snd (env j) = SendBuilder)
            \<and> (\<forall>j. \<exists>b. randomPick r (fst (env j)) = Inr b))"
proof (rule Run_loop.raw_induct
    [where P = "\<lambda>r env tot sm t sent y.
       \<not> (tot \<le> 0 \<and> (\<forall>j. snd (env j) = SendBuilder)
            \<and> (\<forall>j. \<exists>b. randomPick r (fst (env j)) = Inr b))", OF _ assms])
  fix f :: "'a WeightedRandomRequests \<Rightarrow> gen_env \<Rightarrow> int \<Rightarrow> int \<Rightarrow> nat \<Rightarrow> nat list \<Rightarrow>
     (panic + run_exit \<times> nat list) option"
  fix r env tot sm t sent y
  assume IH: "\<And>r env tot sm t sent y. f r env tot sm t sent = Some y \<Longrightarrow>
       \<not> (tot \<le> 0 \<and> (\<forall>j. snd (env j) = SendBuilder)
            \<and> (\<forall>j. \<exists>b. randomPick r (fst (env j)) = Inr b))"
  assume step: "(if 0 < tot \<and> tot \<le> sm then Some (Inr (TotalReached, sent))
      else case randomPick r (fst (env t)) of Inl p \<Rightarrow> Some (Inl p)
           | Inr builder \<Rightarrow>
               case snd (env t) of
               SendBuilder \<Rightarrow> f r env tot (wrap64 (sm + 1)) (Suc t) (sent @ [builder])
               | GenCtxDone \<Rightarrow> Some (Inr (GenCtxCancelled, sent))
               | CallerCtxDone \<Rightarrow> Some (Inr (CallerCtxCancelled, sent))) = Some y"
  show "\<not> (tot \<le> 0 \<and> (\<forall>j. snd (env j) = SendBuilder)
            \<and> (\<forall>j. \<exists>b. randomPick r (fst (env j)) = Inr b))"
  proof
    assume c: "tot \<le> 0 \<and> (\<forall>j. snd (env j) = SendBuilder)
            \<and> (\<forall>j. \<exists>b. randomPick r (fst (env j)) = Inr b)"
    then obtain b where b: "randomPick r (fst (env t)) = Inr b" by blast
    from c have "\<not> (0 < tot \<and> tot \<le> sm)" "snd (env t) = SendBuilder" by auto
    with step b have "f r env tot (wrap64 (sm + 1)) (Suc t) (sent @ [b]) = Some y"
      by simp
    from IH [OF this] c show False by blast
  qed
qed

lemma Run_loop_forever:
  assumes "generator_ok r" "draws_ok r env" "tot \<le> 0" "\<forall>j. snd (env j) = SendBuilder"
  shows "Run_loop r env tot sm t sent = None"
proof (cases "Run_loop r env tot sm t sent")
  case None
  then show ?thesis .
next
  case (Some y)
  from Run_loop_forever_aux [OF Some] assms pick_ok [OF assms(1) assms(2)]
  show ?thesis by blast
qed


lemma first_cancel:
  assumes "snd (env j) \<noteq> SendBuilder"
  shows "\<exists>k \<le> j. cancelled_at env k"
proof -
  let ?k = "LEAST k. snd (env k) \<noteq> SendBuilder"
  have 1: "snd (env ?k) \<noteq> SendBuilder" using assms by (rule LeastI)
  have 2: "?k \<le> j" using assms by (rule Least_le)
  have 3: "\<forall>i < ?k. snd (env i) = SendBuilder"
    using not_less_Least by blast
  from 1 2 3 show ?thesis unfolding cancelled_at_def sends_until_def by blast
qed

lemma Run_cancelled:
  assumes "generator_ok r" "draws_ok r env" "tot < 2 ^ 63"
    and "cancelled_at env k" "tot \<le> 0 \<or> int k < tot"
  shows "\<exists>sent. Run r env tot = Some (Inr (exit_of (snd (env k)), sent)) \<and> length sent = k
           \<and> (\<forall>b \<in> set sent. b < length (reqBuilders r))"
proof -
  have c1: "tot \<le> 0 \<or> (tot < 2 ^ 63 \<and> (0::int) = int 0 \<and> int (0 + k) < tot)"
    using assms(3,5) by auto
  have c2: "\<forall>j < k. snd (env (0 + j)) = SendBuilder"
    using assms(4) by (simp add: cancelled_at_def sends_until_def)
  have c3: "snd (env (0 + k)) \<noteq> SendBuilder"
    using assms(4) by (simp add: cancelled_at_def)
  from Run_loop_cancel [OF assms(1,2) c1 c2 c3, of "[]"]
  show ?thesis unfolding Run_def by auto
qed

lemma Run_total:
  assumes "generator_ok r" "draws_ok r env" "tot < 2 ^ 63"
    and "0 < tot" "sends_until env (nat tot)"
  shows "\<exists>sent. Run r env tot = Some (Inr (TotalReached, sent)) \<and> int (length sent) = tot
           \<and> (\<forall>b \<in> set sent. b < length (reqBuilders r))"
proof -
  have d: "int 0 + int (nat tot) = tot" using assms(4) by simp
  have all: "\<forall>j. 0 \<le> j \<and> int j < tot \<longrightarrow> snd (env j) = SendBuilder"
    using assms(5) by (simp add: sends_until_def)
  from Run_loop_total [OF assms(1,2,4,3) _ d all, of 0 "[]"]
  obtain bs where "length bs = nat tot" "\<forall>b \<in> set bs. b < length (reqBuilders r)"
    "Run_loop r env tot 0 0 [] = Some (Inr (TotalReached, [] @ bs))"
    by auto
  then show ?thesis using assms(4) unfolding Run_def by auto
qed

lemma Run_forever:
  assumes "generator_ok r" "draws_ok r env" "tot \<le> 0" "\<forall>k. sends_until env k"
  shows "Run r env tot = None"
proof -
  have "\<forall>j. snd (env j) = SendBuilder"
    using assms(4) unfolding sends_until_def by blast
  from Run_loop_forever [OF assms(1,2,3) this] show ?thesis unfolding Run_def .
qed

lemma exit_of_not_total: "exit_of c \<noteq> TotalReached"
  by (cases c) (simp_all add: exit_of_def)

lemma Run_trichotomy:
  "(\<exists>k. cancelled_at env k \<and> (tot \<le> 0 \<or> int k < tot))
   \<or> (0 < tot \<and> sends_until env (nat tot))
   \<or> (tot \<le> 0 \<and> (\<forall>k. sends_until env k))"
proof (cases "\<exists>k. cancelled_at env k \<and> (tot \<le> 0 \<or> int k < tot)")
  case True
  then show ?thesis by blast
next
  case False
  have none: "\<And>j. tot \<le> 0 \<or> int j < tot \<Longrightarrow> snd (env j) = SendBuilder"
  proof (rule ccontr)
    fix j assume j: "tot \<le> 0 \<or> int j < tot" and "snd (env j) \<noteq> SendBuilder"
    from first_cancel [of env j, OF this(2)] obtain k where "k \<le> j" "cancelled_at env k" by blast
    with j False show False by auto
  qed
  show ?thesis
  proof (cases "0 < tot")
    case True
    then have "sends_until env (nat tot)"
      unfolding sends_until_def using none by auto
    with True show ?thesis by blast
  next
    case False
    then have "\<forall>k. sends_until env k"
      unfolding sends_until_def using none by auto
    with False show ?thesis by auto
  qed
qed

text \<open>
  C6. For a generator as \<^verbatim>\<open>NewWeightedRandomRequests\<close> builds it, a random source
  within its contract and a Go \<^verbatim>\<open>int\<close> \<open>tot\<close>: when \<open>tot\<close> is positive and the first
  \<open>tot\<close> turns hand a builder over, \<^verbatim>\<open>Run\<close> ends by reaching the total, having sent
  exactly \<open>tot\<close> builders; when a \<^verbatim>\<open>Done\<close> case of the \<^verbatim>\<open>select\<close> fires first at
  turn \<open>k\<close>, before the total is reached, \<^verbatim>\<open>Run\<close> returns there, having sent \<open>k\<close>
  builders; when \<open>tot\<close> is 0 (or negative) and no \<^verbatim>\<open>Done\<close> case ever fires,
  \<^verbatim>\<open>Run\<close> never ends; whenever \<^verbatim>\<open>Run\<close> ends by reaching the total, \<open>tot\<close> is
  positive and exactly \<open>tot\<close> builders were sent; and \<^verbatim>\<open>Run\<close> ends in exactly these
  two ways.
\<close>

theorem C6_generator_exit:
  assumes "generator_ok r" and "draws_ok r env" and "tot < 2 ^ 63"
  shows "(0 < tot \<and> sends_until env (nat tot) \<longrightarrow>
            (\<exists>sent. Run r env tot = Some (Inr (TotalReached, sent)) \<and> int (length sent) = tot))
    \<and> (\<forall>k. cancelled_at env k \<and> (tot \<le> 0 \<or> int k < tot) \<longrightarrow>
            (\<exists>sent. Run r env tot = Some (Inr (exit_of (snd (env k)), sent)) \<and> length sent = k))
    \<and> (tot \<le> 0 \<and> (\<forall>k. sends_until env k) \<longrightarrow> Run r env tot = None)
    \<and> (\<forall>sent. Run r env tot = Some (Inr (TotalReached, sent)) \<longrightarrow>
            0 < tot \<and> int (length sent) = tot)
    \<and> (Run r env tot \<noteq> None \<longleftrightarrow>
          (0 < tot \<and> sends_until env (nat tot))
          \<or> (\<exists>k. cancelled_at env k \<and> (tot \<le> 0 \<or> int k < tot)))"
proof -
  note T = Run_total [OF assms]
  note C = Run_cancelled [OF assms]
  note F = Run_forever [OF assms(1,2)]
  have 1: "0 < tot \<and> sends_until env (nat tot) \<longrightarrow>
            (\<exists>sent. Run r env tot = Some (Inr (TotalReached, sent)) \<and> int (length sent) = tot)"
    using T by blast
  have 2: "\<forall>k. cancelled_at env k \<and> (tot \<le> 0 \<or> int k < tot) \<longrightarrow>
            (\<exists>sent. Run r env tot = Some (Inr (exit_of (snd (env k)), sent)) \<and> length sent = k)"
    using C by blast
  have 3: "tot \<le> 0 \<and> (\<forall>k. sends_until env k) \<longrightarrow> Run r env tot = None"
    using F by blast
  have 4: "\<forall>sent. Run r env tot = Some (Inr (TotalReached, sent)) \<longrightarrow>
            0 < tot \<and> int (length sent) = tot"
  proof (intro allI impI)
    fix sent assume run: "Run r env tot = Some (Inr (TotalReached, sent))"
    from Run_trichotomy [of env tot]
    consider k where "cancelled_at env k" "tot \<le> 0 \<or> int k < tot"
      | "0 < tot" "sends_until env (nat tot)"
      | "tot \<le> 0" "\<forall>k. sends_until env k"
      by blast
    then show "0 < tot \<and> int (length sent) = tot"
    proof cases
      case 1
      from C [OF 1] run exit_of_not_total [of "snd (env k)"] show ?thesis by auto
    next
      case 2
      from T [OF 2] run 2(1) show ?thesis by auto
    next
      case 3
      from F [OF 3] run show ?thesis by simp
    qed
  qed
  have 5: "Run r env tot \<noteq> None \<longleftrightarrow>
          (0 < tot \<and> sends_until env (nat tot))
          \<or> (\<exists>k. cancelled_at env k \<and> (tot \<le> 0 \<or> int k < tot))"
  proof
    assume run: "Run r env tot \<noteq> None"
    from Run_trichotomy [of env tot] F [of tot] run
    show "(0 < tot \<and> sends_until env (nat tot))
          \<or> (\<exists>k. cancelled_at env k \<and> (tot \<le> 0 \<or> int k < tot))"
      by auto
  next
    assume "(0 < tot \<and> sends_until env (nat tot))
          \<or> (\<exists>k. cancelled_at env k \<and> (tot \<le> 0 \<or> int k < tot))"
    then show "Run r env tot \<noteq> None"
      using T C by (metis option.distinct(1))
  qed
  from 1 2 3 4 5 show ?thesis by blast
qed


theorem C6_generator_exit_witness:
  "generator_ok \<lparr>shares = [1], reqBuilders = [''list'']\<rparr>
   \<and> draws_ok \<lparr>shares = [1], reqBuilders = [''list'']\<rparr> (\<lambda>turn. (Inr 0, SendBuilder))
   \<and> Run \<lparr>shares = [1], reqBuilders = [''list'']\<rparr> (\<lambda>turn. (Inr 0, SendBuilder)) 3
        = Some (Inr (TotalReached, [0, 0, 0]))
   \<and> Run \<lparr>shares = [1], reqBuilders = [''list'']\<rparr> (\<lambda>turn. (Inr 0, SendBuilder)) 0 = None
   \<and> Run \<lparr>shares = [1], reqBuilders = [''list'']\<rparr>
          (\<lambda>turn. (Inr 0, if turn = 2 then CallerCtxDone else SendBuilder)) 5
        = Some (Inr (CallerCtxCancelled, [0, 0]))
   \<and> (\<exists>sent. Run \<lparr>shares = [1], reqBuilders = [''list'']\<rparr>
          (\<lambda>turn. (Inr 0, if turn = 2 then CallerCtxDone else SendBuilder)) 0
        = Some (Inr (CallerCtxCancelled, sent)) \<and> length sent = 2)
   \<and> sends_until (\<lambda>turn. (Inr 0, SendBuilder)) 3
   \<and> cancelled_at (\<lambda>turn. (Inr 0, if turn = 2 then CallerCtxDone else SendBuilder)) 2"
proof -
  let ?r = "\<lparr>shares = [1], reqBuilders = [''list'']\<rparr>"
  let ?send = "\<lambda>turn :: nat. (Inr 0 :: error + int, SendBuilder)"
  let ?stop = "\<lambda>turn :: nat. (Inr 0 :: error + int, if turn = 2 then CallerCtxDone else SendBuilder)"
  have w: "wrap64 1 = 1" "wrap64 2 = 2" "wrap64 3 = 3"
    by (rule wrap64_id; simp)+
  have sum: "shares_sum [1] = 1" by (simp add: shares_sum_def w)
  have ok: "generator_ok ?r" by (simp add: generator_ok_def sum)
  have d1: "draws_ok ?r ?send" by (simp add: draws_ok_def sum)
  have d2: "draws_ok ?r ?stop" by (simp add: draws_ok_def sum)
  have pick: "randomPick ?r (Inr 0) = Inr 0" by (simp add: randomPick_def sum)
  have s3: "sends_until ?send (nat 3)" and sall: "\<forall>k. sends_until ?send k"
    by (simp_all add: sends_until_def)
  have c2: "cancelled_at ?stop 2" by (simp add: cancelled_at_def sends_until_def)
  have e2: "exit_of (snd (?stop 2)) = CallerCtxCancelled" by (simp add: exit_of_def)
  have b: "(3::int) < 2 ^ 63" "(0::int) < 2 ^ 63" "(5::int) < 2 ^ 63" by simp_all
  note t3 = C6_generator_exit [OF ok d1 b(1)]
  note t0 = C6_generator_exit [OF ok d1 b(2)]
  note u5 = C6_generator_exit [OF ok d2 b(3)]
  note u0 = C6_generator_exit [OF ok d2 b(2)]
  have r3: "Run ?r ?send 3 = Some (Inr (TotalReached, [0, 0, 0]))"
    unfolding Run_def
    apply (subst Run_loop.simps, simp add: pick w)
    apply (subst Run_loop.simps, simp add: pick w)
    apply (subst Run_loop.simps, simp add: pick w)
    apply (subst Run_loop.simps, simp add: pick w)
    done
  have x3: "\<exists>sent. Run ?r ?send 3 = Some (Inr (TotalReached, sent)) \<and> int (length sent) = 3"
    using t3 s3 by simp
  have r0: "Run ?r ?send 0 = None"
    using t0 sall by simp
  have r5: "Run ?r ?stop 5 = Some (Inr (CallerCtxCancelled, [0, 0]))"
    unfolding Run_def
    apply (subst Run_loop.simps, simp add: pick w)
    apply (subst Run_loop.simps, simp add: pick w)
    apply (subst Run_loop.simps, simp add: pick w)
    done
  have x5: "\<exists>sent. Run ?r ?stop 5 = Some (Inr (CallerCtxCancelled, sent)) \<and> length sent = 2"
  proof -
    from u5 have "cancelled_at ?stop 2 \<and> ((5::int) \<le> 0 \<or> int 2 < 5) \<longrightarrow>
            (\<exists>sent. Run ?r ?stop 5 = Some (Inr (exit_of (snd (?stop 2)), sent)) \<and> length sent = 2)"
      by blast
    with c2 e2 show ?thesis by simp
  qed
  have r00: "\<exists>sent. Run ?r ?stop 0 = Some (Inr (CallerCtxCancelled, sent)) \<and> length sent = 2"
  proof -
    from u0 have "cancelled_at ?stop 2 \<and> ((0::int) \<le> 0 \<or> int 2 < 0) \<longrightarrow>
            (\<exists>sent. Run ?r ?stop 0 = Some (Inr (exit_of (snd (?stop 2)), sent)) \<and> length sent = 2)"
      by blast
    with c2 e2 show ?thesis by simp
  qed
  from s3 have s3': "sends_until ?send 3" by simp
  from ok d1 r3 r0 r5 r00 s3' c2 show ?thesis by blast
qed

section \<open>Properties of the request builders\<close>

lemma builders_loop_spec:
  "builders_loop gpt mr rs shs bs = Inr (shs', bs') \<Longrightarrow>
   shs' = shs @ map Shares rs
   \<and> (\<exists>cs. bs' = bs @ cs \<and> list_all2 (\<lambda>r b. builder_for gpt mr r = Inr b) rs cs)"
proof (induction rs arbitrary: shs bs)
  case Nil
  then show ?case by simp
next
  case (Cons r rs)
  from Cons.prems obtain b where b: "builder_for gpt mr r = Inr b"
    and rest: "builders_loop gpt mr rs (shs @ [Shares r]) (bs @ [b]) = Inr (shs', bs')"
    by (auto simp: Let_def split: sum.splits)
  from Cons.IH [OF rest] obtain cs where cs: "shs' = (shs @ [Shares r]) @ map Shares rs"
    "bs' = (bs @ [b]) @ cs" "list_all2 (\<lambda>r b. builder_for gpt mr r = Inr b) rs cs"
    by blast
  have "bs' = bs @ (b # cs) \<and> list_all2 (\<lambda>r b. builder_for gpt mr r = Inr b) (r # rs) (b # cs)"
    using cs b by simp
  then show ?case using cs(1) by auto
qed

lemma NewWeightedRandomRequests_spec:
  assumes "NewWeightedRandomRequests Validate gpt spec = Inr g"
  shows "Validate spec = None"
    and "shares g = map Shares (Requests spec)"
    and "list_all2 (\<lambda>r b. builder_for gpt (MaxRetries spec) r = Inr b)
           (Requests spec) (reqBuilders g)"
proof -
  from assms show v: "Validate spec = None"
    by (auto simp: NewWeightedRandomRequests_def split: option.splits)
  from assms v obtain shs bs where l:
    "builders_loop gpt (MaxRetries spec) (Requests spec) [] [] = Inr (shs, bs)"
    and g: "g = \<lparr>shares = shs, reqBuilders = bs\<rparr>"
    by (auto simp: NewWeightedRandomRequests_def split: sum.splits)
  from builders_loop_spec [OF l] g
  show "shares g = map Shares (Requests spec)"
    and "list_all2 (\<lambda>r b. builder_for gpt (MaxRetries spec) r = Inr b)
           (Requests spec) (reqBuilders g)"
    by auto
qed

lemma NewWeightedRandomRequests_nth:
  assumes "NewWeightedRandomRequests Validate gpt spec = Inr g" and "i < length (Requests spec)"
  shows "builder_for gpt (MaxRetries spec) (Requests spec ! i) = Inr (reqBuilders g ! i)"
  using NewWeightedRandomRequests_spec(3) [OF assms(1)] assms(2)
  by (simp add: list_all2_conv_all_nth)

lemma Build_List_params:
  "\<exists>lo. Build rt (ListBuilder (newRequestListBuilder src rv mr)) cli env
          = Inr (Build_List (newRequestListBuilder src rv mr) cli,
                 ListBuilder (newRequestListBuilder src rv mr))
     \<and> req_params (requester_req (Build_List (newRequestListBuilder src rv mr) cli))
          = ListOptionsOf lo
     \<and> ResourceVersion lo = rv"
  by (simp add: Build_List_def newRequestListBuilder_def Let_def)

lemma Build_Get_params:
  "Build rt (GetBuilder (newRequestGetBuilder src rv mr)) cli env
          = Inr (Build_Get (newRequestGetBuilder src rv mr) cli,
                 GetBuilder (newRequestGetBuilder src rv mr))
     \<and> req_params (requester_req (Build_Get (newRequestGetBuilder src rv mr) cli))
          = GetOptions rv"
  by (simp add: Build_Get_def newRequestGetBuilder_def Let_def)

lemma Build_WatchList_params:
  "\<exists>lo. Build rt (WatchListBuilder b) cli env = Inr (Build_WatchList b cli, WatchListBuilder b)
     \<and> req_params (requester_req (Build_WatchList b cli)) = ListOptionsOf lo
     \<and> Watch lo = True \<and> SendInitialEvents lo = Some True
     \<and> ResourceVersionMatch lo = ''NotOlderThan'' \<and> AllowWatchBookmarks lo = True
     \<and> ResourceVersion lo = []"
  by (simp add: Build_WatchList_def Let_def ResourceVersionMatchNotOlderThan_def)

text \<open>
  C9. In a generator built by \<^verbatim>\<open>NewWeightedRandomRequests\<close>, the builder of an entry
  whose \<^verbatim>\<open>StaleList\<close> tag is set builds requests with \<^verbatim>\<open>ResourceVersion\<close> \<open>"0"\<close>
  in their list options; that of a \<^verbatim>\<open>QuorumList\<close> entry, with the empty string;
  that of a \<^verbatim>\<open>StaleGet\<close> entry builds requests with \<open>"0"\<close> in their get options,
  and that of a \<^verbatim>\<open>QuorumGet\<close> entry with the empty string (an entry is of the
  first tag it has set, in the order of the \<^verbatim>\<open>switch\<close>). The requests of a
  \<^verbatim>\<open>WatchList\<close> entry, and of any watch list builder, carry \<^verbatim>\<open>Watch = true\<close>,
  \<^verbatim>\<open>SendInitialEvents = true\<close>, \<^verbatim>\<open>ResourceVersionMatch = NotOlderThan\<close> and
  \<^verbatim>\<open>AllowWatchBookmarks = true\<close>.
\<close>

theorem C9_resource_version_params:
  assumes "NewWeightedRandomRequests Validate getPatchType spec = Inr g"
    and "i < length (Requests spec)"
  shows
    "(\<forall>src. StaleList (Requests spec ! i) = Some src \<longrightarrow>
        (\<exists>rq lo. Build rt (reqBuilders g ! i) cli env = Inr (rq, reqBuilders g ! i)
           \<and> req_params (requester_req rq) = ListOptionsOf lo \<and> ResourceVersion lo = ''0''))
   \<and> (\<forall>src. StaleList (Requests spec ! i) = None \<and> QuorumList (Requests spec ! i) = Some src \<longrightarrow>
        (\<exists>rq lo. Build rt (reqBuilders g ! i) cli env = Inr (rq, reqBuilders g ! i)
           \<and> req_params (requester_req rq) = ListOptionsOf lo \<and> ResourceVersion lo = []))
   \<and> (\<forall>src. StaleList (Requests spec ! i) = None \<and> QuorumList (Requests spec ! i) = None
          \<and> WatchList (Requests spec ! i) = Some src \<longrightarrow>
        (\<exists>rq lo. Build rt (reqBuilders g ! i) cli env = Inr (rq, reqBuilders g ! i)
           \<and> req_params (requester_req rq) = ListOptionsOf lo
           \<and> Watch lo = True \<and> SendInitialEvents lo = Some True
           \<and> ResourceVersionMatch lo = ''NotOlderThan'' \<and> AllowWatchBookmarks lo = True))
   \<and> (\<forall>src. StaleList (Requests spec ! i) = None \<and> QuorumList (Requests spec ! i) = None
          \<and> WatchList (Requests spec ! i) = None \<and> StaleGet (Requests spec ! i) = Some src \<longrightarrow>
        (\<exists>rq. Build rt (reqBuilders g ! i) cli env = Inr (rq, reqBuilders g ! i)
           \<and> req_params (requester_req rq) = GetOptions ''0''))
   \<and> (\<forall>src. StaleList (Requests spec ! i) = None \<and> QuorumList (Requests spec ! i) = None
          \<and> WatchList (Requests spec ! i) = None \<and> StaleGet (Requests spec ! i) = None
          \<and> QuorumGet (Requests spec ! i) = Some src \<longrightarrow>
        (\<exists>rq. Build rt (reqBuilders g ! i) cli env = Inr (rq, reqBuilders g ! i)
           \<and> req_params (requester_req rq) = GetOptions []))
   \<and> (\<forall>wb rq. Build rt (WatchListBuilder wb) cli env = Inr (rq, WatchListBuilder wb) \<longrightarrow>
        (\<exists>lo. req_params (requester_req rq) = ListOptionsOf lo
           \<and> Watch lo = True \<and> SendInitialEvents lo = Some True
           \<and> ResourceVersionMatch lo = ''NotOlderThan'' \<and> AllowWatchBookmarks lo = True))"
proof -
  let ?r = "Requests spec ! i" and ?b = "reqBuilders g ! i"
  let ?mr = "MaxRetries spec"
  have bf: "builder_for getPatchType ?mr ?r = Inr ?b"
    by (rule NewWeightedRandomRequests_nth [OF assms])
  have 1: "\<forall>src. StaleList ?r = Some src \<longrightarrow>
        (\<exists>rq lo. Build rt ?b cli env = Inr (rq, ?b)
           \<and> req_params (requester_req rq) = ListOptionsOf lo \<and> ResourceVersion lo = ''0'')"
  proof (intro allI impI)
    fix src assume "StaleList ?r = Some src"
    with bf have "?b = ListBuilder (newRequestListBuilder src ''0'' ?mr)"
      by (simp add: builder_for_def)
    with Build_List_params [of rt src "''0''" ?mr cli env]
    show "\<exists>rq lo. Build rt ?b cli env = Inr (rq, ?b)
           \<and> req_params (requester_req rq) = ListOptionsOf lo \<and> ResourceVersion lo = ''0''"
      by auto
  qed
  have 2: "\<forall>src. StaleList ?r = None \<and> QuorumList ?r = Some src \<longrightarrow>
        (\<exists>rq lo. Build rt ?b cli env = Inr (rq, ?b)
           \<and> req_params (requester_req rq) = ListOptionsOf lo \<and> ResourceVersion lo = [])"
  proof (intro allI impI)
    fix src assume "StaleList ?r = None \<and> QuorumList ?r = Some src"
    with bf have "?b = ListBuilder (newRequestListBuilder src [] ?mr)"
      by (simp add: builder_for_def)
    with Build_List_params [of rt src "[]" ?mr cli env]
    show "\<exists>rq lo. Build rt ?b cli env = Inr (rq, ?b)
           \<and> req_params (requester_req rq) = ListOptionsOf lo \<and> ResourceVersion lo = []"
      by auto
  qed
  have 3: "\<forall>src. StaleList ?r = None \<and> QuorumList ?r = None \<and> WatchList ?r = Some src \<longrightarrow>
        (\<exists>rq lo. Build rt ?b cli env = Inr (rq, ?b)
           \<and> req_params (requester_req rq) = ListOptionsOf lo
           \<and> Watch lo = True \<and> SendInitialEvents lo = Some True
           \<and> ResourceVersionMatch lo = ''NotOlderThan'' \<and> AllowWatchBookmarks lo = True)"
  proof (intro allI impI)
    fix src assume "StaleList ?r = None \<and> QuorumList ?r = None \<and> WatchList ?r = Some src"
    with bf have "?b = WatchListBuilder (newRequestWatchListBuilder src ?mr)"
      by (simp add: builder_for_def)
    with Build_WatchList_params [of rt "newRequestWatchListBuilder src ?mr" cli env]
    show "\<exists>rq lo. Build rt ?b cli env = Inr (rq, ?b)
           \<and> req_params (requester_req rq) = ListOptionsOf lo
           \<and> Watch lo = True \<and> SendInitialEvents lo = Some True
           \<and> ResourceVersionMatch lo = ''NotOlderThan'' \<and> AllowWatchBookmarks lo = True"
      by auto
  qed
  have 4: "\<forall>src. StaleList ?r = None \<and> QuorumList ?r = None \<and> WatchList ?r = None
          \<and> StaleGet ?r = Some src \<longrightarrow>
        (\<exists>rq. Build rt ?b cli env = Inr (rq, ?b)
           \<and> req_params (requester_req rq) = GetOptions ''0'')"
  proof (intro allI impI)
    fix src assume "StaleList ?r = None \<and> QuorumList ?r = None \<and> WatchList ?r = None
          \<and> StaleGet ?r = Some src"
    with bf have "?b = GetBuilder (newRequestGetBuilder src ''0'' ?mr)"
      by (simp add: builder_for_def)
    with Build_Get_params [of rt src "''0''" ?mr cli env]
    show "\<exists>rq. Build rt ?b cli env = Inr (rq, ?b)
           \<and> req_params (requester_req rq) = GetOptions ''0''"
      by auto
  qed
  have 5: "\<forall>src. StaleList ?r = None \<and> QuorumList ?r = None \<and> WatchList ?r = None
          \<and> StaleGet ?r = None \<and> QuorumGet ?r = Some src \<longrightarrow>
        (\<exists>rq. Build rt ?b cli env = Inr (rq, ?b)
           \<and> req_params (requester_req rq) = GetOptions [])"
  proof (intro allI impI)
    fix src assume "StaleList ?r = None \<and> QuorumList ?r = None \<and> WatchList ?r = None
          \<and> StaleGet ?r = None \<and> QuorumGet ?r = Some src"
    with bf have "?b = GetBuilder (newRequestGetBuilder src [] ?mr)"
      by (simp add: builder_for_def)
    with Build_Get_params [of rt src "[]" ?mr cli env]
    show "\<exists>rq. Build rt ?b cli env = Inr (rq, ?b)
           \<and> req_params (requester_req rq) = GetOptions []"
      by auto
  qed
  have 6: "\<forall>wb rq. Build rt (WatchListBuilder wb) cli env = Inr (rq, WatchListBuilder wb) \<longrightarrow>
        (\<exists>lo. req_params (requester_req rq) = ListOptionsOf lo
           \<and> Watch lo = True \<and> SendInitialEvents lo = Some True
           \<and> ResourceVersionMatch lo = ''NotOlderThan'' \<and> AllowWatchBookmarks lo = True)"
    using Build_WatchList_params [of rt _ cli env] by auto
  from 1 2 3 4 5 6 show ?thesis by blast
qed

theorem C9_resource_version_params_witness:
  "\<exists>g. NewWeightedRandomRequests (\<lambda>spec. None) (\<lambda>t. t) example_spec = Inr g
     \<and> length (reqBuilders g) = 5
     \<and> (\<exists>rq lo. Build example_render (reqBuilders g ! 0) 0 example_build_env
                   = Inr (rq, reqBuilders g ! 0)
           \<and> req_params (requester_req rq) = ListOptionsOf lo \<and> ResourceVersion lo = ''0'')
     \<and> (\<exists>rq lo. Build example_render (reqBuilders g ! 1) 0 example_build_env
                   = Inr (rq, reqBuilders g ! 1)
           \<and> req_params (requester_req rq) = ListOptionsOf lo \<and> ResourceVersion lo = [])
     \<and> (\<exists>rq lo. Build example_render (reqBuilders g ! 2) 0 example_build_env
                   = Inr (rq, reqBuilders g ! 2)
           \<and> req_params (requester_req rq) = ListOptionsOf lo
           \<and> Watch lo = True \<and> SendInitialEvents lo = Some True
           \<and> ResourceVersionMatch lo = ''NotOlderThan'' \<and> AllowWatchBookmarks lo = True)
     \<and> (\<exists>rq. Build example_render (reqBuilders g ! 3) 0 example_build_env
                   = Inr (rq, reqBuilders g ! 3)
           \<and> req_params (requester_req rq) = GetOptions ''0'')
     \<and> (\<exists>rq. Build example_render (reqBuilders g ! 4) 0 example_build_env
                   = Inr (rq, reqBuilders g ! 4)
           \<and> req_params (requester_req rq) = GetOptions [])
     \<and> (\<exists>lo. req_params (requester_req
                  (Build_WatchList (newRequestWatchListBuilder example_watch 3) 0))
                 = ListOptionsOf lo
           \<and> Watch lo = True \<and> SendInitialEvents lo = Some True
           \<and> ResourceVersionMatch lo = ''NotOlderThan'' \<and> AllowWatchBookmarks lo = True)"
proof -
  let ?V = "\<lambda>spec :: LoadProfileSpec. None :: error option"
  let ?P = "\<lambda>t :: string. t"
  obtain g where g: "NewWeightedRandomRequests ?V ?P example_spec = Inr g"
    by (simp add: NewWeightedRandomRequests_def example_spec_def builder_for_def
        example_request_def Let_def)
  have len: "length (Requests example_spec) = 5" by (simp add: example_spec_def)
  have lg: "length (reqBuilders g) = 5"
    using NewWeightedRandomRequests_spec(3) [OF g] len by (simp add: list_all2_lengthD)
  have i: "0 < length (Requests example_spec)" "1 < length (Requests example_spec)"
    "2 < length (Requests example_spec)" "3 < length (Requests example_spec)"
    "4 < length (Requests example_spec)"
    by (simp_all add: len)
  have e0: "StaleList (Requests example_spec ! 0) = Some example_list"
    by (simp add: example_spec_def)
  have e1: "StaleList (Requests example_spec ! 1) = None
      \<and> QuorumList (Requests example_spec ! 1) = Some example_list"
    by (simp add: example_spec_def example_request_def)
  have e2: "StaleList (Requests example_spec ! 2) = None
      \<and> QuorumList (Requests example_spec ! 2) = None
      \<and> WatchList (Requests example_spec ! 2) = Some example_watch"
    by (simp add: example_spec_def example_request_def)
  have e3: "StaleList (Requests example_spec ! 3) = None
      \<and> QuorumList (Requests example_spec ! 3) = None
      \<and> WatchList (Requests example_spec ! 3) = None
      \<and> StaleGet (Requests example_spec ! 3) = Some example_get"
    by (simp add: example_spec_def example_request_def)
  have e4: "StaleList (Requests example_spec ! 4) = None
      \<and> QuorumList (Requests example_spec ! 4) = None
      \<and> WatchList (Requests example_spec ! 4) = None
      \<and> StaleGet (Requests example_spec ! 4) = None
      \<and> QuorumGet (Requests example_spec ! 4) = Some example_get"
    by (simp add: example_spec_def example_request_def)
  note t = C9_resource_version_params [OF g, of _ example_render 0 example_build_env]
  have r0: "\<exists>rq lo. Build example_render (reqBuilders g ! 0) 0 example_build_env
                   = Inr (rq, reqBuilders g ! 0)
           \<and> req_params (requester_req rq) = ListOptionsOf lo \<and> ResourceVersion lo = ''0''"
    using t [OF i(1)] e0 by blast
  have r1: "\<exists>rq lo. Build example_render (reqBuilders g ! 1) 0 example_build_env
                   = Inr (rq, reqBuilders g ! 1)
           \<and> req_params (requester_req rq) = ListOptionsOf lo \<and> ResourceVersion lo = []"
    using t [OF i(2)] e1 by blast
  have r2: "\<exists>rq lo. Build example_render (reqBuilders g ! 2) 0 example_build_env
                   = Inr (rq, reqBuilders g ! 2)
           \<and> req_params (requester_req rq) = ListOptionsOf lo
           \<and> Watch lo = True \<and> SendInitialEvents lo = Some True
           \<and> ResourceVersionMatch lo = ''NotOlderThan'' \<and> AllowWatchBookmarks lo = True"
    using t [OF i(3)] e2 by blast
  have r3: "\<exists>rq. Build example_render (reqBuilders g ! 3) 0 example_build_env
                   = Inr (rq, reqBuilders g ! 3)
           \<and> req_params (requester_req rq) = GetOptions ''0''"
    using t [OF i(4)] e3 by blast
  have r4: "\<exists>rq. Build example_render (reqBuilders g ! 4) 0 example_build_env
                   = Inr (rq, reqBuilders g ! 4)
           \<and> req_params (requester_req rq) = GetOptions []"
    using t [OF i(5)] e4 by blast
  have "Build example_render (WatchListBuilder (newRequestWatchListBuilder example_watch 3)) 0
          example_build_env
        = Inr (Build_WatchList (newRequestWatchListBuilder example_watch 3) 0,
               WatchListBuilder (newRequestWatchListBuilder example_watch 3))"
    by simp
  with t [OF i(1)]
  have r5: "\<exists>lo. req_params (requester_req
                  (Build_WatchList (newRequestWatchListBuilder example_watch 3) 0))
                 = ListOptionsOf lo
           \<and> Watch lo = True \<and> SendInitialEvents lo = Some True
           \<and> ResourceVersionMatch lo = ''NotOlderThan'' \<and> AllowWatchBookmarks lo = True"
    by blast
  from g lg r0 r1 r2 r3 r4 r5 show ?thesis by blast
qed

section \<open>Rounding to float64\<close>

lemma float64_norm_double:
  "0 < y \<Longrightarrow> y * 2 ^ n < 2 ^ 53 \<Longrightarrow> 2 ^ 52 \<le> y * 2 ^ n \<Longrightarrow>
   float64_norm y ulp = (y * 2 ^ n, ulp / 2 ^ n)"
proof (induction n arbitrary: y ulp)
  case 0
  then show ?case by (subst float64_norm.simps) simp
next
  case (Suc n)
  show ?case
  proof (cases "y < 2 ^ 52")
    case True
    have "float64_norm (2 * y) (ulp / 2) = (2 * y * 2 ^ n, ulp / 2 / 2 ^ n)"
      using Suc.prems by (intro Suc.IH) (simp_all add: mult.assoc mult.left_commute)
    then show ?thesis
      using True Suc.prems(1)
      by (subst float64_norm.simps) (simp add: mult.assoc mult.left_commute)
  next
    case False
    have "(1::real) \<le> 2 ^ n" by simp
    then have "y * 1 \<le> y * 2 ^ n" using Suc.prems(1) by (intro mult_left_mono) simp_all
    then have "2 * y \<le> y * 2 ^ Suc n" by simp
    moreover have "(2::real) ^ 53 = 2 * 2 ^ 52" by simp
    ultimately have "False" using False Suc.prems(2) by linarith
    then show ?thesis ..
  qed
qed


lemma round_half_even_of_int: "round_half_even (of_int k) = k"
  by (simp add: round_half_even_def)

lemma round_half_even_bounds:
  "y - 1 / 2 \<le> of_int (round_half_even y)" "of_int (round_half_even y) \<le> y + 1 / 2"
  unfolding round_half_even_def Let_def by (simp_all; linarith)+

lemma float64_norm_small:
  "0 < y \<Longrightarrow> y < 2 ^ 53 \<Longrightarrow>
   \<exists>n. float64_norm y ulp = (y * 2 ^ n, ulp / 2 ^ n) \<and> 2 ^ 52 \<le> y * 2 ^ n \<and> y * 2 ^ n < 2 ^ 53"
proof (induction y ulp rule: float64_norm.induct)
  case (1 y ulp)
  show ?case
  proof (cases "y < 2 ^ 52")
    case True
    have "(2::real) ^ 53 = 2 * 2 ^ 52" by simp
    with True have "2 * y < 2 ^ 53" by linarith
    with 1(1) [of ] True 1(3)
    obtain n where n: "float64_norm (2 * y) (ulp / 2) = (2 * y * 2 ^ n, ulp / 2 / 2 ^ n)"
      "2 ^ 52 \<le> 2 * y * 2 ^ n" "2 * y * 2 ^ n < 2 ^ 53"
      by (metis mult_pos_pos not_le zero_less_numeral)
    have "float64_norm y ulp = float64_norm (2 * y) (ulp / 2)"
      using True 1(3) by (subst float64_norm.simps) simp
    with n have "float64_norm y ulp = (y * 2 ^ Suc n, ulp / 2 ^ Suc n)
        \<and> 2 ^ 52 \<le> y * 2 ^ Suc n \<and> y * 2 ^ Suc n < 2 ^ 53"
      by (simp add: mult.assoc mult.left_commute)
    then show ?thesis by blast
  next
    case False
    then have "float64_norm y ulp = (y * 2 ^ 0, ulp / 2 ^ 0)"
      using 1(3,4) by (subst float64_norm.simps) simp
    with False 1(4) have "float64_norm y ulp = (y * 2 ^ 0, ulp / 2 ^ 0)
        \<and> 2 ^ 52 \<le> y * 2 ^ 0 \<and> y * 2 ^ 0 < 2 ^ 53"
      by simp
    then show ?thesis by blast
  qed
qed

lemma float64_round_eval:
  assumes "0 < x" and "2 ^ 52 \<le> x * 2 ^ n" and "x * 2 ^ n < 2 ^ 53"
  shows "float64_round x = of_int (round_half_even (x * 2 ^ n)) / 2 ^ n"
  using assms float64_norm_double [OF assms(1,3,2), of 1]
  by (simp add: float64_round_def)

lemma float64_round_of_int:
  assumes "0 \<le> k" and "k < 2 ^ 53"
  shows "float64_round (of_int k) = of_int k"
proof (cases "k = 0")
  case True
  then show ?thesis by (simp add: float64_round_def)
next
  case False
  with assms have p: "0 < real_of_int k" by simp
  have "real_of_int k < 2 ^ 53" using assms(2) by (metis of_int_less_numeral_power_cancel_iff)
  from float64_norm_small [OF p this, of 1]
  obtain n where n: "2 ^ 52 \<le> real_of_int k * 2 ^ n" "real_of_int k * 2 ^ n < 2 ^ 53" by blast
  have "real_of_int k * 2 ^ n = of_int (k * 2 ^ n)" by simp
  then have "round_half_even (real_of_int k * 2 ^ n) = k * 2 ^ n"
    by (simp only: round_half_even_of_int)
  with float64_round_eval [OF p n] show ?thesis by simp
qed

lemma float64_draw_range:
  assumes "0 \<le> k" and "k < 1000"
  shows "0 \<le> float64_div (float64_of_int k) 1000" and "float64_div (float64_of_int k) 1000 < 1"
proof -
  have "k < 2 ^ 53" using assms(2) by simp
  then have f: "float64_of_int k = of_int k"
    using assms(1) by (simp add: float64_of_int_def float64_round_of_int)
  have "0 \<le> float64_div (float64_of_int k) 1000 \<and> float64_div (float64_of_int k) 1000 < 1"
  proof (cases "k = 0")
    case True
    with f have "float64_of_int k = 0" by simp
    then show ?thesis by (simp add: float64_div_def float64_round_def)
  next
    case False
    define x where "x = real_of_int k / 1000"
    have x: "0 < x" "x \<le> 999 / 1000" using assms False by (simp_all add: x_def)
    then have "x < 2 ^ 53" by simp
    from float64_norm_small [OF x(1) this, of 1]
    obtain n where n: "2 ^ 52 \<le> x * 2 ^ n" "x * 2 ^ n < 2 ^ 53" by blast
    define r where "r = round_half_even (x * 2 ^ n)"
    have e: "float64_round x = of_int r / 2 ^ n"
      unfolding r_def by (rule float64_round_eval [OF x(1) n])
    have lo: "x * 2 ^ n - 1 / 2 \<le> of_int r" and hi: "of_int r \<le> x * 2 ^ n + 1 / 2"
      unfolding r_def by (rule round_half_even_bounds)+
    have "0 \<le> real_of_int r" using lo n(1) by simp
    then have g0: "0 \<le> real_of_int r / 2 ^ n" by simp
    define P :: real where "P = 2 ^ n"
    have "x * P \<le> 999 / 1000 * P" using x(2) by (intro mult_right_mono) (simp_all add: P_def)
    moreover have "(4503599627370496::real) \<le> x * P" using n(1) by (simp add: P_def)
    moreover have "real_of_int r \<le> x * P + 1 / 2" using hi by (simp add: P_def)
    ultimately have "real_of_int r < P" by linarith
    then have "real_of_int r < 2 ^ n" by (simp add: P_def)
    then have "real_of_int r / 2 ^ n < 1" by simp
    with g0 have "0 \<le> float64_round x \<and> float64_round x < 1" by (simp only: e)
    then show ?thesis by (simp only: f float64_div_def x_def)
  qed
  then show "0 \<le> float64_div (float64_of_int k) 1000" 
    and "float64_div (float64_of_int k) 1000 < 1" by simp_all
qed

lemma float64_draw_100:
  "float64_div (float64_of_int 100) 1000 = 3602879701896397 / 36028797018963968"
proof -
  have f: "float64_of_int 100 = 100"
    using float64_round_of_int [of 100] by (simp add: float64_of_int_def)
  have "float64_round (1 / 10) = of_int (round_half_even (1 / 10 * 2 ^ 56)) / 2 ^ 56"
    by (rule float64_round_eval) simp_all
  moreover have "round_half_even (1 / 10 * 2 ^ 56) = 7205759403792794"
    by (simp add: round_half_even_def Let_def)
  ultimately show ?thesis by (simp add: f float64_div_def)
qed

lemma float64_draw_250: "float64_div (float64_of_int 250) 1000 = 1 / 4"
proof -
  have f: "float64_of_int 250 = 250"
    using float64_round_of_int [of 250] by (simp add: float64_of_int_def)
  have "float64_round (1 / 4) = of_int (round_half_even (1 / 4 * 2 ^ 54)) / 2 ^ 54"
    by (rule float64_round_eval) simp_all
  moreover have "round_half_even (1 / 4 * 2 ^ 54) = 4503599627370496"
    by (simp add: round_half_even_def Let_def)
  ultimately show ?thesis by (simp add: f float64_div_def)
qed

lemma float64_draw_750: "float64_div (float64_of_int 750) 1000 = 3 / 4"
proof -
  have f: "float64_of_int 750 = 750"
    using float64_round_of_int [of 750] by (simp add: float64_of_int_def)
  have "float64_round (3 / 4) = of_int (round_half_even (3 / 4 * 2 ^ 53)) / 2 ^ 53"
    by (rule float64_round_eval) simp_all
  moreover have "round_half_even (3 / 4 * 2 ^ 53) = 6755399441055744"
    by (simp add: round_half_even_def Let_def)
  ultimately show ?thesis by (simp add: f float64_div_def)
qed

lemma float64_draw_99:
  "float64_div (float64_of_int 99) 1000 = 3566850904877433 / 36028797018963968"
proof -
  have f: "float64_of_int 99 = 99"
    using float64_round_of_int [of 99] by (simp add: float64_of_int_def)
  have "float64_round (99 / 1000) = of_int (round_half_even (99 / 1000 * 2 ^ 56)) / 2 ^ 56"
    by (rule float64_round_eval) simp_all
  moreover have "round_half_even (99 / 1000 * 2 ^ 56) = 7133701809754866"
    by (simp add: round_half_even_def Let_def)
  ultimately show ?thesis by (simp add: f float64_div_def)
qed

section \<open>Properties of the create and delete builder\<close>

lemma Build_PostDel_delete:
  assumes "float64_div (float64_of_int k) 1000 < pdb_deleteRatio b" and "pdb_cache b \<noteq> []"
  shows "Build_PostDel rt b cli \<lparr>be_randomInt = Inr k, be_unixNano = now\<rparr> =
     Inr (PostDelRequester
            \<lparr>pdr_name = hd (pdb_cache b),
             pdr_operation = ''DELETE'',
             pdr_DiscardRequester =
               \<lparr>br_method = ''DELETE'',
                br_req = \<lparr>req_client = cli, req_verb = VerbDelete,
                          req_absPath = api_comps (pdb_version b) (pdb_namespace b)
                                          @ [pdb_resource b, hd (pdb_cache b)],
                          req_params = NoParams, req_body = None,
                          req_maxRetries = pdb_maxRetries b\<rparr>\<rparr>\<rparr>,
          b\<lparr>pdb_cache := tl (pdb_cache b)\<rparr>)"
proof -
  from assms(2) obtain x xs where c: "pdb_cache b = x # xs" by (cases "pdb_cache b") auto
  show ?thesis
    using assms(1) by (simp add: Build_PostDel_def rand_Int64_def Let_def c Pop_Cons)
qed

lemma Build_PostDel_post_eq:
  assumes "\<not> (float64_div (float64_of_int k) 1000 < pdb_deleteRatio b \<and> pdb_cache b \<noteq> [])"
  shows "Build_PostDel rt b cli \<lparr>be_randomInt = Inr k, be_unixNano = now\<rparr> =
     Inr (PostDelRequester
            \<lparr>pdr_name = show_int now @ ''-'' @ show_int (sint (pdb_resourceCounter b + 1)),
             pdr_operation = ''POST'',
             pdr_DiscardRequester =
               \<lparr>br_method = ''POST'',
                br_req = \<lparr>req_client = cli, req_verb = VerbPost,
                          req_absPath = api_comps (pdb_version b) (pdb_namespace b)
                                          @ [pdb_resource b],
                          req_params = NoParams,
                          req_body = Some (rt (pdb_resource b)
                            [''namePattern'' \<mapsto>
                               show_int now @ ''-'' @ show_int (sint (pdb_resourceCounter b + 1)),
                             ''namespace'' \<mapsto> pdb_namespace b]),
                          req_maxRetries = pdb_maxRetries b\<rparr>\<rparr>\<rparr>,
          b\<lparr>pdb_resourceCounter := pdb_resourceCounter b + 1\<rparr>)"
proof (cases "float64_div (float64_of_int k) 1000 < pdb_deleteRatio b")
  case True
  with assms have c: "pdb_cache b = []" by simp
  have "b\<lparr>pdb_cache := []\<rparr> = b" using c by simp
  then show ?thesis
    using True
    by (simp add: Build_PostDel_def rand_Int64_def Let_def c Pop_empty Build_PostDel_post_def)
next
  case False
  then show ?thesis
    by (simp add: Build_PostDel_def rand_Int64_def Let_def Build_PostDel_post_def)
qed

lemma show_int_1: "show_int 1 = ''1''"
  by (simp add: show_int_def show_nat.simps digit_char_def)

lemma show_int_1700: "show_int 1700 = ''1700''"
  by (simp add: show_int_def show_nat.simps digit_char_def)

text \<open>
  C3. Let \<open>k\<close> in \<open>[0, 1000)\<close> be the number drawn by \<^verbatim>\<open>Build\<close> of a postDel
  builder and \<open>u\<close> the \<^verbatim>\<open>float64\<close> that the code compares, \<^verbatim>\<open>float64(k)/1000.0\<close>:
  the quotient \<open>k / 1000\<close> rounded to the nearest \<^verbatim>\<open>float64\<close>, a value in
  \<open>[0, 1)\<close>. If \<open>u < deleteRatio\<close> and the cache of the builder is not empty,
  \<^verbatim>\<open>Build\<close> pops the head of the cache and returns a \<^verbatim>\<open>DELETE\<close> requester for
  that name, on the path of that resource. Otherwise it returns a \<^verbatim>\<open>POST\<close>
  requester, named by the clock's nanoseconds, a dash and the counter of the builder
  after adding one to it, whose body is what the template renderer returns for the
  resource kind with the parameters \<open>namePattern\<close> (that name) and \<open>namespace\<close>;
  the cache is as it was. The counter of a new builder is 0 and its cache is empty,
  so its first \<^verbatim>\<open>Build\<close> is a \<^verbatim>\<open>POST\<close> with the counter 1.
\<close>

theorem C3_postdel_decision:
  assumes "0 \<le> k" and "k < 1000"
  shows
    "0 \<le> float64_div (float64_of_int k) 1000 \<and> float64_div (float64_of_int k) 1000 < 1
   \<and> (float64_div (float64_of_int k) 1000 < pdb_deleteRatio b \<and> Len (pdb_cache b) \<noteq> 0 \<longrightarrow>
        (\<exists>rq. Build_PostDel rt b cli \<lparr>be_randomInt = Inr k, be_unixNano = now\<rparr>
                 = Inr (PostDelRequester rq, b\<lparr>pdb_cache := snd (Pop (pdb_cache b))\<rparr>)
           \<and> pdr_operation rq = ''DELETE''
           \<and> pdr_name rq = fst (fst (Pop (pdb_cache b)))
           \<and> pdr_name rq = hd (pdb_cache b)
           \<and> br_method (pdr_DiscardRequester rq) = ''DELETE''
           \<and> req_verb (br_req (pdr_DiscardRequester rq)) = VerbDelete
           \<and> req_absPath (br_req (pdr_DiscardRequester rq))
               = api_comps (pdb_version b) (pdb_namespace b) @ [pdb_resource b, pdr_name rq]))
   \<and> (\<not> (float64_div (float64_of_int k) 1000 < pdb_deleteRatio b \<and> Len (pdb_cache b) \<noteq> 0) \<longrightarrow>
        (\<exists>rq. Build_PostDel rt b cli \<lparr>be_randomInt = Inr k, be_unixNano = now\<rparr>
                 = Inr (PostDelRequester rq,
                        b\<lparr>pdb_resourceCounter := pdb_resourceCounter b + 1\<rparr>)
           \<and> pdr_operation rq = ''POST''
           \<and> pdr_name rq = show_int now @ ''-'' @ show_int (sint (pdb_resourceCounter b + 1))
           \<and> br_method (pdr_DiscardRequester rq) = ''POST''
           \<and> req_verb (br_req (pdr_DiscardRequester rq)) = VerbPost
           \<and> req_absPath (br_req (pdr_DiscardRequester rq))
               = api_comps (pdb_version b) (pdb_namespace b) @ [pdb_resource b]
           \<and> req_body (br_req (pdr_DiscardRequester rq))
               = Some (rt (pdb_resource b)
                        [''namePattern'' \<mapsto> pdr_name rq, ''namespace'' \<mapsto> pdb_namespace b])))
   \<and> pdb_resourceCounter (newRequestPostDelBuilder src rv mr) = 0
   \<and> pdb_cache (newRequestPostDelBuilder src rv mr) = InitCache
   \<and> (\<exists>rq b'. Build_PostDel rt (newRequestPostDelBuilder src rv mr) cli
                  \<lparr>be_randomInt = Inr k, be_unixNano = now\<rparr> = Inr (PostDelRequester rq, b')
           \<and> pdr_operation rq = ''POST''
           \<and> pdr_name rq = show_int now @ ''-1''
           \<and> sint (pdb_resourceCounter b') = 1)"
proof -
  have u: "0 \<le> float64_div (float64_of_int k) 1000 \<and> float64_div (float64_of_int k) 1000 < 1"
    using float64_draw_range [OF assms] by simp
  have d: "float64_div (float64_of_int k) 1000 < pdb_deleteRatio b \<and> Len (pdb_cache b) \<noteq> 0 \<longrightarrow>
        (\<exists>rq. Build_PostDel rt b cli \<lparr>be_randomInt = Inr k, be_unixNano = now\<rparr>
                 = Inr (PostDelRequester rq, b\<lparr>pdb_cache := snd (Pop (pdb_cache b))\<rparr>)
           \<and> pdr_operation rq = ''DELETE''
           \<and> pdr_name rq = fst (fst (Pop (pdb_cache b)))
           \<and> pdr_name rq = hd (pdb_cache b)
           \<and> br_method (pdr_DiscardRequester rq) = ''DELETE''
           \<and> req_verb (br_req (pdr_DiscardRequester rq)) = VerbDelete
           \<and> req_absPath (br_req (pdr_DiscardRequester rq))
               = api_comps (pdb_version b) (pdb_namespace b) @ [pdb_resource b, pdr_name rq])"
  proof
    assume a: "float64_div (float64_of_int k) 1000 < pdb_deleteRatio b \<and> Len (pdb_cache b) \<noteq> 0"
    then have ne: "pdb_cache b \<noteq> []" by (auto simp: Len_def)
    then have p: "Pop (pdb_cache b) = ((hd (pdb_cache b), True), tl (pdb_cache b))"
      by (cases "pdb_cache b") (simp_all add: Pop_Cons)
    show "\<exists>rq. Build_PostDel rt b cli \<lparr>be_randomInt = Inr k, be_unixNano = now\<rparr>
                 = Inr (PostDelRequester rq, b\<lparr>pdb_cache := snd (Pop (pdb_cache b))\<rparr>)
           \<and> pdr_operation rq = ''DELETE''
           \<and> pdr_name rq = fst (fst (Pop (pdb_cache b)))
           \<and> pdr_name rq = hd (pdb_cache b)
           \<and> br_method (pdr_DiscardRequester rq) = ''DELETE''
           \<and> req_verb (br_req (pdr_DiscardRequester rq)) = VerbDelete
           \<and> req_absPath (br_req (pdr_DiscardRequester rq))
               = api_comps (pdb_version b) (pdb_namespace b) @ [pdb_resource b, pdr_name rq]"
      using a ne by (simp add: Build_PostDel_delete p)
  qed
  have p: "\<not> (float64_div (float64_of_int k) 1000 < pdb_deleteRatio b \<and> Len (pdb_cache b) \<noteq> 0) \<longrightarrow>
        (\<exists>rq. Build_PostDel rt b cli \<lparr>be_randomInt = Inr k, be_unixNano = now\<rparr>
                 = Inr (PostDelRequester rq,
                        b\<lparr>pdb_resourceCounter := pdb_resourceCounter b + 1\<rparr>)
           \<and> pdr_operation rq = ''POST''
           \<and> pdr_name rq = show_int now @ ''-'' @ show_int (sint (pdb_resourceCounter b + 1))
           \<and> br_method (pdr_DiscardRequester rq) = ''POST''
           \<and> req_verb (br_req (pdr_DiscardRequester rq)) = VerbPost
           \<and> req_absPath (br_req (pdr_DiscardRequester rq))
               = api_comps (pdb_version b) (pdb_namespace b) @ [pdb_resource b]
           \<and> req_body (br_req (pdr_DiscardRequester rq))
               = Some (rt (pdb_resource b)
                        [''namePattern'' \<mapsto> pdr_name rq, ''namespace'' \<mapsto> pdb_namespace b]))"
  proof
    assume "\<not> (float64_div (float64_of_int k) 1000 < pdb_deleteRatio b \<and> Len (pdb_cache b) \<noteq> 0)"
    then have "\<not> (float64_div (float64_of_int k) 1000 < pdb_deleteRatio b \<and> pdb_cache b \<noteq> [])"
      by (simp add: Len_def)
    from Build_PostDel_post_eq [OF this, of rt cli now]
    show "\<exists>rq. Build_PostDel rt b cli \<lparr>be_randomInt = Inr k, be_unixNano = now\<rparr>
                 = Inr (PostDelRequester rq,
                        b\<lparr>pdb_resourceCounter := pdb_resourceCounter b + 1\<rparr>)
           \<and> pdr_operation rq = ''POST''
           \<and> pdr_name rq = show_int now @ ''-'' @ show_int (sint (pdb_resourceCounter b + 1))
           \<and> br_method (pdr_DiscardRequester rq) = ''POST''
           \<and> req_verb (br_req (pdr_DiscardRequester rq)) = VerbPost
           \<and> req_absPath (br_req (pdr_DiscardRequester rq))
               = api_comps (pdb_version b) (pdb_namespace b) @ [pdb_resource b]
           \<and> req_body (br_req (pdr_DiscardRequester rq))
               = Some (rt (pdb_resource b)
                        [''namePattern'' \<mapsto> pdr_name rq, ''namespace'' \<mapsto> pdb_namespace b])"
      by simp
  qed
  let ?n = "newRequestPostDelBuilder src rv mr"
  have n0: "pdb_resourceCounter ?n = 0" and nc: "pdb_cache ?n = InitCache"
    by (simp_all add: newRequestPostDelBuilder_def)
  have "\<not> (float64_div (float64_of_int k) 1000 < pdb_deleteRatio ?n \<and> pdb_cache ?n \<noteq> [])"
    by (simp add: nc InitCache_def)
  from Build_PostDel_post_eq [OF this, of rt cli now]
  have f: "\<exists>rq b'. Build_PostDel rt ?n cli \<lparr>be_randomInt = Inr k, be_unixNano = now\<rparr>
                 = Inr (PostDelRequester rq, b')
           \<and> pdr_operation rq = ''POST''
           \<and> pdr_name rq = show_int now @ ''-1''
           \<and> sint (pdb_resourceCounter b') = 1"
    by (simp add: n0 show_int_1)
  from u d p n0 nc f show ?thesis by blast
qed

theorem C3_postdel_decision_witness:
  "(\<exists>rq b'. Build_PostDel example_render
               ((newRequestPostDelBuilder example_postdel [] 3)\<lparr>pdb_cache := [''a'', ''b'']\<rparr>)
               0 \<lparr>be_randomInt = Inr 250, be_unixNano = 1700\<rparr> = Inr (PostDelRequester rq, b')
       \<and> pdr_operation rq = ''DELETE'' \<and> pdr_name rq = ''a''
       \<and> req_absPath (br_req (pdr_DiscardRequester rq))
            = [''api'', ''v1'', ''namespaces'', ''default'', ''pods'', ''a'']
       \<and> pdb_cache b' = [''b''] \<and> pdb_resourceCounter b' = 0)
   \<and> (\<exists>rq b'. Build_PostDel example_render
               ((newRequestPostDelBuilder example_postdel [] 3)\<lparr>pdb_cache := [''a'', ''b'']\<rparr>)
               0 \<lparr>be_randomInt = Inr 750, be_unixNano = 1700\<rparr> = Inr (PostDelRequester rq, b')
       \<and> pdr_operation rq = ''POST'' \<and> pdr_name rq = ''1700-1''
       \<and> req_absPath (br_req (pdr_DiscardRequester rq))
            = [''api'', ''v1'', ''namespaces'', ''default'', ''pods'']
       \<and> req_body (br_req (pdr_DiscardRequester rq)) = Some ''pods:1700-1''
       \<and> pdb_cache b' = [''a'', ''b''] \<and> pdb_resourceCounter b' = 1)
   \<and> real_of_int 100 / 1000 < (3602879701896397 / 36028797018963968 :: real)
   \<and> (\<exists>rq b'. Build_PostDel example_render
               ((newRequestPostDelBuilder example_postdel [] 3)
                  \<lparr>pdb_deleteRatio := 3602879701896397 / 36028797018963968,
                   pdb_cache := [''a'', ''b'']\<rparr>)
               0 \<lparr>be_randomInt = Inr 100, be_unixNano = 1700\<rparr> = Inr (PostDelRequester rq, b')
       \<and> pdr_operation rq = ''POST'' \<and> pdr_name rq = ''1700-1''
       \<and> pdb_cache b' = [''a'', ''b''] \<and> pdb_resourceCounter b' = 1)
   \<and> (\<exists>rq b'. Build_PostDel example_render
               ((newRequestPostDelBuilder example_postdel [] 3)
                  \<lparr>pdb_deleteRatio := 3602879701896397 / 36028797018963968,
                   pdb_cache := [''a'', ''b'']\<rparr>)
               0 \<lparr>be_randomInt = Inr 99, be_unixNano = 1700\<rparr> = Inr (PostDelRequester rq, b')
       \<and> pdr_operation rq = ''DELETE'' \<and> pdr_name rq = ''a''
       \<and> pdb_cache b' = [''b''] \<and> pdb_resourceCounter b' = 0)"
proof -
  let ?b = "(newRequestPostDelBuilder example_postdel [] 3)\<lparr>pdb_cache := [''a'', ''b'']\<rparr>"
  let ?c = "(newRequestPostDelBuilder example_postdel [] 3)
              \<lparr>pdb_deleteRatio := 3602879701896397 / 36028797018963968,
               pdb_cache := [''a'', ''b'']\<rparr>"
  have f: "pdb_deleteRatio ?b = 1 / 2" "pdb_cache ?b = [''a'', ''b'']"
    "pdb_resourceCounter ?b = 0" "pdb_resource ?b = ''pods''" "pdb_namespace ?b = ''default''"
    "api_comps (pdb_version ?b) (pdb_namespace ?b) = [''api'', ''v1'', ''namespaces'', ''default'']"
    by (simp_all add: newRequestPostDelBuilder_def example_postdel_def api_comps_def)
  have g: "pdb_deleteRatio ?c = 3602879701896397 / 36028797018963968"
    "pdb_cache ?c = [''a'', ''b'']" "pdb_resourceCounter ?c = 0"
    by (simp_all add: newRequestPostDelBuilder_def)
  have k1: "(0::int) \<le> 250" "(250::int) < 1000" and k2: "(0::int) \<le> 750" "(750::int) < 1000"
    and k3: "(0::int) \<le> 100" "(100::int) < 1000" and k4: "(0::int) \<le> 99" "(99::int) < 1000"
    by simp_all
  have h1: "float64_div (float64_of_int 250) 1000 < pdb_deleteRatio ?b \<and> Len (pdb_cache ?b) \<noteq> 0"
    by (simp add: f Len_def float64_draw_250)
  have h2: "\<not> (float64_div (float64_of_int 750) 1000 < pdb_deleteRatio ?b \<and> Len (pdb_cache ?b) \<noteq> 0)"
    by (simp add: f float64_draw_750)
  have h3: "\<not> (float64_div (float64_of_int 100) 1000 < pdb_deleteRatio ?c \<and> Len (pdb_cache ?c) \<noteq> 0)"
    by (simp add: g float64_draw_100)
  have h4: "float64_div (float64_of_int 99) 1000 < pdb_deleteRatio ?c \<and> Len (pdb_cache ?c) \<noteq> 0"
    by (simp add: g Len_def float64_draw_99)
  note t1 = C3_postdel_decision [OF k1, of ?b example_render 0 1700 example_postdel "[]" 3]
  note t2 = C3_postdel_decision [OF k2, of ?b example_render 0 1700 example_postdel "[]" 3]
  note t3 = C3_postdel_decision [OF k3, of ?c example_render 0 1700 example_postdel "[]" 3]
  note t4 = C3_postdel_decision [OF k4, of ?c example_render 0 1700 example_postdel "[]" 3]
  from t1 h1 obtain rq where rq:
    "Build_PostDel example_render ?b 0 \<lparr>be_randomInt = Inr 250, be_unixNano = 1700\<rparr>
       = Inr (PostDelRequester rq, ?b\<lparr>pdb_cache := snd (Pop (pdb_cache ?b))\<rparr>)"
    "pdr_operation rq = ''DELETE''" "pdr_name rq = hd (pdb_cache ?b)"
    "req_absPath (br_req (pdr_DiscardRequester rq))
       = api_comps (pdb_version ?b) (pdb_namespace ?b) @ [pdb_resource ?b, pdr_name rq]"
    by blast
  have d: "\<exists>rq b'. Build_PostDel example_render ?b 0 \<lparr>be_randomInt = Inr 250, be_unixNano = 1700\<rparr>
         = Inr (PostDelRequester rq, b')
       \<and> pdr_operation rq = ''DELETE'' \<and> pdr_name rq = ''a''
       \<and> req_absPath (br_req (pdr_DiscardRequester rq))
            = [''api'', ''v1'', ''namespaces'', ''default'', ''pods'', ''a'']
       \<and> pdb_cache b' = [''b''] \<and> pdb_resourceCounter b' = 0"
    using rq
    by (simp add: newRequestPostDelBuilder_def example_postdel_def api_comps_def Pop_Cons)
  from t2 h2 obtain rq' where rq':
    "Build_PostDel example_render ?b 0 \<lparr>be_randomInt = Inr 750, be_unixNano = 1700\<rparr>
       = Inr (PostDelRequester rq', ?b\<lparr>pdb_resourceCounter := pdb_resourceCounter ?b + 1\<rparr>)"
    "pdr_operation rq' = ''POST''"
    "pdr_name rq' = show_int 1700 @ ''-'' @ show_int (sint (pdb_resourceCounter ?b + 1))"
    "req_absPath (br_req (pdr_DiscardRequester rq'))
       = api_comps (pdb_version ?b) (pdb_namespace ?b) @ [pdb_resource ?b]"
    "req_body (br_req (pdr_DiscardRequester rq'))
       = Some (example_render (pdb_resource ?b)
                [''namePattern'' \<mapsto> pdr_name rq', ''namespace'' \<mapsto> pdb_namespace ?b])"
    by blast
  have n: "pdr_name rq' = ''1700-1''"
    using rq'(3)
    by (simp add: newRequestPostDelBuilder_def example_postdel_def show_int_1 show_int_1700)
  have p: "\<exists>rq b'. Build_PostDel example_render ?b 0 \<lparr>be_randomInt = Inr 750, be_unixNano = 1700\<rparr>
         = Inr (PostDelRequester rq, b')
       \<and> pdr_operation rq = ''POST'' \<and> pdr_name rq = ''1700-1''
       \<and> req_absPath (br_req (pdr_DiscardRequester rq))
            = [''api'', ''v1'', ''namespaces'', ''default'', ''pods'']
       \<and> req_body (br_req (pdr_DiscardRequester rq)) = Some ''pods:1700-1''
       \<and> pdb_cache b' = [''a'', ''b''] \<and> pdb_resourceCounter b' = 1"
    using rq' n
    by (simp add: newRequestPostDelBuilder_def example_postdel_def api_comps_def
        example_render_def)
  have x: "real_of_int 100 / 1000 < (3602879701896397 / 36028797018963968 :: real)"
    by simp
  from t3 h3 obtain rq3 where rq3:
    "Build_PostDel example_render ?c 0 \<lparr>be_randomInt = Inr 100, be_unixNano = 1700\<rparr>
       = Inr (PostDelRequester rq3, ?c\<lparr>pdb_resourceCounter := pdb_resourceCounter ?c + 1\<rparr>)"
    "pdr_operation rq3 = ''POST''"
    "pdr_name rq3 = show_int 1700 @ ''-'' @ show_int (sint (pdb_resourceCounter ?c + 1))"
    by blast
  have n3: "pdr_name rq3 = ''1700-1''"
    using rq3(3)
    by (simp add: newRequestPostDelBuilder_def example_postdel_def show_int_1 show_int_1700)
  have p3: "\<exists>rq b'. Build_PostDel example_render ?c 0 \<lparr>be_randomInt = Inr 100, be_unixNano = 1700\<rparr>
         = Inr (PostDelRequester rq, b')
       \<and> pdr_operation rq = ''POST'' \<and> pdr_name rq = ''1700-1''
       \<and> pdb_cache b' = [''a'', ''b''] \<and> pdb_resourceCounter b' = 1"
    using rq3(1,2) n3 by (simp add: newRequestPostDelBuilder_def)
  from t4 h4 obtain rq4 where rq4:
    "Build_PostDel example_render ?c 0 \<lparr>be_randomInt = Inr 99, be_unixNano = 1700\<rparr>
       = Inr (PostDelRequester rq4, ?c\<lparr>pdb_cache := snd (Pop (pdb_cache ?c))\<rparr>)"
    "pdr_operation rq4 = ''DELETE''" "pdr_name rq4 = hd (pdb_cache ?c)"
    by blast
  have d4: "\<exists>rq b'. Build_PostDel example_render ?c 0 \<lparr>be_randomInt = Inr 99, be_unixNano = 1700\<rparr>
         = Inr (PostDelRequester rq, b')
       \<and> pdr_operation rq = ''DELETE'' \<and> pdr_name rq = ''a''
       \<and> pdb_cache b' = [''b''] \<and> pdb_resourceCounter b' = 0"
    using rq4 by (simp add: newRequestPostDelBuilder_def Pop_Cons)
  from d p x p3 d4 show ?thesis by blast
qed

lemma Build_PostDel_operation:
  assumes "Build_PostDel rt b cli env = Inr (rq, b')"
  shows "\<exists>p. rq = PostDelRequester p
    \<and> ((pdr_operation p = ''DELETE'' \<and> pdb_cache b \<noteq> [] \<and> pdr_name p = hd (pdb_cache b)
          \<and> pdb_cache b' = tl (pdb_cache b))
       \<or> (pdr_operation p = ''POST'' \<and> pdb_cache b' = pdb_cache b
          \<and> pdr_name p = show_int (be_unixNano env) @ ''-''
                           @ show_int (sint (pdb_resourceCounter b + 1))))"
proof -
  from assms obtain k where k: "be_randomInt env = Inr k"
    by (auto simp: Build_PostDel_def rand_Int64_def split: sum.splits)
  have e: "env = \<lparr>be_randomInt = Inr k, be_unixNano = be_unixNano env\<rparr>"
    using k by (cases env) simp
  show ?thesis
  proof (cases "float64_div (float64_of_int k) 1000 < pdb_deleteRatio b \<and> pdb_cache b \<noteq> []")
    case True
    then have "float64_div (float64_of_int k) 1000 < pdb_deleteRatio b" "pdb_cache b \<noteq> []" by auto
    from Build_PostDel_delete [OF this, of rt cli "be_unixNano env"] assms e True
    show ?thesis by auto
  next
    case False
    from Build_PostDel_post_eq [OF False, of rt cli "be_unixNano env"] assms e
    show ?thesis by auto
  qed
qed

text \<open>
  C4. \<^verbatim>\<open>Do\<close> of a \<^verbatim>\<open>PostDelDiscardRequester\<close> returns what the round trip
  returned. After a \<^verbatim>\<open>POST\<close> without error the name of the requester is pushed
  onto the cache; after a \<^verbatim>\<open>DELETE\<close> with an error the name is pushed back; after
  a \<^verbatim>\<open>POST\<close> with an error and after a \<^verbatim>\<open>DELETE\<close> without error the cache is as
  it was. A requester that \<^verbatim>\<open>Build\<close> returns is a \<^verbatim>\<open>POST\<close> or a \<^verbatim>\<open>DELETE\<close>;
  for a \<^verbatim>\<open>DELETE\<close> that fails, the cache after \<^verbatim>\<open>Do\<close> is as long as it was before
  \<^verbatim>\<open>Build\<close> popped the name, and holds the name again.
\<close>

theorem C4_postdel_cache:
  "(pdr_operation reqr = ''POST'' \<and> err = None \<longrightarrow>
      PostDel_Do reqr cache (bytes, err) = ((bytes, err), Push cache (pdr_name reqr)))
   \<and> (pdr_operation reqr = ''DELETE'' \<and> err \<noteq> None \<longrightarrow>
      PostDel_Do reqr cache (bytes, err) = ((bytes, err), Push cache (pdr_name reqr)))
   \<and> (pdr_operation reqr = ''POST'' \<and> err \<noteq> None \<longrightarrow>
      PostDel_Do reqr cache (bytes, err) = ((bytes, err), cache))
   \<and> (pdr_operation reqr = ''DELETE'' \<and> err = None \<longrightarrow>
      PostDel_Do reqr cache (bytes, err) = ((bytes, err), cache))
   \<and> (\<forall>p b'. Build_PostDel rt b cli env = Inr (PostDelRequester p, b') \<longrightarrow>
        (pdr_operation p = ''POST'' \<or> pdr_operation p = ''DELETE'')
        \<and> (pdr_operation p = ''DELETE'' \<and> err \<noteq> None \<longrightarrow>
             Len (snd (PostDel_Do p (pdb_cache b') (bytes, err))) = Len (pdb_cache b)
             \<and> pdr_name p \<in> set (snd (PostDel_Do p (pdb_cache b') (bytes, err))))
        \<and> (pdr_operation p = ''DELETE'' \<and> err = None \<longrightarrow>
             Len (snd (PostDel_Do p (pdb_cache b') (bytes, err))) = Len (pdb_cache b) - 1)
        \<and> (pdr_operation p = ''POST'' \<and> err = None \<longrightarrow>
             snd (PostDel_Do p (pdb_cache b') (bytes, err)) = pdb_cache b @ [pdr_name p])
        \<and> (pdr_operation p = ''POST'' \<and> err \<noteq> None \<longrightarrow>
             snd (PostDel_Do p (pdb_cache b') (bytes, err)) = pdb_cache b))"
proof -
  have do_: "PostDel_Do reqr cache (bytes, err) =
      ((bytes, err),
       if pdr_operation reqr = ''POST'' then (if err = None then Push cache (pdr_name reqr) else cache)
       else if pdr_operation reqr = ''DELETE'' then
         (if err \<noteq> None then Push cache (pdr_name reqr) else cache)
       else cache)" for reqr cache bytes err
    by (simp add: PostDel_Do_def)
  have 1: "pdr_operation reqr = ''POST'' \<and> err = None \<longrightarrow>
      PostDel_Do reqr cache (bytes, err) = ((bytes, err), Push cache (pdr_name reqr))"
    by (simp add: do_)
  have 2: "pdr_operation reqr = ''DELETE'' \<and> err \<noteq> None \<longrightarrow>
      PostDel_Do reqr cache (bytes, err) = ((bytes, err), Push cache (pdr_name reqr))"
    by (simp add: do_)
  have 3: "pdr_operation reqr = ''POST'' \<and> err \<noteq> None \<longrightarrow>
      PostDel_Do reqr cache (bytes, err) = ((bytes, err), cache)"
    by (simp add: do_)
  have 4: "pdr_operation reqr = ''DELETE'' \<and> err = None \<longrightarrow>
      PostDel_Do reqr cache (bytes, err) = ((bytes, err), cache)"
    by (simp add: do_)
  have 5: "\<forall>p b'. Build_PostDel rt b cli env = Inr (PostDelRequester p, b') \<longrightarrow>
        (pdr_operation p = ''POST'' \<or> pdr_operation p = ''DELETE'')
        \<and> (pdr_operation p = ''DELETE'' \<and> err \<noteq> None \<longrightarrow>
             Len (snd (PostDel_Do p (pdb_cache b') (bytes, err))) = Len (pdb_cache b)
             \<and> pdr_name p \<in> set (snd (PostDel_Do p (pdb_cache b') (bytes, err))))
        \<and> (pdr_operation p = ''DELETE'' \<and> err = None \<longrightarrow>
             Len (snd (PostDel_Do p (pdb_cache b') (bytes, err))) = Len (pdb_cache b) - 1)
        \<and> (pdr_operation p = ''POST'' \<and> err = None \<longrightarrow>
             snd (PostDel_Do p (pdb_cache b') (bytes, err)) = pdb_cache b @ [pdr_name p])
        \<and> (pdr_operation p = ''POST'' \<and> err \<noteq> None \<longrightarrow>
             snd (PostDel_Do p (pdb_cache b') (bytes, err)) = pdb_cache b)"
  proof (intro allI impI)
    fix p b' assume "Build_PostDel rt b cli env = Inr (PostDelRequester p, b')"
    from Build_PostDel_operation [OF this]
    have c: "(pdr_operation p = ''DELETE'' \<and> pdb_cache b \<noteq> [] \<and> pdr_name p = hd (pdb_cache b)
          \<and> pdb_cache b' = tl (pdb_cache b))
       \<or> (pdr_operation p = ''POST'' \<and> pdb_cache b' = pdb_cache b)"
      by auto
    then show "(pdr_operation p = ''POST'' \<or> pdr_operation p = ''DELETE'')
        \<and> (pdr_operation p = ''DELETE'' \<and> err \<noteq> None \<longrightarrow>
             Len (snd (PostDel_Do p (pdb_cache b') (bytes, err))) = Len (pdb_cache b)
             \<and> pdr_name p \<in> set (snd (PostDel_Do p (pdb_cache b') (bytes, err))))
        \<and> (pdr_operation p = ''DELETE'' \<and> err = None \<longrightarrow>
             Len (snd (PostDel_Do p (pdb_cache b') (bytes, err))) = Len (pdb_cache b) - 1)
        \<and> (pdr_operation p = ''POST'' \<and> err = None \<longrightarrow>
             snd (PostDel_Do p (pdb_cache b') (bytes, err)) = pdb_cache b @ [pdr_name p])
        \<and> (pdr_operation p = ''POST'' \<and> err \<noteq> None \<longrightarrow>
             snd (PostDel_Do p (pdb_cache b') (bytes, err)) = pdb_cache b)"
    proof
      assume d: "pdr_operation p = ''DELETE'' \<and> pdb_cache b \<noteq> [] \<and> pdr_name p = hd (pdb_cache b)
          \<and> pdb_cache b' = tl (pdb_cache b)"
      then obtain x xs where "pdb_cache b = x # xs" by (cases "pdb_cache b") auto
      with d show ?thesis by (simp add: do_ Push_def Len_def)
    next
      assume "pdr_operation p = ''POST'' \<and> pdb_cache b' = pdb_cache b"
      then show ?thesis by (simp add: do_ Push_def)
    qed
  qed
  from 1 2 3 4 5 show ?thesis by blast
qed

theorem C4_postdel_cache_witness:
  "\<exists>p b'. Build_PostDel example_render
             ((newRequestPostDelBuilder example_postdel [] 3)\<lparr>pdb_cache := [''a'', ''b'']\<rparr>)
             0 \<lparr>be_randomInt = Inr 250, be_unixNano = 1700\<rparr> = Inr (PostDelRequester p, b')
     \<and> pdr_operation p = ''DELETE'' \<and> pdr_name p = ''a'' \<and> pdb_cache b' = [''b'']
     \<and> PostDel_Do p (pdb_cache b') (0, Some ''timeout'') = ((0, Some ''timeout''), [''b'', ''a''])
     \<and> Len (snd (PostDel_Do p (pdb_cache b') (0, Some ''timeout''))) = 2
     \<and> PostDel_Do p (pdb_cache b') (12, None) = ((12, None), [''b''])
     \<and> PostDel_Do (p\<lparr>pdr_operation := ''POST'', pdr_name := ''1700-1''\<rparr>) [''b''] (12, None)
          = ((12, None), [''b'', ''1700-1''])
     \<and> PostDel_Do (p\<lparr>pdr_operation := ''POST'', pdr_name := ''1700-1''\<rparr>) [''b'']
            (0, Some ''timeout'')
          = ((0, Some ''timeout''), [''b''])"
proof -
  let ?b = "(newRequestPostDelBuilder example_postdel [] 3)\<lparr>pdb_cache := [''a'', ''b'']\<rparr>"
  let ?env = "\<lparr>be_randomInt = Inr 250, be_unixNano = 1700\<rparr>"
  let ?e = "Some ''timeout'' :: error option"
  have "float64_div (float64_of_int 250) 1000 < pdb_deleteRatio ?b" "pdb_cache ?b \<noteq> []"
    by (simp_all add: newRequestPostDelBuilder_def example_postdel_def float64_draw_250)
  from Build_PostDel_delete [OF this, of example_render 0 1700]
  obtain p b' where pb: "Build_PostDel example_render ?b 0 ?env = Inr (PostDelRequester p, b')"
    and op: "pdr_operation p = ''DELETE''" and nm: "pdr_name p = ''a''"
    and c': "pdb_cache b' = [''b'']"
    by (simp add: newRequestPostDelBuilder_def)
  let ?q = "p\<lparr>pdr_operation := ''POST'', pdr_name := ''1700-1''\<rparr>"
  have eN: "?e \<noteq> None" by simp
  have q: "pdr_operation ?q = ''POST''" "pdr_name ?q = ''1700-1''" by simp_all
  note t1 = C4_postdel_cache [of p ?e "pdb_cache b'" 0 example_render ?b 0 ?env]
  note t2 = C4_postdel_cache [of p None "pdb_cache b'" 12 example_render ?b 0 ?env]
  note t3 = C4_postdel_cache [of ?q None "[''b'']" 12 example_render ?b 0 ?env]
  note t4 = C4_postdel_cache [of ?q ?e "[''b'']" 0 example_render ?b 0 ?env]
  have r1: "PostDel_Do p (pdb_cache b') (0, ?e) = ((0, ?e), [''b'', ''a''])"
    using t1 op eN by (simp add: nm c' Push_def)
  have r1': "Len (snd (PostDel_Do p (pdb_cache b') (0, ?e))) = 2"
  proof -
    from t1 pb op eN
    have "Len (snd (PostDel_Do p (pdb_cache b') (0, ?e))) = Len (pdb_cache ?b)"
      by blast
    then show ?thesis by (simp add: Len_def)
  qed
  have r2: "PostDel_Do p (pdb_cache b') (12, None) = ((12, None), [''b''])"
    using t2 op by (simp add: c')
  have r3: "PostDel_Do ?q [''b''] (12, None) = ((12, None), [''b'', ''1700-1''])"
    using t3 q by (simp add: Push_def)
  have r4: "PostDel_Do ?q [''b''] (0, ?e) = ((0, ?e), [''b''])"
    using t4 q eN by simp
  from pb op nm c' r1 r1' r2 r3 r4 show ?thesis by blast
qed

section \<open>Properties of the scheduler\<close>

lemma Build_ok:
  assumes "builder_ok b" and "be_randomInt e = Inr k"
  shows "\<exists>rq b'. Build rt b cli e = Inr (rq, b') \<and> builder_ok b'"
proof (cases b)
  case (PatchBuilder p)
  with assms show ?thesis
    by (simp add: Build_Patch_def rand_Int64_def Let_def)
next
  case (PostDelBuilder p)
  have e: "e = \<lparr>be_randomInt = Inr k, be_unixNano = be_unixNano e\<rparr>"
    using assms(2) by (cases e) simp
  show ?thesis
  proof (cases "float64_div (float64_of_int k) 1000 < pdb_deleteRatio p \<and> pdb_cache p \<noteq> []")
    case True
    then have "float64_div (float64_of_int k) 1000 < pdb_deleteRatio p" "pdb_cache p \<noteq> []" by auto
    from Build_PostDel_delete [OF this, of rt cli "be_unixNano e"] e
    show ?thesis by (simp add: PostDelBuilder)
  next
    case False
    from Build_PostDel_post_eq [OF False, of rt cli "be_unixNano e"] e
    show ?thesis by (simp add: PostDelBuilder)
  qed
qed simp_all

text \<open>A request that runs is observed once, whatever its outcome.\<close>

lemma worker_request_observations:
  "length (observations (worker_request h)) = 1"
  by (simp add: worker_request_def observations_def split: sum.splits option.splits prod.splits)

lemma observations_append:
  "observations (xs @ ys) = observations xs @ observations ys"
  by (simp add: observations_def)

lemma worker_handle_ok:
  assumes "builds_ok env" and "\<forall>b \<in> set (ss_builders st). builder_ok b"
    and "b < length (ss_builders st)"
  shows "\<exists>st'. worker_handle rt restCli env st (t, b) = Inr st'
    \<and> length (ss_builders st') = length (ss_builders st)
    \<and> (\<forall>b \<in> set (ss_builders st'). builder_ok b)
    \<and> length (observations (ss_calls st'))
        = length (observations (ss_calls st))
          + (if ho_wait (se_handoff env t) = None then 1 else 0)
    \<and> (ho_wait (se_handoff env t) \<noteq> None \<longrightarrow> ss_calls st' = ss_calls st)"
proof -
  let ?h = "se_handoff env t"
  let ?cli = "if length restCli = 0 then 0 else restCli ! (ho_worker ?h mod length restCli)"
  from assms(1) obtain k where k: "be_randomInt (ho_build ?h) = Inr k"
    unfolding builds_ok_def by blast
  have "builder_ok (ss_builders st ! b)" using assms(2,3) by simp
  from Build_ok [OF this k, of rt ?cli]
  obtain rq b' where B: "Build rt (ss_builders st ! b) ?cli (ho_build ?h) = Inr (rq, b')"
    and ok': "builder_ok b'" by blast
  have inv: "\<forall>x \<in> set ((ss_builders st)[b := b']). builder_ok x"
    using assms(2) ok' set_update_subset_insert [of "ss_builders st" b b'] by auto
  show ?thesis
  proof (cases "ho_wait ?h")
    case None
    then show ?thesis
      using B assms(3) inv
      by (simp add: worker_handle_def Let_def observations_append worker_request_observations)
  next
    case (Some err)
    then show ?thesis
      using B assms(3) inv
      by (simp add: worker_handle_def Let_def)
  qed
qed

lemma run_handoffs_ok:
  assumes "builds_ok env"
  shows "\<forall>b \<in> set (ss_builders st). builder_ok b \<Longrightarrow>
    \<forall>tb \<in> set tbs. snd tb < length (ss_builders st) \<Longrightarrow>
    \<exists>st'. run_handoffs rt restCli env st tbs = Inr st'
      \<and> length (observations (ss_calls st'))
          = length (observations (ss_calls st))
            + length (filter (\<lambda>t. ho_wait (se_handoff env t) = None) (map fst tbs))
      \<and> ((\<forall>t \<in> set (map fst tbs). ho_wait (se_handoff env t) \<noteq> None) \<longrightarrow>
           ss_calls st' = ss_calls st)"
proof (induction tbs arbitrary: st)
  case Nil
  then show ?case by simp
next
  case (Cons tb tbs)
  obtain t b where tb: "tb = (t, b)" by (cases tb)
  have "b < length (ss_builders st)" using Cons.prems(2) tb by simp
  from worker_handle_ok [OF assms Cons.prems(1) this, of rt restCli t]
  obtain st1 where h: "worker_handle rt restCli env st (t, b) = Inr st1"
    and l: "length (ss_builders st1) = length (ss_builders st)"
    and ok: "\<forall>b \<in> set (ss_builders st1). builder_ok b"
    and lat: "length (observations (ss_calls st1))
        = length (observations (ss_calls st))
          + (if ho_wait (se_handoff env t) = None then 1 else 0)"
    and same: "ho_wait (se_handoff env t) \<noteq> None \<longrightarrow> ss_calls st1 = ss_calls st"
    by blast
  have idx: "\<forall>tb \<in> set tbs. snd tb < length (ss_builders st1)"
    using Cons.prems(2) l by simp
  from Cons.IH [OF ok idx]
  obtain st' where r: "run_handoffs rt restCli env st1 tbs = Inr st'"
    and lat': "length (observations (ss_calls st'))
          = length (observations (ss_calls st1))
            + length (filter (\<lambda>t. ho_wait (se_handoff env t) = None) (map fst tbs))"
    and same': "(\<forall>t \<in> set (map fst tbs). ho_wait (se_handoff env t) \<noteq> None) \<longrightarrow>
           ss_calls st' = ss_calls st1"
    by blast
  have "run_handoffs rt restCli env st (tb # tbs) = Inr st'"
    using h r by (simp add: tb)
  moreover have "length (observations (ss_calls st'))
          = length (observations (ss_calls st))
            + length (filter (\<lambda>t. ho_wait (se_handoff env t) = None) (map fst (tb # tbs)))"
    using lat lat' by (simp add: tb)
  moreover have "(\<forall>t \<in> set (map fst (tb # tbs)). ho_wait (se_handoff env t) \<noteq> None) \<longrightarrow>
           ss_calls st' = ss_calls st"
    using same same' by (simp add: tb)
  ultimately show ?case by blast
qed

text \<open>
  When \<^verbatim>\<open>Run\<close> returns, the workers finish, and the sink has received one
  observation for each builder that was handed over and got its token. If no
  builder got a token, no call was made on the sink.
\<close>

lemma Schedule_calls_sent:
  assumes g: "NewWeightedRandomRequests Validate gpt spec = Inr g"
    and cl: "restCli \<noteq> []"
    and bo: "\<forall>b \<in> set (reqBuilders g). builder_ok b"
    and be: "builds_ok env"
    and run: "Run g (se_gen env) (Total spec) = Some (Inr (exit, sent))"
    and idx: "\<forall>b \<in> set sent. b < length (reqBuilders g)"
  shows "\<exists>st. Schedule_calls Validate gpt rt env spec restCli = Some (Inr (Inr st))
    \<and> length (observations (ss_calls st)) = length (ran_requests env (length sent))
    \<and> (ran_requests env (length sent) = [] \<longrightarrow> ss_calls st = [])"
proof -
  let ?st0 = "\<lparr>ss_builders = reqBuilders g, ss_calls = [], ss_cancelled = False\<rparr>"
  let ?tbs = "zip [0 ..< length sent] sent"
  have m: "map fst ?tbs = [0 ..< length sent]" by simp
  have i0: "\<forall>b \<in> set (ss_builders ?st0). builder_ok b" using bo by simp
  have i1: "\<forall>tb \<in> set ?tbs. snd tb < length (ss_builders ?st0)"
    using idx by (auto dest: set_zip_rightD)
  from run_handoffs_ok [OF be i0 i1, of rt restCli]
  obtain st where r: "run_handoffs rt restCli env ?st0 ?tbs = Inr st"
    and lat: "length (observations (ss_calls st))
          = length (observations (ss_calls ?st0))
            + length (filter (\<lambda>t. ho_wait (se_handoff env t) = None) (map fst ?tbs))"
    and same: "(\<forall>t \<in> set (map fst ?tbs). ho_wait (se_handoff env t) \<noteq> None) \<longrightarrow>
           ss_calls st = ss_calls ?st0"
    by blast
  have "Schedule_calls Validate gpt rt env spec restCli = Some (Inr (Inr st))"
    using g cl run r by (simp add: Schedule_calls_def)
  moreover have "length (observations (ss_calls st)) = length (ran_requests env (length sent))"
    using lat unfolding m by (simp add: ran_requests_def observations_def)
  moreover have "ran_requests env (length sent) = [] \<longrightarrow> ss_calls st = []"
    using same unfolding m by (simp add: ran_requests_def filter_empty_conv)
  ultimately show ?thesis by blast
qed

lemma ran_requests_all:
  assumes "\<forall>t < k. ho_wait (se_handoff env t) = None"
  shows "length (ran_requests env k) = k"
proof -
  have "filter (\<lambda>turn. ho_wait (se_handoff env turn) = None) [0 ..< k] = [0 ..< k]"
    using assms by (intro filter_True) simp
  then show ?thesis by (simp add: ran_requests_def)
qed

text \<open>
  The end of \<^verbatim>\<open>Schedule\<close>: a panic of \<^verbatim>\<open>Gather\<close> is a panic of \<^verbatim>\<open>Schedule\<close>, and
  whatever \<^verbatim>\<open>Gather\<close> returns, \<^verbatim>\<open>Schedule\<close> returns stats with the configured total
  and no error.
\<close>

lemma Schedule_tail_panic:
  "rm_Gather I (rm_run I calls) = Inl p \<Longrightarrow> Schedule_tail I env spec calls = Inl p"
  by (simp add: Schedule_tail_def)

lemma Schedule_tail_returns:
  "rm_Gather I (rm_run I calls) = Inr (a, b, c, d) \<Longrightarrow>
   Schedule_tail I env spec calls =
     Inr (Some \<lparr>rs_Total = Total spec, rs_FailureList = c, rs_Duration = se_duration env,
                rs_TotalReceivedBytes = d, rs_PercentileLatencies = b\<rparr>, None)"
  by (simp add: Schedule_tail_def)

lemma Schedule_of_calls:
  "Schedule_calls Validate gpt rt env spec restCli = Some (Inr (Inr st)) \<Longrightarrow>
   Schedule I Validate gpt rt env spec restCli = Some (Schedule_tail I env spec (ss_calls st))"
  by (simp add: Schedule_def)

lemma Schedule_Total:
  assumes "Schedule I Validate gpt rt env spec restCli = Some (Inr (Some stats, e))"
  shows "rs_Total stats = Total spec \<and> e = None"
  using assms
  by (auto simp: Schedule_def Schedule_tail_def split: option.splits sum.splits prod.splits)

lemma Schedule_error_source:
  assumes "Schedule I Validate gpt rt env spec restCli = Some (Inr (stats, Some err))"
  shows "stats = None \<and> NewWeightedRandomRequests Validate gpt spec = Inl err"
proof -
  from assms have "stats = None
      \<and> Schedule_calls Validate gpt rt env spec restCli = Some (Inr (Inl err))"
    by (auto simp: Schedule_def Schedule_tail_def split: option.splits sum.splits prod.splits)
  then show ?thesis
    by (auto simp: Schedule_calls_def split: option.splits sum.splits prod.splits if_splits)
qed

text \<open>The sink of metrics/request.go after no call is the new sink, without a sample.\<close>

lemma source_sink_Gather_no_calls:
  "rm_Gather (source_sink summary orb) (rm_run (source_sink summary orb) [])
     = Inl IndexOutOfRange"
  by (simp add: source_sink_def rm_run_def Gather_local_empty NewResponseMetric_def)

lemma source_sink_Gather:
  "rm_Gather (source_sink summary orb) m = Inl p \<longleftrightarrow> p = IndexOutOfRange \<and> latencySeconds m = []"
  "rm_Gather (source_sink summary orb) m \<noteq> Inr (a, b, Some e, d)"
proof -
  show "rm_Gather (source_sink summary orb) m = Inl p \<longleftrightarrow>
      p = IndexOutOfRange \<and> latencySeconds m = []"
    by (cases "latencySeconds m = []")
      (auto simp: source_sink_def Gather_local_empty Gather_local_samples)
  show "rm_Gather (source_sink summary orb) m \<noteq> Inr (a, b, Some e, d)"
    by (cases "latencySeconds m = []")
      (auto simp: source_sink_def Gather_local_empty Gather_local_samples)
qed

text \<open>
  With an \<^verbatim>\<open>ObserveReceivedBytes\<close> that leaves the samples alone, the sink holds one
  sample for each observation.
\<close>

lemma source_sink_samples:
  assumes "\<forall>m n. latencySeconds (orb m n) = latencySeconds m"
  shows "length (latencySeconds (foldl (rm_call (source_sink summary orb)) m calls))
     = length (latencySeconds m) + length (observations calls)"
proof (induction calls arbitrary: m)
  case Nil
  then show ?case by (simp add: observations_def)
next
  case (Cons c calls)
  have "length (latencySeconds (rm_call (source_sink summary orb) m c))
      = length (latencySeconds m) + (if is_observation c then 1 else 0)"
    by (cases c)
      (simp_all add: source_sink_def ObserveLatency_fields ObserveFailure_fields assms)
  with Cons.IH [of "rm_call (source_sink summary orb) m c"]
  show ?case by (simp add: observations_def)
qed

text \<open>
  A run without cancellation. Take a profile that \<^verbatim>\<open>NewWeightedRandomRequests\<close>
  accepts, with non-negative shares of positive sum, patch builders of positive key
  space, a total \<open>T\<close> with \<open>0 < T < 2^63\<close>, at least one client, and a random
  source within its contract. If every one of the first \<open>T\<close> turns hands its
  builder over and every wait on the limiter succeeds, the sink receives exactly
  \<open>T\<close> observations, and \<^verbatim>\<open>Schedule\<close> on the sink of metrics/request.go returns
  stats with the total \<open>T\<close> and no error.
\<close>

lemma Schedule_steady_state:
  assumes "NewWeightedRandomRequests Validate gpt spec = Inr g"
    and "generator_ok g" and "\<forall>b \<in> set (reqBuilders g). builder_ok b"
    and "restCli \<noteq> []"
    and "draws_ok g (se_gen env)" and "builds_ok env"
    and "0 < Total spec" and "Total spec < 2 ^ 63"
    and "sends_until (se_gen env) (nat (Total spec))"
    and "\<forall>t < nat (Total spec). ho_wait (se_handoff env t) = None"
    and "\<forall>m n. latencySeconds (orb m n) = latencySeconds m"
  shows "\<exists>st stats. Schedule_calls Validate gpt rt env spec restCli = Some (Inr (Inr st))
      \<and> int (length (observations (ss_calls st))) = Total spec
      \<and> int (length (latencySeconds (rm_run (source_sink summary orb) (ss_calls st))))
          = Total spec
      \<and> Schedule (source_sink summary orb) Validate gpt rt env spec restCli
          = Some (Schedule_tail (source_sink summary orb) env spec (ss_calls st))
      \<and> Schedule (source_sink summary orb) Validate gpt rt env spec restCli
          = Some (Inr (Some stats, None))
      \<and> rs_Total stats = Total spec"
proof -
  let ?T = "Total spec"
  let ?I = "source_sink summary orb"
  from Run_total [OF assms(2) assms(5) assms(8) assms(7)] assms(9)
  obtain sent where run: "Run g (se_gen env) ?T = Some (Inr (TotalReached, sent))"
    and len: "int (length sent) = ?T"
    and idx: "\<forall>b \<in> set sent. b < length (reqBuilders g)"
    by blast
  have n: "length sent = nat ?T" using len by simp
  from Schedule_calls_sent [OF assms(1) assms(4) assms(3) assms(6) run idx, of rt]
  obtain st where st: "Schedule_calls Validate gpt rt env spec restCli = Some (Inr (Inr st))"
    and obs: "length (observations (ss_calls st)) = length (ran_requests env (length sent))"
    by blast
  have "length (ran_requests env (nat ?T)) = nat ?T"
    using assms(10) by (intro ran_requests_all) simp
  then have obs': "int (length (observations (ss_calls st))) = ?T"
    using obs n assms(7) by simp
  have sam: "length (latencySeconds (rm_run ?I (ss_calls st)))
      = length (observations (ss_calls st))"
    using source_sink_samples [OF assms(11), of summary NewResponseMetric "ss_calls st"]
    by (simp add: rm_run_def source_sink_def NewResponseMetric_def)
  with obs' have sam': "int (length (latencySeconds (rm_run ?I (ss_calls st)))) = ?T" by simp
  with assms(7) have ne: "latencySeconds (rm_run ?I (ss_calls st)) \<noteq> []" by auto
  obtain a b c d where G: "rm_Gather ?I (rm_run ?I (ss_calls st)) = Inr (a, b, c, d)"
    using ne Gather_local_samples [of "rm_run ?I (ss_calls st)" summary]
    by (simp add: source_sink_def)
  from Schedule_of_calls [OF st, of ?I] Schedule_tail_returns [OF G, of env spec]
  have "\<exists>stats. Schedule ?I Validate gpt rt env spec restCli = Some (Inr (Some stats, None))
      \<and> rs_Total stats = ?T"
    by simp
  with st obs' sam' Schedule_of_calls [OF st, of ?I] show ?thesis by blast
qed

text \<open>
  A run that is cancelled. If a \<^verbatim>\<open>Done\<close> case fires first at turn \<open>k < T\<close>, the
  sink receives as many observations as builders were handed over and got their
  token. When there is at least one, \<^verbatim>\<open>Schedule\<close> on the sink of metrics/request.go
  returns stats with the total \<open>T\<close>; when there is none, no call was made on the
  sink and \<^verbatim>\<open>Schedule\<close> panics.
\<close>

lemma Schedule_cancelled:
  assumes "NewWeightedRandomRequests Validate gpt spec = Inr g"
    and "generator_ok g" and "\<forall>b \<in> set (reqBuilders g). builder_ok b"
    and "restCli \<noteq> []"
    and "draws_ok g (se_gen env)" and "builds_ok env"
    and "cancelled_at (se_gen env) k" and "int k < Total spec" and "Total spec < 2 ^ 63"
  shows "\<exists>st. Schedule_calls Validate gpt rt env spec restCli = Some (Inr (Inr st))
      \<and> length (observations (ss_calls st)) = length (ran_requests env k)
      \<and> Schedule (source_sink summary orb) Validate gpt rt env spec restCli
          = Some (Schedule_tail (source_sink summary orb) env spec (ss_calls st))
      \<and> (ran_requests env k \<noteq> [] \<and> (\<forall>m n. latencySeconds (orb m n) = latencySeconds m) \<longrightarrow>
           length (latencySeconds (rm_run (source_sink summary orb) (ss_calls st)))
             = length (ran_requests env k)
           \<and> (\<exists>stats. Schedule (source_sink summary orb) Validate gpt rt env spec restCli
                      = Some (Inr (Some stats, None))
              \<and> rs_Total stats = Total spec))
      \<and> (ran_requests env k = [] \<longrightarrow>
           ss_calls st = []
           \<and> Schedule (source_sink summary orb) Validate gpt rt env spec restCli
               = Some (Inl IndexOutOfRange))"
proof -
  let ?T = "Total spec"
  let ?I = "source_sink summary orb"
  from Run_cancelled [OF assms(2) assms(5) assms(9) assms(7)] assms(8)
  obtain sent where run:
      "Run g (se_gen env) ?T = Some (Inr (exit_of (snd (se_gen env k)), sent))"
    and len: "length sent = k"
    and idx: "\<forall>b \<in> set sent. b < length (reqBuilders g)"
    by blast
  from Schedule_calls_sent [OF assms(1) assms(4) assms(3) assms(6) run idx, of rt]
  obtain st where st: "Schedule_calls Validate gpt rt env spec restCli = Some (Inr (Inr st))"
    and obs: "length (observations (ss_calls st)) = length (ran_requests env (length sent))"
    and none: "ran_requests env (length sent) = [] \<longrightarrow> ss_calls st = []"
    by blast
  have pos: "ran_requests env k \<noteq> [] \<and> (\<forall>m n. latencySeconds (orb m n) = latencySeconds m) \<longrightarrow>
           length (latencySeconds (rm_run ?I (ss_calls st))) = length (ran_requests env k)
           \<and> (\<exists>stats. Schedule ?I Validate gpt rt env spec restCli = Some (Inr (Some stats, None))
              \<and> rs_Total stats = ?T)"
  proof
    assume h: "ran_requests env k \<noteq> [] \<and> (\<forall>m n. latencySeconds (orb m n) = latencySeconds m)"
    then have o: "\<forall>m n. latencySeconds (orb m n) = latencySeconds m" by blast
    have sam: "length (latencySeconds (rm_run ?I (ss_calls st)))
        = length (observations (ss_calls st))"
      using source_sink_samples [OF o, of summary NewResponseMetric "ss_calls st"]
      by (simp add: rm_run_def source_sink_def NewResponseMetric_def)
    with h obs len have ne: "latencySeconds (rm_run ?I (ss_calls st)) \<noteq> []" by auto
    obtain a b c d where G: "rm_Gather ?I (rm_run ?I (ss_calls st)) = Inr (a, b, c, d)"
      using ne Gather_local_samples [of "rm_run ?I (ss_calls st)" summary]
      by (simp add: source_sink_def)
    from Schedule_of_calls [OF st, of ?I] Schedule_tail_returns [OF G, of env spec]
    have "\<exists>stats. Schedule ?I Validate gpt rt env spec restCli = Some (Inr (Some stats, None))
      \<and> rs_Total stats = ?T"
      by simp
    with sam obs len
    show "length (latencySeconds (rm_run ?I (ss_calls st))) = length (ran_requests env k)
      \<and> (\<exists>stats. Schedule ?I Validate gpt rt env spec restCli = Some (Inr (Some stats, None))
        \<and> rs_Total stats = ?T)"
      by simp
  qed
  have neg: "ran_requests env k = [] \<longrightarrow>
           ss_calls st = []
           \<and> Schedule ?I Validate gpt rt env spec restCli = Some (Inl IndexOutOfRange)"
  proof
    assume "ran_requests env k = []"
    with none len have e: "ss_calls st = []" by simp
    from Schedule_of_calls [OF st, of ?I]
      Schedule_tail_panic [OF source_sink_Gather_no_calls, of summary orb env spec]
    show "ss_calls st = []
        \<and> Schedule ?I Validate gpt rt env spec restCli = Some (Inl IndexOutOfRange)"
      by (simp add: e)
  qed
  from st obs len pos neg Schedule_of_calls [OF st, of ?I] show ?thesis by auto
qed

text \<open>Facts about the example runs.\<close>

lemma example_generator:
  "\<exists>g. NewWeightedRandomRequests (\<lambda>spec. None) (\<lambda>t. t) example_spec = Inr g
     \<and> generator_ok g \<and> (\<forall>b \<in> set (reqBuilders g). builder_ok b)
     \<and> shares_sum (shares g) = 5"
proof -
  have w: "wrap64 1 = 1" "wrap64 2 = 2" "wrap64 3 = 3" "wrap64 4 = 4" "wrap64 5 = 5"
    by (rule wrap64_id; simp)+
  have sum: "shares_sum [1, 1, 1, 1, 1] = 5"
    by (simp add: shares_sum_def w)
  show ?thesis
    by (simp add: NewWeightedRandomRequests_def example_spec_def builder_for_def
        example_request_def Let_def generator_ok_def sum)
qed

lemma example_envs:
  "builds_ok example_sched_env" "builds_ok example_cancel_env"
  "builds_ok example_cancelled_env" "builds_ok example_done_env"
  "sends_until (se_gen example_sched_env) k"
  "\<forall>t < k. ho_wait (se_handoff example_sched_env t) = None"
  "cancelled_at (se_gen example_cancel_env) 2"
  "cancelled_at (se_gen example_cancelled_env) 1"
  "cancelled_at (se_gen example_done_env) 0"
  by (simp_all add: builds_ok_def example_sched_env_def example_cancel_env_def
      example_cancelled_env_def example_done_env_def
      example_handoff_def example_build_env_def sends_until_def cancelled_at_def)

lemma example_draws:
  assumes "shares_sum (shares g) = 5"
  shows "draws_ok g (se_gen example_sched_env)" "draws_ok g (se_gen example_cancel_env)"
    "draws_ok g (se_gen example_cancelled_env)" "draws_ok g (se_gen example_done_env)"
  using assms
  by (simp_all add: draws_ok_def example_sched_env_def example_cancel_env_def
      example_cancelled_env_def example_done_env_def)

lemma example_counts:
  "length (ran_requests example_cancel_env 2) = 1"
  "ran_requests example_cancelled_env 1 = []"
  "ran_requests example_done_env 0 = []"
  by (simp_all add: ran_requests_def example_cancel_env_def example_cancelled_env_def
      example_done_env_def example_handoff_def upt_conv_Cons numeral_2_eq_2)

text \<open>
  C1. Take a profile that \<^verbatim>\<open>NewWeightedRandomRequests\<close> accepts, with non-negative
  shares of positive sum, patch builders of positive key space, a total \<open>T\<close> with
  \<open>0 < T < 2^63\<close>, at least one client, and a random source within its contract,
  and run \<^verbatim>\<open>Schedule\<close> on the sink of metrics/request.go. The result of
  \<^verbatim>\<open>Schedule\<close> is that of its last part, from \<^verbatim>\<open>Gather\<close> on, on the sink after
  the calls the workers made. If every one of the first \<open>T\<close> turns of the generator
  hands its builder over and every wait on the limiter succeeds (no cancellation),
  the sink receives exactly \<open>T\<close> observations and holds \<open>T\<close> samples, and
  \<^verbatim>\<open>Schedule\<close> returns stats whose total is \<open>T\<close>, with no error. If instead a
  \<^verbatim>\<open>Done\<close> case fires first at turn \<open>k < T\<close>, the sink receives as many observations
  as builders were handed over and got their token. When there is at least one,
  \<^verbatim>\<open>Schedule\<close> returns stats whose total is \<open>T\<close>. When there is none (the run was
  cancelled before a request ran), \<^verbatim>\<open>Schedule\<close> returns no stats: no call was made
  on the sink, and \<^verbatim>\<open>Gather\<close> panics on \<^verbatim>\<open>metricFamilies[0]\<close>. Where \<^verbatim>\<open>Schedule\<close>
  is said to return, the \<^verbatim>\<open>ObserveReceivedBytes\<close> of the sink, which is not among
  the sources, is taken to leave the latency samples as they are.
\<close>

theorem C1_total_fidelity_breaks:
  assumes "NewWeightedRandomRequests Validate gpt spec = Inr g"
    and "generator_ok g" and "\<forall>b \<in> set (reqBuilders g). builder_ok b"
    and "restCli \<noteq> []"
    and "draws_ok g (se_gen env)" and "builds_ok env"
    and "0 < Total spec" and "Total spec < 2 ^ 63"
  shows
    "(sends_until (se_gen env) (nat (Total spec))
        \<and> (\<forall>t < nat (Total spec). ho_wait (se_handoff env t) = None)
        \<and> (\<forall>m n. latencySeconds (orb m n) = latencySeconds m) \<longrightarrow>
       (\<exists>st stats. Schedule_calls Validate gpt rt env spec restCli = Some (Inr (Inr st))
          \<and> int (length (observations (ss_calls st))) = Total spec
          \<and> int (length (latencySeconds (rm_run (source_sink summary orb) (ss_calls st))))
              = Total spec
          \<and> Schedule (source_sink summary orb) Validate gpt rt env spec restCli
              = Some (Schedule_tail (source_sink summary orb) env spec (ss_calls st))
          \<and> Schedule (source_sink summary orb) Validate gpt rt env spec restCli
              = Some (Inr (Some stats, None))
          \<and> rs_Total stats = Total spec))
   \<and> (\<forall>k. cancelled_at (se_gen env) k \<and> int k < Total spec \<longrightarrow>
       (\<exists>st. Schedule_calls Validate gpt rt env spec restCli = Some (Inr (Inr st))
          \<and> length (observations (ss_calls st)) = length (ran_requests env k)
          \<and> Schedule (source_sink summary orb) Validate gpt rt env spec restCli
              = Some (Schedule_tail (source_sink summary orb) env spec (ss_calls st))
          \<and> (ran_requests env k \<noteq> []
               \<and> (\<forall>m n. latencySeconds (orb m n) = latencySeconds m) \<longrightarrow>
               length (latencySeconds (rm_run (source_sink summary orb) (ss_calls st)))
                 = length (ran_requests env k)
               \<and> (\<exists>stats. Schedule (source_sink summary orb) Validate gpt rt env spec restCli
                          = Some (Inr (Some stats, None))
                  \<and> rs_Total stats = Total spec))
          \<and> (ran_requests env k = [] \<longrightarrow>
               ss_calls st = []
               \<and> Schedule (source_sink summary orb) Validate gpt rt env spec restCli
                   = Some (Inl IndexOutOfRange))))"
proof -
  have A: "sends_until (se_gen env) (nat (Total spec))
        \<and> (\<forall>t < nat (Total spec). ho_wait (se_handoff env t) = None)
        \<and> (\<forall>m n. latencySeconds (orb m n) = latencySeconds m) \<longrightarrow>
       (\<exists>st stats. Schedule_calls Validate gpt rt env spec restCli = Some (Inr (Inr st))
          \<and> int (length (observations (ss_calls st))) = Total spec
          \<and> int (length (latencySeconds (rm_run (source_sink summary orb) (ss_calls st))))
              = Total spec
          \<and> Schedule (source_sink summary orb) Validate gpt rt env spec restCli
              = Some (Schedule_tail (source_sink summary orb) env spec (ss_calls st))
          \<and> Schedule (source_sink summary orb) Validate gpt rt env spec restCli
              = Some (Inr (Some stats, None))
          \<and> rs_Total stats = Total spec)"
  proof
    assume h: "sends_until (se_gen env) (nat (Total spec))
        \<and> (\<forall>t < nat (Total spec). ho_wait (se_handoff env t) = None)
        \<and> (\<forall>m n. latencySeconds (orb m n) = latencySeconds m)"
    then have h1: "sends_until (se_gen env) (nat (Total spec))"
      and h2: "\<forall>t < nat (Total spec). ho_wait (se_handoff env t) = None"
      and h3: "\<forall>m n. latencySeconds (orb m n) = latencySeconds m"
      by blast+
    show "\<exists>st stats. Schedule_calls Validate gpt rt env spec restCli = Some (Inr (Inr st))
          \<and> int (length (observations (ss_calls st))) = Total spec
          \<and> int (length (latencySeconds (rm_run (source_sink summary orb) (ss_calls st))))
              = Total spec
          \<and> Schedule (source_sink summary orb) Validate gpt rt env spec restCli
              = Some (Schedule_tail (source_sink summary orb) env spec (ss_calls st))
          \<and> Schedule (source_sink summary orb) Validate gpt rt env spec restCli
              = Some (Inr (Some stats, None))
          \<and> rs_Total stats = Total spec"
      by (rule Schedule_steady_state [OF assms h1 h2 h3])
  qed
  have B: "\<forall>k. cancelled_at (se_gen env) k \<and> int k < Total spec \<longrightarrow>
       (\<exists>st. Schedule_calls Validate gpt rt env spec restCli = Some (Inr (Inr st))
          \<and> length (observations (ss_calls st)) = length (ran_requests env k)
          \<and> Schedule (source_sink summary orb) Validate gpt rt env spec restCli
              = Some (Schedule_tail (source_sink summary orb) env spec (ss_calls st))
          \<and> (ran_requests env k \<noteq> []
               \<and> (\<forall>m n. latencySeconds (orb m n) = latencySeconds m) \<longrightarrow>
               length (latencySeconds (rm_run (source_sink summary orb) (ss_calls st)))
                 = length (ran_requests env k)
               \<and> (\<exists>stats. Schedule (source_sink summary orb) Validate gpt rt env spec restCli
                          = Some (Inr (Some stats, None))
                  \<and> rs_Total stats = Total spec))
          \<and> (ran_requests env k = [] \<longrightarrow>
               ss_calls st = []
               \<and> Schedule (source_sink summary orb) Validate gpt rt env spec restCli
                   = Some (Inl IndexOutOfRange)))"
  proof (intro allI impI)
    fix k assume "cancelled_at (se_gen env) k \<and> int k < Total spec"
    then have c: "cancelled_at (se_gen env) k" and k: "int k < Total spec" by blast+
    show "\<exists>st. Schedule_calls Validate gpt rt env spec restCli = Some (Inr (Inr st))
          \<and> length (observations (ss_calls st)) = length (ran_requests env k)
          \<and> Schedule (source_sink summary orb) Validate gpt rt env spec restCli
              = Some (Schedule_tail (source_sink summary orb) env spec (ss_calls st))
          \<and> (ran_requests env k \<noteq> []
               \<and> (\<forall>m n. latencySeconds (orb m n) = latencySeconds m) \<longrightarrow>
               length (latencySeconds (rm_run (source_sink summary orb) (ss_calls st)))
                 = length (ran_requests env k)
               \<and> (\<exists>stats. Schedule (source_sink summary orb) Validate gpt rt env spec restCli
                          = Some (Inr (Some stats, None))
                  \<and> rs_Total stats = Total spec))
          \<and> (ran_requests env k = [] \<longrightarrow>
               ss_calls st = []
               \<and> Schedule (source_sink summary orb) Validate gpt rt env spec restCli
                   = Some (Inl IndexOutOfRange))"
      by (rule Schedule_cancelled [OF assms(1-6) c k assms(8)])
  qed
  from A B show ?thesis by blast
qed

theorem C1_total_fidelity_breaks_witness:
  "(\<exists>st. Schedule_calls (\<lambda>spec. None) (\<lambda>t. t) example_render example_cancelled_env
            example_spec [7, 8] = Some (Inr (Inr st))
       \<and> ss_calls st = [])
   \<and> Schedule example_sink (\<lambda>spec. None) (\<lambda>t. t) example_render example_cancelled_env
        example_spec [7, 8] = Some (Inl IndexOutOfRange)
   \<and> (\<exists>st stats. Schedule_calls (\<lambda>spec. None) (\<lambda>t. t) example_render example_cancel_env
            example_spec [7, 8] = Some (Inr (Inr st))
       \<and> length (observations (ss_calls st)) = 1
       \<and> Schedule example_sink (\<lambda>spec. None) (\<lambda>t. t) example_render example_cancel_env
            example_spec [7, 8] = Some (Inr (Some stats, None))
       \<and> rs_Total stats = 3)
   \<and> (\<exists>st stats. Schedule_calls (\<lambda>spec. None) (\<lambda>t. t) example_render example_sched_env
            example_spec [7, 8] = Some (Inr (Inr st))
       \<and> length (observations (ss_calls st)) = 3
       \<and> length (latencySeconds (rm_run example_sink (ss_calls st))) = 3
       \<and> Schedule example_sink (\<lambda>spec. None) (\<lambda>t. t) example_render example_sched_env
            example_spec [7, 8] = Some (Inr (Some stats, None))
       \<and> rs_Total stats = 3)"
proof -
  let ?V = "\<lambda>spec :: LoadProfileSpec. None :: error option"
  let ?P = "\<lambda>t :: string. t"
  let ?orb = "\<lambda>(m :: responseMetricImpl) (n :: int). m"
  from example_generator obtain g where
    g: "NewWeightedRandomRequests ?V ?P example_spec = Inr g"
    and gok: "generator_ok g" and bok: "\<forall>b \<in> set (reqBuilders g). builder_ok b"
    and sum: "shares_sum (shares g) = 5"
    by blast
  have cl: "[7, 8 :: nat] \<noteq> []" by simp
  have T: "0 < Total example_spec" "Total example_spec < 2 ^ 63" "Total example_spec = 3"
    by (simp_all add: example_spec_def)
  have o: "\<forall>m n. latencySeconds (?orb m n) = latencySeconds m" by simp
  note t1 = C1_total_fidelity_breaks [OF g gok bok cl example_draws(3) [OF sum] example_envs(3)
      T(1,2), of ?orb example_render example_summary]
  note t2 = C1_total_fidelity_breaks [OF g gok bok cl example_draws(2) [OF sum] example_envs(2)
      T(1,2), of ?orb example_render example_summary]
  note t3 = C1_total_fidelity_breaks [OF g gok bok cl example_draws(1) [OF sum] example_envs(1)
      T(1,2), of ?orb example_render example_summary]
  have "cancelled_at (se_gen example_cancelled_env) 1 \<and> int 1 < Total example_spec"
    using example_envs(8) by (simp add: T(3))
  with t1 example_counts(2) obtain st1 where
    a: "Schedule_calls ?V ?P example_render example_cancelled_env example_spec [7, 8]
          = Some (Inr (Inr st1))"
    "ss_calls st1 = []"
    "Schedule (source_sink example_summary ?orb) ?V ?P example_render example_cancelled_env
       example_spec [7, 8] = Some (Inl IndexOutOfRange)"
    by blast
  have "cancelled_at (se_gen example_cancel_env) 2 \<and> int 2 < Total example_spec"
    using example_envs(7) by (simp add: T(3))
  moreover have "ran_requests example_cancel_env 2 \<noteq> []"
    using example_counts(1) by auto
  ultimately obtain st2 stats2 where
    b: "Schedule_calls ?V ?P example_render example_cancel_env example_spec [7, 8]
          = Some (Inr (Inr st2))"
    "length (observations (ss_calls st2)) = length (ran_requests example_cancel_env 2)"
    "Schedule (source_sink example_summary ?orb) ?V ?P example_render example_cancel_env
       example_spec [7, 8] = Some (Inr (Some stats2, None))"
    "rs_Total stats2 = Total example_spec"
    using t2 o by blast
  from t3 example_envs(5) [of "nat (Total example_spec)"]
    example_envs(6) [of "nat (Total example_spec)"] o
  obtain st3 stats3 where
    c: "Schedule_calls ?V ?P example_render example_sched_env example_spec [7, 8]
          = Some (Inr (Inr st3))"
    "int (length (observations (ss_calls st3))) = Total example_spec"
    "int (length (latencySeconds (rm_run (source_sink example_summary ?orb) (ss_calls st3))))
       = Total example_spec"
    "Schedule (source_sink example_summary ?orb) ?V ?P example_render example_sched_env
       example_spec [7, 8] = Some (Inr (Some stats3, None))"
    "rs_Total stats3 = Total example_spec"
    by blast
  have r1: "\<exists>st. Schedule_calls ?V ?P example_render example_cancelled_env
            example_spec [7, 8] = Some (Inr (Inr st)) \<and> ss_calls st = []"
    using a by blast
  have r2: "Schedule example_sink ?V ?P example_render example_cancelled_env
        example_spec [7, 8] = Some (Inl IndexOutOfRange)"
    using a(3) by (simp add: example_sink_def)
  have r3: "\<exists>st stats. Schedule_calls ?V ?P example_render example_cancel_env
            example_spec [7, 8] = Some (Inr (Inr st))
       \<and> length (observations (ss_calls st)) = 1
       \<and> Schedule example_sink ?V ?P example_render example_cancel_env
            example_spec [7, 8] = Some (Inr (Some stats, None))
       \<and> rs_Total stats = 3"
    using b by (simp add: example_sink_def T(3) example_counts)
  have r4: "\<exists>st stats. Schedule_calls ?V ?P example_render example_sched_env
            example_spec [7, 8] = Some (Inr (Inr st))
       \<and> length (observations (ss_calls st)) = 3
       \<and> length (latencySeconds (rm_run example_sink (ss_calls st))) = 3
       \<and> Schedule example_sink ?V ?P example_render example_sched_env
            example_spec [7, 8] = Some (Inr (Some stats, None))
       \<and> rs_Total stats = 3"
    using c by (simp add: example_sink_def T(3))
  from r1 r2 r3 r4 show ?thesis by blast
qed

text \<open>
  C8. A failure of the final \<^verbatim>\<open>Gather\<close> does not reach the caller as an error next
  to stats. On the sink of metrics/request.go, \<^verbatim>\<open>Gather\<close> fails in one way: it
  panics on \<^verbatim>\<open>metricFamilies[0]\<close>, exactly when the sink holds no latency sample;
  it never returns an error, since the registry it makes returns none. For every
  sink: when \<^verbatim>\<open>Gather\<close> panics, so does \<^verbatim>\<open>Schedule\<close>, and the caller gets neither
  stats nor an error; whatever \<^verbatim>\<open>Gather\<close> returns, an error among its results
  included, \<^verbatim>\<open>Schedule\<close> returns stats and the error \<^verbatim>\<open>nil\<close>. An error that
  \<^verbatim>\<open>Schedule\<close> returns comes without stats and is the error of
  \<^verbatim>\<open>NewWeightedRandomRequests\<close>. So after a run in which no call was made on the
  sink, \<^verbatim>\<open>Schedule\<close> on the sink of metrics/request.go panics.
\<close>

theorem C8_gather_failure:
  "(rm_Gather (source_sink summary orb) m = Inl p \<longleftrightarrow> p = IndexOutOfRange \<and> latencySeconds m = [])
   \<and> (\<forall>a b e d. rm_Gather (source_sink summary orb) m \<noteq> Inr (a, b, Some e, d))
   \<and> (\<forall>q. rm_Gather I (rm_run I calls) = Inl q \<longrightarrow> Schedule_tail I env spec calls = Inl q)
   \<and> (\<forall>a b c d. rm_Gather I (rm_run I calls) = Inr (a, b, c, d) \<longrightarrow>
         Schedule_tail I env spec calls =
           Inr (Some \<lparr>rs_Total = Total spec, rs_FailureList = c, rs_Duration = se_duration env,
                      rs_TotalReceivedBytes = d, rs_PercentileLatencies = b\<rparr>, None))
   \<and> (\<forall>st. Schedule_calls Validate gpt rt env spec restCli = Some (Inr (Inr st)) \<longrightarrow>
         Schedule I Validate gpt rt env spec restCli
           = Some (Schedule_tail I env spec (ss_calls st)))
   \<and> (\<forall>stats err. Schedule I Validate gpt rt env spec restCli = Some (Inr (stats, Some err)) \<longrightarrow>
         stats = None \<and> NewWeightedRandomRequests Validate gpt spec = Inl err)
   \<and> (\<forall>st. Schedule_calls Validate gpt rt env spec restCli = Some (Inr (Inr st))
           \<and> ss_calls st = [] \<longrightarrow>
         Schedule (source_sink summary orb) Validate gpt rt env spec restCli
           = Some (Inl IndexOutOfRange))"
proof -
  have 1: "rm_Gather (source_sink summary orb) m = Inl p \<longleftrightarrow>
      p = IndexOutOfRange \<and> latencySeconds m = []"
    by (rule source_sink_Gather(1))
  have 2: "\<forall>a b e d. rm_Gather (source_sink summary orb) m \<noteq> Inr (a, b, Some e, d)"
    using source_sink_Gather(2) by blast
  have 3: "\<forall>q. rm_Gather I (rm_run I calls) = Inl q \<longrightarrow> Schedule_tail I env spec calls = Inl q"
    using Schedule_tail_panic by blast
  have 4: "\<forall>a b c d. rm_Gather I (rm_run I calls) = Inr (a, b, c, d) \<longrightarrow>
         Schedule_tail I env spec calls =
           Inr (Some \<lparr>rs_Total = Total spec, rs_FailureList = c, rs_Duration = se_duration env,
                      rs_TotalReceivedBytes = d, rs_PercentileLatencies = b\<rparr>, None)"
    by (intro allI impI) (rule Schedule_tail_returns)
  have 5: "\<forall>st. Schedule_calls Validate gpt rt env spec restCli = Some (Inr (Inr st)) \<longrightarrow>
         Schedule I Validate gpt rt env spec restCli
           = Some (Schedule_tail I env spec (ss_calls st))"
    using Schedule_of_calls by blast
  have 6: "\<forall>stats err. Schedule I Validate gpt rt env spec restCli
              = Some (Inr (stats, Some err)) \<longrightarrow>
         stats = None \<and> NewWeightedRandomRequests Validate gpt spec = Inl err"
    using Schedule_error_source by blast
  have 7: "\<forall>st. Schedule_calls Validate gpt rt env spec restCli = Some (Inr (Inr st))
           \<and> ss_calls st = [] \<longrightarrow>
         Schedule (source_sink summary orb) Validate gpt rt env spec restCli
           = Some (Inl IndexOutOfRange)"
  proof (intro allI impI)
    fix st
    assume "Schedule_calls Validate gpt rt env spec restCli = Some (Inr (Inr st))
           \<and> ss_calls st = []"
    then have st: "Schedule_calls Validate gpt rt env spec restCli = Some (Inr (Inr st))"
      and e: "ss_calls st = []" by blast+
    from Schedule_of_calls [OF st, of "source_sink summary orb"]
      Schedule_tail_panic [OF source_sink_Gather_no_calls, of summary orb env spec]
    show "Schedule (source_sink summary orb) Validate gpt rt env spec restCli
           = Some (Inl IndexOutOfRange)"
      by (simp add: e)
  qed
  from 1 2 3 4 5 6 7 show ?thesis by blast
qed

lemma example_done_run:
  "\<exists>st. Schedule_calls (\<lambda>spec. None) (\<lambda>t. t) example_render example_done_env
           example_spec [7, 8] = Some (Inr (Inr st))
     \<and> ss_calls st = []"
proof -
  let ?V = "\<lambda>spec :: LoadProfileSpec. None :: error option"
  let ?P = "\<lambda>t :: string. t"
  from example_generator obtain g where
    g: "NewWeightedRandomRequests ?V ?P example_spec = Inr g"
    and gok: "generator_ok g" and bok: "\<forall>b \<in> set (reqBuilders g). builder_ok b"
    and sum: "shares_sum (shares g) = 5"
    by blast
  have cl: "[7, 8 :: nat] \<noteq> []" by simp
  have T: "Total example_spec < 2 ^ 63" "Total example_spec \<le> 0 \<or> int 0 < Total example_spec"
    by (simp_all add: example_spec_def)
  from Run_cancelled [OF gok example_draws(4) [OF sum] T(1) example_envs(9) T(2)]
  obtain sent where run: "Run g (se_gen example_done_env) (Total example_spec)
      = Some (Inr (exit_of (snd (se_gen example_done_env 0)), sent))"
    and len: "length sent = 0" and idx: "\<forall>b \<in> set sent. b < length (reqBuilders g)"
    by blast
  from Schedule_calls_sent [OF g cl bok example_envs(4) run idx, of example_render]
  show ?thesis by (auto simp: len example_counts)
qed

theorem C8_gather_failure_witness:
  "(\<exists>st. Schedule_calls (\<lambda>spec. None) (\<lambda>t. t) example_render example_done_env
           example_spec [7, 8] = Some (Inr (Inr st))
      \<and> ss_calls st = []
      \<and> rm_Gather example_sink (rm_run example_sink (ss_calls st)) = Inl IndexOutOfRange)
   \<and> Schedule example_sink (\<lambda>spec. None) (\<lambda>t. t) example_render example_done_env
        example_spec [7, 8] = Some (Inl IndexOutOfRange)
   \<and> rm_Gather example_failing_sink (rm_run example_failing_sink [])
       = Inr (Map.empty, 0, Some ''failed to gather from local registry: collect'', [])
   \<and> Schedule_tail example_failing_sink example_done_env example_spec []
       = Inr (Some \<lparr>rs_Total = 3,
                    rs_FailureList = Some ''failed to gather from local registry: collect'',
                    rs_Duration = 30, rs_TotalReceivedBytes = [],
                    rs_PercentileLatencies = 0\<rparr>, None)
   \<and> Schedule example_sink (\<lambda>spec. Some ''no shares'') (\<lambda>t. t) example_render
        example_done_env example_spec [7, 8]
       = Some (Inr (None, Some ''invalid load profile spec: no shares''))
   \<and> NewWeightedRandomRequests (\<lambda>spec. Some ''no shares'') (\<lambda>t. t) example_spec
       = Inl ''invalid load profile spec: no shares''"
proof -
  let ?V = "\<lambda>spec :: LoadProfileSpec. None :: error option"
  let ?W = "\<lambda>spec :: LoadProfileSpec. Some ''no shares'' :: error option"
  let ?P = "\<lambda>t :: string. t"
  let ?orb = "\<lambda>(m :: responseMetricImpl) (n :: int). m"
  from example_done_run obtain st where
    st: "Schedule_calls ?V ?P example_render example_done_env example_spec [7, 8]
           = Some (Inr (Inr st))"
    and e: "ss_calls st = []"
    by blast
  note t = C8_gather_failure [of example_summary ?orb "rm_run example_sink (ss_calls st)"
      IndexOutOfRange example_failing_sink "[]" example_done_env example_spec
      ?V ?P example_render "[7, 8]"]
  have s: "latencySeconds (rm_run example_sink (ss_calls st)) = []"
    by (simp add: e rm_run_def example_sink_def source_sink_def NewResponseMetric_def)
  from t s have G: "rm_Gather example_sink (rm_run example_sink (ss_calls st))
      = Inl IndexOutOfRange"
    by (simp add: example_sink_def)
  from t st e have S: "Schedule example_sink ?V ?P example_render example_done_env
        example_spec [7, 8] = Some (Inl IndexOutOfRange)"
    unfolding example_sink_def by blast
  have F: "rm_Gather example_failing_sink (rm_run example_failing_sink [])
       = Inr (Map.empty, 0, Some ''failed to gather from local registry: collect'', [])"
    by (simp add: example_failing_sink_def example_sink_def source_sink_def rm_run_def
        Gather_def NewResponseMetric_def)
  with t have "Schedule_tail example_failing_sink example_done_env example_spec []
       = Inr (Some \<lparr>rs_Total = Total example_spec,
                    rs_FailureList = Some ''failed to gather from local registry: collect'',
                    rs_Duration = se_duration example_done_env, rs_TotalReceivedBytes = [],
                    rs_PercentileLatencies = 0\<rparr>, None)"
    by blast
  then have R: "Schedule_tail example_failing_sink example_done_env example_spec []
       = Inr (Some \<lparr>rs_Total = 3,
                    rs_FailureList = Some ''failed to gather from local registry: collect'',
                    rs_Duration = 30, rs_TotalReceivedBytes = [],
                    rs_PercentileLatencies = 0\<rparr>, None)"
    by (simp add: example_spec_def example_done_env_def)
  have bad: "Schedule example_sink ?W ?P example_render example_done_env example_spec [7, 8]
       = Some (Inr (None, Some ''invalid load profile spec: no shares''))"
    by (simp add: Schedule_def Schedule_calls_def NewWeightedRandomRequests_def)
  from C8_gather_failure [of example_summary ?orb NewResponseMetric IndexOutOfRange
      example_sink "[]" example_done_env example_spec ?W ?P example_render "[7, 8]"] bad
  have src: "NewWeightedRandomRequests ?W ?P example_spec
       = Inl ''invalid load profile spec: no shares''"
    by blast
  from st e G S F R bad src show ?thesis by blast
qed

end
